(* ===== verification/Prelude.thy ===== *)
theory Prelude
  imports Main "HOL-Library.Word" "HOL-Library.Multiset"
begin

unbundle bit_operations_syntax

text \<open>
  What every component shares: the machine integers of the Rust sources, panics and
  \<open>Result\<close>s as values, the few methods of \<open>Vec\<close>, \<open>Iterator\<close> and \<open>Option\<close> the sources
  call, and the generic lemmas on them.
\<close>

section \<open>Machine integers\<close>

type_synonym u8 = "8 word"
type_synonym u32 = "32 word"
type_synonym u64 = "64 word"
type_synonym u128 = "128 word"

text \<open>\<open>usize\<close> on the 64-bit targets.\<close>

type_synonym usize = "64 word"

text \<open>
  \<open>std::time::Duration\<close> as its number of nanoseconds; \<open>from_secs\<close> and \<open>from_millis\<close> are
  the constructors the sources use.
\<close>

type_synonym duration = nat

definition duration_from_secs :: "u64 \<Rightarrow> duration" where
  "duration_from_secs s = unat s * 1000000000"

definition duration_from_millis :: "u64 \<Rightarrow> duration" where
  "duration_from_millis s = unat s * 1000000"

definition u8_saturating_sub :: "u8 \<Rightarrow> u8 \<Rightarrow> u8" where
  "u8_saturating_sub a b = (if a < b then 0 else a - b)"

lemma unat_u8_saturating_sub [simp]: "unat (u8_saturating_sub a b) = unat a - unat b"
  by (simp add: u8_saturating_sub_def unat_sub word_le_nat_alt word_less_nat_alt)

section \<open>Panics and results\<close>

text \<open>
  The ways the modelled code can panic: an arithmetic overflow in a build with overflow
  checks, an \<open>expect\<close> or \<open>unwrap\<close> on \<open>None\<close> or \<open>Err\<close> (with its message), and a panic
  macro, in the code or in a library it calls (with its message).
  A computation that may panic is \<open>panic + 'a\<close>; a Rust \<open>Result\<close> is \<open>'e + 'a\<close>.
  Both are sequenced by \<open>bind_res\<close>.
\<close>

datatype panic = AddOverflow | ExpectFailed string | Panicked string

type_synonym 'a may_panic = "panic + 'a"

primrec bind_res :: "'e + 'a \<Rightarrow> ('a \<Rightarrow> 'e + 'b) \<Rightarrow> 'e + 'b" where
  "bind_res (Inl e) f = Inl e"
| "bind_res (Inr x) f = f x"

primrec map_err :: "('e \<Rightarrow> 'f) \<Rightarrow> 'e + 'a \<Rightarrow> 'f + 'a" where
  "map_err g (Inl e) = Inl (g e)"
| "map_err g (Inr x) = Inr x"

primrec map_ok :: "('a \<Rightarrow> 'b) \<Rightarrow> 'e + 'a \<Rightarrow> 'e + 'b" where
  "map_ok g (Inl e) = Inl e"
| "map_ok g (Inr x) = Inr (g x)"

primrec ok_or :: "'e \<Rightarrow> 'a option \<Rightarrow> 'e + 'a" where
  "ok_or e None = Inl e"
| "ok_or e (Some x) = Inr x"

definition expect :: "string \<Rightarrow> 'a option \<Rightarrow> 'a may_panic" where
  "expect msg x = ok_or (ExpectFailed msg) x"

lemma expect_simps [simp]:
  "expect msg None = Inl (ExpectFailed msg)"
  "expect msg (Some x) = Inr x"
  by (simp_all add: expect_def)

lemma expect_eq_Inr [simp]: "expect msg x = Inr y \<longleftrightarrow> x = Some y"
  by (cases x) auto

lemma bind_res_eq_Inr: "bind_res r f = Inr y \<longleftrightarrow> (\<exists>x. r = Inr x \<and> f x = Inr y)"
  by (cases r) auto

lemma bind_res_eq_Inl: "bind_res r f = Inl e \<longleftrightarrow> r = Inl e \<or> (\<exists>x. r = Inr x \<and> f x = Inl e)"
  by (cases r) auto

lemma bind_res_InlI: "r = Inl e \<Longrightarrow> bind_res r f = Inl e"
  by simp

lemma bind_res_assoc [simp]: "bind_res (bind_res r f) g = bind_res r (\<lambda>x. bind_res (f x) g)"
  by (cases r) simp_all

lemma bind_res_Inr [simp]: "bind_res r Inr = r"
  by (cases r) simp_all

lemma bind_res_ext: "(\<And>x. f x = g x) \<Longrightarrow> bind_res r f = bind_res r g"
  by (cases r) simp_all

lemma map_ok_eq_Inr [simp]: "map_ok g r = Inr y \<longleftrightarrow> (\<exists>x. r = Inr x \<and> y = g x)"
  by (cases r) auto

lemma map_err_eq_Inr [simp]: "map_err g r = Inr y \<longleftrightarrow> r = Inr y"
  by (cases r) auto

lemma ok_or_eq_Inr [simp]: "ok_or e x = Inr y \<longleftrightarrow> x = Some y"
  by (cases x) auto

text \<open>
  Addition on \<open>u8\<close>.  Whether an overflow panics is a setting of the build profile
  (\<open>overflow-checks\<close>: on in the dev profile, off in the release profile), so it is an
  argument; without the checks the sum wraps.
\<close>

definition u8_add :: "bool \<Rightarrow> u8 \<Rightarrow> u8 \<Rightarrow> u8 may_panic" where
  "u8_add overflow_checks a b =
     (if overflow_checks \<and> 255 < unat a + unat b then Inl AddOverflow else Inr (a + b))"

lemma u8_add_small: "unat a + unat b < 256 \<Longrightarrow> u8_add c a b = Inr (a + b)"
  by (simp add: u8_add_def)

lemma unat_u8_add:
  assumes "unat (a :: u8) + unat b < 256"
  shows "unat (a + b) = unat a + unat b"
  using assms by (simp add: unat_word_ariths)

lemma u8_le_255: "unat (x :: u8) \<le> 255"
  using unsigned_less [of x, where 'a = nat] by simp

section \<open>Iterators and vectors\<close>

text \<open>\<open>Iterator::find_map\<close>, \<open>Iterator::position\<close> and \<open>Vec::swap_remove\<close>.\<close>

primrec find_map :: "('a \<Rightarrow> 'b option) \<Rightarrow> 'a list \<Rightarrow> 'b option" where
  "find_map f [] = None"
| "find_map f (x # xs) = (case f x of None \<Rightarrow> find_map f xs | Some y \<Rightarrow> Some y)"

primrec position :: "('a \<Rightarrow> bool) \<Rightarrow> 'a list \<Rightarrow> nat option" where
  "position P [] = None"
| "position P (x # xs) = (if P x then Some 0 else map_option Suc (position P xs))"

text \<open>
  \<open>swap_remove\<close> overwrites the element at the index with the last one and shortens the
  vector; out of range it panics, which the result \<open>None\<close> stands for.
\<close>

definition swap_remove :: "nat \<Rightarrow> 'a list \<Rightarrow> 'a list option" where
  "swap_remove i xs = (if i < length xs then Some (butlast (xs[i := last xs])) else None)"

lemma find_map_None: "find_map f xs = None \<longleftrightarrow> (\<forall>x \<in> set xs. f x = None)"
  by (induction xs) (auto split: option.splits)

lemma find_map_SomeD: "find_map f xs = Some y \<Longrightarrow> \<exists>x \<in> set xs. f x = Some y"
  by (induction xs) (auto split: option.splits)

lemma find_map_append:
  "find_map f (xs @ ys) = (case find_map f xs of None \<Rightarrow> find_map f ys | Some y \<Rightarrow> Some y)"
  by (induction xs) (auto split: option.splits)

lemma position_None [simp]: "position P xs = None \<longleftrightarrow> (\<forall>x \<in> set xs. \<not> P x)"
  by (induction xs) auto

lemma position_SomeD:
  "position P xs = Some i \<Longrightarrow> i < length xs \<and> P (xs ! i) \<and> (\<forall>j < i. \<not> P (xs ! j))"
proof (induction xs arbitrary: i)
  case Nil
  then show ?case by simp
next
  case (Cons x xs)
  show ?case
  proof (cases "P x")
    case True
    with Cons.prems show ?thesis by simp
  next
    case False
    with Cons.prems obtain j where j: "position P xs = Some j" "i = Suc j"
      by auto
    from Cons.IH [OF j(1)] False j(2) show ?thesis
      by (auto simp: nth_Cons split: nat.splits)
  qed
qed

text \<open>\<open>swap_remove\<close> removes exactly one occurrence of the element at its index.\<close>

lemma mset_swap_remove:
  assumes "swap_remove i xs = Some ys"
  shows "mset ys + {#xs ! i#} = mset xs"
proof -
  from assms have i: "i < length xs" and ys: "ys = butlast (xs[i := last xs])"
    by (auto simp: swap_remove_def split: if_splits)
  then have ne: "xs \<noteq> []" by auto
  then have last: "last (xs[i := last xs]) = last xs"
    by (cases "i = length xs - 1") (auto simp: last_conv_nth)
  have "mset (xs[i := last xs]) = mset ys + {#last xs#}"
    using ne last ys append_butlast_last_id [of "xs[i := last xs]"]
    by (metis list_update_nonempty mset_append mset_single_iff_right union_code)
  moreover have "mset (xs[i := last xs]) = add_mset (last xs) (mset xs - {#xs ! i#})"
    using i by (simp add: mset_update)
  ultimately have "mset ys = mset xs - {#xs ! i#}" by simp
  then show ?thesis using i by simp
qed

lemma swap_remove_eq_Some: "i < length xs \<Longrightarrow> \<exists>ys. swap_remove i xs = Some ys"
  by (simp add: swap_remove_def)

text \<open>
  Collecting an iterator of \<open>Result\<close>s into a \<open>Result\<close> of a vector: the first error wins.
\<close>

fun collect_results :: "('a \<Rightarrow> 'e + 'b) \<Rightarrow> 'a list \<Rightarrow> 'e + 'b list" where
  "collect_results f [] = Inr []"
| "collect_results f (x # xs) =
     bind_res (f x) (\<lambda>y. bind_res (collect_results f xs) (\<lambda>ys. Inr (y # ys)))"

lemma collect_results_Inr:
  "collect_results f xs = Inr ys \<longleftrightarrow> map f xs = map Inr ys"
  by (induction xs arbitrary: ys) (auto simp: bind_res_eq_Inr map_eq_Cons_conv Cons_eq_map_conv)

lemma collect_results_Inl:
  "collect_results f xs = Inl e \<longleftrightarrow>
     (\<exists>us x vs. xs = us @ x # vs \<and> f x = Inl e \<and> (\<forall>u \<in> set us. \<exists>y. f u = Inr y))"
proof
  show "collect_results f xs = Inl e \<Longrightarrow>
     \<exists>us x vs. xs = us @ x # vs \<and> f x = Inl e \<and> (\<forall>u \<in> set us. \<exists>y. f u = Inr y)"
  proof (induction xs)
    case (Cons a xs)
    show ?case
    proof (cases "f a")
      case (Inl e')
      with Cons.prems show ?thesis
        by (intro exI [of _ "[]"] exI [of _ a] exI [of _ xs]) simp
    next
      case (Inr y)
      with Cons.prems have "collect_results f xs = Inl e"
        by (auto simp: bind_res_eq_Inl)
      with Cons.IH obtain us x vs where
        "xs = us @ x # vs" "f x = Inl e" "\<forall>u \<in> set us. \<exists>y. f u = Inr y" by blast
      with Inr show ?thesis
        by (intro exI [of _ "a # us"] exI [of _ x] exI [of _ vs]) simp
    qed
  qed simp
next
  have "collect_results f (us @ x # vs) = Inl e"
    if "f x = Inl e" "\<forall>u \<in> set us. \<exists>y. f u = Inr y" for us x vs
    using that by (induction us) auto
  then show "\<exists>us x vs. xs = us @ x # vs \<and> f x = Inl e \<and> (\<forall>u \<in> set us. \<exists>y. f u = Inr y) \<Longrightarrow>
     collect_results f xs = Inl e"
    by blast
qed

lemma collect_results_total:
  "(\<And>x. x \<in> set xs \<Longrightarrow> f x = Inr (g x)) \<Longrightarrow> collect_results f xs = Inr (map g xs)"
  by (simp add: collect_results_Inr)

lemma collect_results_fails: "x \<in> set xs \<Longrightarrow> f x = Inl e \<Longrightarrow> \<exists>e. collect_results f xs = Inl e"
proof (induction xs)
  case (Cons a xs)
  then show ?case by (cases "f a") auto
qed simp

lemma collect_results_cong: "(\<And>x. x \<in> set xs \<Longrightarrow> f x = g x) \<Longrightarrow> collect_results f xs = collect_results g xs"
  by (induction xs) simp_all

lemma image_mset_repeat: "image_mset f (repeat_mset k M) = repeat_mset k (image_mset f M)"
  by (induction k) simp_all

end
