(* ===== verification/Net_Types.thy ===== *)
theory Net_Types
  imports Prelude
begin

text \<open>
  The address types of \<open>std::net\<close> the sources use.  \<open>Ord\<close> on \<open>IpAddr\<close> is the derived one:
  every IPv4 address is below every IPv6 address, and within a family the octets compare
  lexicographically, which is the order of the addresses read as big-endian integers.
\<close>

datatype ip_addr = V4 u32 | V6 u128

record socket_addr =
  sa_ip :: ip_addr
  sa_port :: "16 word"

definition LOCALHOST_V4 :: ip_addr where
  "LOCALHOST_V4 = V4 0x7F000001"

instantiation ip_addr :: linorder
begin

definition less_eq_ip_addr :: "ip_addr \<Rightarrow> ip_addr \<Rightarrow> bool" where
  "less_eq_ip_addr a b =
     (case a of
        V4 x \<Rightarrow> (case b of V4 y \<Rightarrow> x \<le> y | V6 _ \<Rightarrow> True)
      | V6 x \<Rightarrow> (case b of V4 _ \<Rightarrow> False | V6 y \<Rightarrow> x \<le> y))"

definition less_ip_addr :: "ip_addr \<Rightarrow> ip_addr \<Rightarrow> bool" where
  "less_ip_addr a b = (a \<le> b \<and> \<not> b \<le> a)"

instance
  by standard (auto simp: less_eq_ip_addr_def less_ip_addr_def split: ip_addr.splits)

end

lemma ip_addr_le_simps [simp]:
  "V4 x \<le> V4 y \<longleftrightarrow> x \<le> y"
  "V4 x \<le> V6 v"
  "\<not> V6 v \<le> V4 x"
  "V6 v \<le> V6 w \<longleftrightarrow> v \<le> w"
  by (simp_all add: less_eq_ip_addr_def)

lemma ip_addr_less_simps [simp]:
  "V4 x < V4 y \<longleftrightarrow> x < y"
  "V4 x < V6 v"
  "\<not> V6 v < V4 x"
  "V6 v < V6 w \<longleftrightarrow> v < w"
  by (auto simp: less_ip_addr_def)

end
