(* ===== verification/Address_Store.thy ===== *)
theory Address_Store
  imports Net_Types
begin

text \<open>
  The contract the two collections of the pool share: both hold entries keyed by an IP
  address, are searched by address and are replaced as a whole by the DNS check.  What
  differs is how a single entry is added (the ready channels append, the broken endpoints
  replace the entry of the same address) and how one is removed; those are the locales
  that extend the common one.  The abstraction of a collection is the multiset of its
  entries, because neither the order of the channel vector nor the layout of the heap is
  part of the contract.
\<close>

section \<open>Keys of a multiset of entries\<close>

definition keys_of :: "('e \<Rightarrow> ip_addr) \<Rightarrow> 'e multiset \<Rightarrow> ip_addr set" where
  "keys_of key M = key ` set_mset M"

definition unique_keys :: "('e \<Rightarrow> ip_addr) \<Rightarrow> 'e multiset \<Rightarrow> bool" where
  "unique_keys key M \<longleftrightarrow> (\<forall>a. size (filter_mset (\<lambda>e. key e = a) M) \<le> 1)"

lemma keys_of_simps [simp]:
  "keys_of key {#} = {}"
  "keys_of key (add_mset e M) = insert (key e) (keys_of key M)"
  "keys_of key (M + N) = keys_of key M \<union> keys_of key N"
  "keys_of key (filter_mset (\<lambda>x. key x \<noteq> a) M) = keys_of key M - {a}"
  by (auto simp: keys_of_def)

lemma keys_of_mset [simp]: "keys_of key (mset es) = key ` set es"
  by (simp add: keys_of_def)

lemma unique_keys_empty [simp]: "unique_keys key {#}"
  by (simp add: unique_keys_def)

lemma filter_key_empty: "filter_mset (\<lambda>e. key e = a) M = {#} \<longleftrightarrow> a \<notin> keys_of key M"
  by (auto simp: keys_of_def filter_mset_eq_conv)

lemma unique_keys_subset:
  assumes "unique_keys key M" and "N \<subseteq># M"
  shows "unique_keys key N"
proof -
  have "size (filter_mset (\<lambda>e. key e = a) N) \<le> size (filter_mset (\<lambda>e. key e = a) M)" for a
    by (rule size_mset_mono) (rule multiset_filter_mono [OF assms(2)])
  with assms(1) show ?thesis
    unfolding unique_keys_def using le_trans by blast
qed

lemma unique_keys_add_mset [simp]:
  "unique_keys key (add_mset e M) \<longleftrightarrow> key e \<notin> keys_of key M \<and> unique_keys key M"
proof
  assume u: "unique_keys key (add_mset e M)"
  have "size (filter_mset (\<lambda>x. key x = key e) (add_mset e M)) \<le> 1"
    using u unfolding unique_keys_def by blast
  then have "filter_mset (\<lambda>x. key x = key e) M = {#}" by simp
  moreover have "unique_keys key M"
    using u by (rule unique_keys_subset) simp
  ultimately show "key e \<notin> keys_of key M \<and> unique_keys key M"
    by (auto simp: keys_of_def)
next
  assume a: "key e \<notin> keys_of key M \<and> unique_keys key M"
  then have "filter_mset (\<lambda>x. key x = key e) M = {#}"
    unfolding filter_key_empty ..
  then have "size (filter_mset (\<lambda>x. key x = b) (add_mset e M)) \<le> 1" for b
    using a by (cases "b = key e") (simp_all add: unique_keys_def)
  then show "unique_keys key (add_mset e M)"
    unfolding unique_keys_def by blast
qed

lemma unique_keys_mset [simp]: "unique_keys key (mset es) \<longleftrightarrow> distinct (map key es)"
  by (induction es) auto

lemma unique_keysD:
  assumes "unique_keys key M" "e \<in># M" "f \<in># M" "key e = key f"
  shows "e = f"
proof (rule ccontr)
  assume "e \<noteq> f"
  with assms(2,3) obtain N where "M = add_mset e (add_mset f N)"
    by (metis insert_DiffM insert_noteq_member)
  with assms(1,4) show False by simp
qed

lemma keys_of_remove_unique:
  assumes "unique_keys key M" "e \<in># M"
  shows "keys_of key (M - {#e#}) = keys_of key M - {key e}"
proof -
  from assms(2) obtain N where "M = add_mset e N" by (metis insert_DiffM)
  with assms(1) show ?thesis by auto
qed

section \<open>The contracts\<close>

locale address_store =
  fixes entries :: "'s \<Rightarrow> 'e multiset"
    and key :: "'e \<Rightarrow> ip_addr"
    and lookup :: "'s \<Rightarrow> ip_addr \<Rightarrow> 'e option"
    and replace :: "'s \<Rightarrow> 'e list \<Rightarrow> 's"
  assumes lookup_Some: "lookup s a = Some e \<Longrightarrow> e \<in># entries s \<and> key e = a"
    and lookup_None: "lookup s a = None \<Longrightarrow> a \<notin> keys_of key (entries s)"
    and entries_replace: "entries (replace s es) = mset es"
begin

lemma lookup_is_None: "lookup s a = None \<longleftrightarrow> a \<notin> keys_of key (entries s)"
  using lookup_Some [of s a] lookup_None [of s a]
  by (cases "lookup s a") (auto simp: keys_of_def)

lemma lookup_unique:
  assumes "unique_keys key (entries s)" "e \<in># entries s"
  shows "lookup s (key e) = Some e"
proof -
  from assms(2) have "lookup s (key e) \<noteq> None"
    by (auto simp: lookup_is_None keys_of_def)
  then obtain f where f: "lookup s (key e) = Some f" by blast
  with lookup_Some [OF f] unique_keysD [OF assms(1) _ assms(2)] show ?thesis by metis
qed

text \<open>Where the keys are unique, lookups determine and are determined by the entries.\<close>

lemma lookup_eq_Some_unique:
  "unique_keys key (entries s) \<Longrightarrow> lookup s a = Some e \<longleftrightarrow> e \<in># entries s \<and> key e = a"
  using lookup_unique lookup_Some by blast

lemma lookup_cong_unique:
  assumes "unique_keys key (entries s)" "entries s = entries t"
  shows "lookup s a = lookup t a"
proof (cases "lookup s a")
  case None
  then show ?thesis using assms(2) by (metis lookup_is_None)
next
  case (Some e)
  then show ?thesis using assms by (metis lookup_eq_Some_unique)
qed

lemma unique_replace: "unique_keys key (entries (replace s es)) \<longleftrightarrow> distinct (map key es)"
  by (simp add: entries_replace)

lemma keys_replace: "keys_of key (entries (replace s es)) = key ` set es"
  by (simp add: entries_replace)

end

locale pushing_store = address_store +
  fixes push :: "'s \<Rightarrow> 'e \<Rightarrow> 's"
  assumes entries_push: "entries (push s e) = add_mset e (entries s)"
begin

lemma keys_push: "keys_of key (entries (push s e)) = insert (key e) (keys_of key (entries s))"
  by (simp add: entries_push)

lemma unique_push:
  "unique_keys key (entries (push s e)) \<longleftrightarrow>
     unique_keys key (entries s) \<and> lookup s (key e) = None"
  by (auto simp: entries_push lookup_is_None)

end

locale removing_store = address_store +
  fixes remove :: "'s \<Rightarrow> ip_addr \<Rightarrow> 's"
  assumes entries_remove: "entries (remove s a) =
     (case lookup s a of None \<Rightarrow> entries s | Some e \<Rightarrow> entries s - {#e#})"
begin

lemma remove_subset: "entries (remove s a) \<subseteq># entries s"
  by (simp add: entries_remove split: option.splits)

lemma unique_remove: "unique_keys key (entries s) \<Longrightarrow> unique_keys key (entries (remove s a))"
  using remove_subset by (rule unique_keys_subset [rotated])

lemma size_remove:
  "size (entries (remove s a)) = (if lookup s a = None then size (entries s) else size (entries s) - 1)"
  using lookup_Some [of s a] by (auto simp: entries_remove size_Diff_singleton split: option.splits)

lemma keys_remove:
  assumes "unique_keys key (entries s)"
  shows "keys_of key (entries (remove s a)) = keys_of key (entries s) - {a}"
proof (cases "lookup s a")
  case None
  then have "a \<notin> keys_of key (entries s)" by (simp add: lookup_is_None)
  with None show ?thesis by (simp add: entries_remove)
next
  case (Some e)
  with lookup_Some [OF Some] keys_of_remove_unique [OF assms] show ?thesis
    by (auto simp: entries_remove)
qed

lemma lookup_remove_unique:
  assumes "unique_keys key (entries s)"
  shows "lookup (remove s a) b = (if b = a then None else lookup s b)"
proof (cases "lookup (remove s a) b")
  case None
  then have "b \<notin> keys_of key (entries s) - {a}"
    by (simp add: lookup_is_None keys_remove [OF assms])
  then have "b = a \<or> lookup s b = None" by (auto simp: lookup_is_None)
  with None show ?thesis by auto
next
  case (Some e)
  then have "b \<in> keys_of key (entries (remove s a))"
    by (metis lookup_is_None option.simps(3))
  then have "b \<noteq> a" by (simp add: keys_remove [OF assms])
  from lookup_Some [OF Some] have "e \<in># entries s" "key e = b"
    using mset_subset_eqD [OF remove_subset] by auto
  with lookup_unique [OF assms] have "lookup s b = Some e" by blast
  with Some \<open>b \<noteq> a\<close> show ?thesis by simp
qed

end

locale upserting_store = address_store +
  fixes upsert :: "'s \<Rightarrow> 'e \<Rightarrow> 's"
  assumes entries_upsert:
    "entries (upsert s e) = add_mset e (filter_mset (\<lambda>x. key x \<noteq> key e) (entries s))"
begin

lemma keys_upsert: "keys_of key (entries (upsert s e)) = insert (key e) (keys_of key (entries s))"
  by (auto simp: entries_upsert)

lemma unique_upsert:
  assumes "unique_keys key (entries s)"
  shows "unique_keys key (entries (upsert s e))"
  using unique_keys_subset [OF assms multiset_filter_subset] by (simp add: entries_upsert)

lemma lookup_upsert:
  assumes "unique_keys key (entries s)"
  shows "lookup (upsert s e) b = (if b = key e then Some e else lookup s b)"
proof (cases "lookup (upsert s e) b")
  case None
  then have "b \<notin> insert (key e) (keys_of key (entries s))"
    by (simp add: lookup_is_None keys_upsert)
  then have "b \<noteq> key e" "lookup s b = None" by (auto simp: lookup_is_None)
  with None show ?thesis by simp
next
  case (Some f)
  from lookup_Some [OF Some] have f: "f \<in># entries (upsert s e)" "key f = b" by auto
  show ?thesis
  proof (cases "b = key e")
    case True
    with lookup_unique [OF unique_upsert [OF assms], of e e] show ?thesis
      by (simp add: entries_upsert)
  next
    case False
    with f have "f \<in># entries s" by (auto simp: entries_upsert)
    with f(2) lookup_unique [OF assms] have "lookup s b = Some f" by blast
    with Some False show ?thesis by simp
  qed
qed

end

end
