(* ===== verification/Ready_Channels.thy ===== *)
theory Ready_Channels
  imports Address_Store
begin

text \<open>
  \<open>soda-pool/src/ready_channels.rs\<close>: the vector of live channels behind a read-write lock
  and the atomic counter that picks one.  Every method holds the lock for its whole body
  (the counter is changed by a single atomic instruction under the read lock), so each one
  is a function of the state.  A channel is tonic's, a type parameter \<open>'ch\<close>.
\<close>

section \<open>State and operations\<close>

record 'ch ready_channels =
  channels :: "(ip_addr \<times> 'ch) list"
  index :: usize

definition ready_default :: "'ch ready_channels" where
  "ready_default = \<lparr>channels = [], index = 0\<rparr>"

definition ready_find :: "'ch ready_channels \<Rightarrow> ip_addr \<Rightarrow> 'ch option" where
  "ready_find rc ip =
     find_map (\<lambda>(addr, channel). if addr = ip then Some channel else None) (channels rc)"

text \<open>
  \<open>fetch_add\<close> wraps on overflow; the index of the vector access is in range because the
  empty case has returned.
\<close>

definition ready_get_any ::
  "'ch ready_channels \<Rightarrow> (ip_addr \<times> 'ch) option \<times> 'ch ready_channels" where
  "ready_get_any rc =
     (if channels rc = [] then (None, rc)
      else (Some (channels rc ! (unat (index rc) mod length (channels rc))),
            rc\<lparr>index := index rc + 1\<rparr>))"

definition ready_add :: "'ch ready_channels \<Rightarrow> ip_addr \<Rightarrow> 'ch \<Rightarrow> 'ch ready_channels" where
  "ready_add rc ip channel = rc\<lparr>channels := channels rc @ [(ip, channel)]\<rparr>"

definition ready_remove :: "'ch ready_channels \<Rightarrow> ip_addr \<Rightarrow> 'ch ready_channels" where
  "ready_remove rc ip =
     (case position (\<lambda>(addr, _). addr = ip) (channels rc) of
        None \<Rightarrow> rc
      | Some i \<Rightarrow>
          (case swap_remove i (channels rc) of
             None \<Rightarrow> rc
           | Some new \<Rightarrow> rc\<lparr>channels := new\<rparr>))"

definition ready_replace_with ::
  "'ch ready_channels \<Rightarrow> (ip_addr \<times> 'ch) list \<Rightarrow> 'ch ready_channels" where
  "ready_replace_with rc new = rc\<lparr>channels := new\<rparr>"

section \<open>Lookup and removal\<close>

abbreviation ready_entries :: "'ch ready_channels \<Rightarrow> (ip_addr \<times> 'ch) multiset" where
  "ready_entries rc \<equiv> mset (channels rc)"

definition ready_ips :: "'ch ready_channels \<Rightarrow> ip_addr list" where
  "ready_ips rc = map fst (channels rc)"

lemma ready_find_eq_map_of: "ready_find rc ip = map_of (channels rc) ip"
proof -
  have "find_map (\<lambda>(addr, channel). if addr = ip then Some channel else None) xs = map_of xs ip"
    for xs :: "(ip_addr \<times> 'a) list"
    by (induction xs) auto
  then show ?thesis by (simp add: ready_find_def)
qed

text \<open>The index found by \<open>position\<close> is in range, so \<open>swap_remove\<close> never panics here.\<close>

lemma ready_remove_cases:
  obtains (absent) "ready_find rc ip = None" "ready_remove rc ip = rc"
  | (present) ch new where "ready_find rc ip = Some ch"
      "ready_remove rc ip = rc\<lparr>channels := new\<rparr>"
      "mset new + {#(ip, ch)#} = mset (channels rc)"
proof (cases "position (\<lambda>(addr, _). addr = ip) (channels rc)")
  case None
  then have "ready_find rc ip = None"
    by (auto simp: ready_find_eq_map_of map_of_eq_None_iff)
  moreover from None have "ready_remove rc ip = rc"
    unfolding ready_remove_def by (simp only: option.case)
  ultimately show ?thesis by (rule absent)
next
  case (Some i)
  let ?xs = "channels rc"
  from position_SomeD [OF Some] have i: "i < length ?xs" "fst (?xs ! i) = ip"
    "\<forall>j < i. fst (?xs ! j) \<noteq> ip" by (auto simp: case_prod_beta)
  from swap_remove_eq_Some [OF i(1)] obtain new where new: "swap_remove i ?xs = Some new" ..
  have "?xs = take i ?xs @ ?xs ! i # drop (Suc i) ?xs"
    using i(1) by (rule id_take_nth_drop)
  moreover have "map_of (take i ?xs) ip = None"
    using i by (fastforce simp: map_of_eq_None_iff in_set_conv_nth)
  ultimately have "map_of ?xs ip = Some (snd (?xs ! i))"
    using i(2) by (metis (no_types, lifting) map_add_Some_iff map_add_find_right map_of_append map_of_Cons_code(2) prod.collapse map_add_dom_app_simps(3) domIff)
  then have "ready_find rc ip = Some (snd (?xs ! i))" by (simp add: ready_find_eq_map_of)
  moreover have "mset new + {#(ip, snd (?xs ! i))#} = mset ?xs"
    using mset_swap_remove [OF new] i(2) by (metis prod.collapse)
  ultimately show ?thesis
    using present Some new by (simp add: ready_remove_def)
qed

interpretation rc: address_store ready_entries fst
  "\<lambda>s a. map_option (Pair a) (ready_find s a)" ready_replace_with
  by unfold_locales
     (auto simp: ready_find_eq_map_of ready_replace_with_def map_of_eq_None_iff dest: map_of_SomeD)

interpretation rc: pushing_store ready_entries fst
  "\<lambda>s a. map_option (Pair a) (ready_find s a)" ready_replace_with
  "\<lambda>s e. ready_add s (fst e) (snd e)"
  by unfold_locales (simp add: ready_add_def)

interpretation rc: removing_store ready_entries fst
  "\<lambda>s a. map_option (Pair a) (ready_find s a)" ready_replace_with ready_remove
proof unfold_locales
  fix s :: "'a ready_channels" and a
  show "ready_entries (ready_remove s a) =
    (case map_option (Pair a) (ready_find s a) of None \<Rightarrow> ready_entries s
     | Some e \<Rightarrow> ready_entries s - {#e#})"
    by (cases rule: ready_remove_cases [of s a]) (auto dest: sym)
qed

section \<open>Removal under duplicate addresses\<close>

text \<open>
  Nothing in \<open>add\<close> or \<open>replace_with\<close> keeps the addresses of the vector apart, and \<open>remove\<close>
  takes out one entry only: with \<open>k\<close> entries for an address, \<open>k - 1\<close> remain.
\<close>

definition ready_count :: "'ch ready_channels \<Rightarrow> ip_addr \<Rightarrow> nat" where
  "ready_count rc a = length (filter (\<lambda>e. fst e = a) (channels rc))"

lemma ready_count_mset:
  "ready_count rc a = size (filter_mset (\<lambda>e. fst e = a) (ready_entries rc))"
  by (simp add: ready_count_def flip: mset_filter)

lemma ready_count_remove:
  "ready_count (ready_remove rc a) b = (if b = a then ready_count rc a - 1 else ready_count rc b)"
proof (cases rule: ready_remove_cases [of rc a])
  case absent
  then have "ready_count rc a = 0"
    by (auto simp: ready_find_eq_map_of map_of_eq_None_iff ready_count_def filter_empty_conv)
  with absent show ?thesis by simp
next
  case (present ch new)
  let ?P = "\<lambda>c. filter_mset (\<lambda>e. fst e = c)"
  have "?P b (mset new) + ?P b {#(a, ch)#} = ?P b (ready_entries rc)"
    unfolding filter_union_mset [symmetric] present(3) ..
  then have "size (?P b (mset new)) + size (?P b {#(a, ch)#}) = ready_count rc b"
    unfolding ready_count_mset by (metis size_union)
  with present(2) show ?thesis
    by (auto simp: ready_count_mset split: if_splits)
qed

section \<open>The round robin\<close>

lemma ready_get_any_simps [simp]:
  "channels (snd (ready_get_any rc)) = channels rc"
  "fst (ready_get_any rc) = None \<longleftrightarrow> channels rc = []"
  by (simp_all add: ready_get_any_def)

lemma ready_get_any_SomeD:
  "ready_get_any rc = (Some e, rc') \<Longrightarrow> e \<in> set (channels rc) \<and> channels rc' = channels rc"
  by (auto simp: ready_get_any_def split: if_splits)

text \<open>\<open>n\<close> calls in a row with no other change to the pool.\<close>

fun get_any_calls :: "nat \<Rightarrow> 'ch ready_channels \<Rightarrow> (ip_addr \<times> 'ch) option list" where
  "get_any_calls 0 rc = []"
| "get_any_calls (Suc n) rc =
     (let (e, rc') = ready_get_any rc in e # get_any_calls n rc')"

lemma get_any_calls_eq:
  assumes "channels rc \<noteq> []" "unat (index rc) + n \<le> 2 ^ 64"
  shows "get_any_calls n rc =
    map (\<lambda>j. Some (channels rc ! (j mod length (channels rc)))) [unat (index rc)..<unat (index rc) + n]"
  using assms
proof (induction n arbitrary: rc)
  case 0
  then show ?case by simp
next
  case (Suc n)
  let ?i = "unat (index rc)"
  show ?case
  proof (cases n)
    case 0
    with Suc.prems show ?thesis by (simp add: ready_get_any_def)
  next
    case (Suc m)
    with Suc.prems(2) have "?i + 1 < 2 ^ 64" by simp
    then have i: "unat (index rc + 1) = ?i + 1" by (simp add: unat_word_ariths)
    have "get_any_calls n (rc\<lparr>index := index rc + 1\<rparr>) =
      map (\<lambda>j. Some (channels rc ! (j mod length (channels rc)))) [?i + 1..<?i + 1 + n]"
      using Suc.IH [of "rc\<lparr>index := index rc + 1\<rparr>"] Suc.prems i by simp
    then show ?thesis
      using Suc.prems(1) by (simp add: ready_get_any_def upt_conv_Cons del: upt_Suc)
  qed
qed

lemma mset_mod_window:
  fixes xs :: "'a list"
  assumes "xs \<noteq> []"
  shows "mset (map (\<lambda>j. xs ! (j mod length xs)) [s..<s + length xs]) = mset xs"
proof (induction s)
  case 0
  have "map (\<lambda>j. xs ! (j mod length xs)) [0..<length xs] = map ((!) xs) [0..<length xs]"
    by (rule map_cong) simp_all
  then show ?case by (simp add: map_nth)
next
  case (Suc s)
  let ?f = "\<lambda>j. xs ! (j mod length xs)"
  have "[s..<s + length xs] = s # [Suc s..<s + length xs]"
    using assms by (simp add: upt_conv_Cons)
  moreover have "[Suc s..<Suc s + length xs] = [Suc s..<s + length xs] @ [s + length xs]"
    using assms by (cases xs) simp_all
  ultimately have "mset (map ?f [Suc s..<Suc s + length xs]) = mset (map ?f [s..<s + length xs])"
    by simp
  with Suc.IH show ?case by simp
qed

lemma get_any_window:
  assumes "channels rc \<noteq> []" "unat (index rc) + k * length (channels rc) \<le> 2 ^ 64"
  shows "mset (get_any_calls (k * length (channels rc)) rc) =
    repeat_mset k (mset (map Some (channels rc)))"
proof -
  let ?xs = "channels rc"
  let ?f = "\<lambda>j. ?xs ! (j mod length ?xs)"
  have "mset (map ?f [s..<s + k * length ?xs]) = repeat_mset k (mset ?xs)" for s
  proof (induction k)
    case 0
    then show ?case by simp
  next
    case (Suc k)
    have "[s..<s + Suc k * length ?xs] =
        [s..<s + k * length ?xs] @ [s + k * length ?xs..<s + k * length ?xs + length ?xs]"
      using upt_add_eq_append [of s "s + k * length ?xs" "length ?xs"] by (simp add: ac_simps)
    with Suc.IH mset_mod_window [OF assms(1), of "s + k * length ?xs"] show ?case
      by (simp only: map_append mset_append repeat_mset_Suc) simp
  qed
  then have "mset (map Some (map ?f [unat (index rc)..<unat (index rc) + k * length ?xs])) =
      repeat_mset k (mset (map Some ?xs))"
    by (simp only: mset_map image_mset_repeat)
  then show ?thesis
    by (simp only: get_any_calls_eq [OF assms] map_map comp_def)
qed

lemma ready_find_remove_unique:
  assumes "distinct (map fst (channels rc))"
  shows "ready_find (ready_remove rc a) = (ready_find rc)(a := None)"
proof -
  have u: "unique_keys fst (ready_entries rc)" using assms by simp
  have "ready_find (ready_remove rc a) b = (if b = a then None else ready_find rc b)" for b
    using rc.lookup_remove_unique [OF u, where a = a and b = b]
    by (cases "ready_find rc b") (auto split: if_splits)
  then show ?thesis by (simp add: fun_eq_iff)
qed

section \<open>Properties\<close>

text \<open>
  C30: while the counter does not wrap, \<open>k\<close> rounds of \<open>get_any\<close> on an unchanged pool of
  channels hand out every channel exactly \<open>k\<close> times: the choice is a fair round robin, not
  a random one.
\<close>

theorem get_any_round_robin:
  assumes "channels rc \<noteq> []" "unat (index rc) + k * length (channels rc) \<le> 2 ^ 64"
  shows "mset (get_any_calls (k * length (channels rc)) rc) =
    repeat_mset k (mset (map Some (channels rc)))"
  using assms by (rule get_any_window)

theorem get_any_round_robin_witness:
  "mset (get_any_calls (2 * length [(V4 1, 10), (V4 2, 20), (V4 3, 30 :: int)])
      \<lparr>channels = [(V4 1, 10), (V4 2, 20), (V4 3, 30)], index = 7\<rparr>) =
    repeat_mset 2 (mset (map Some [(V4 1, 10), (V4 2, 20), (V4 3, 30 :: int)]))"
  using get_any_round_robin [of "\<lparr>channels = [(V4 1, 10), (V4 2, 20), (V4 3, 30 :: int)], index = 7\<rparr>" 2]
  by simp

text \<open>
  C31: where the addresses of the vector are distinct, it implements a finite map from
  addresses to channels: removal deletes the key, adding an absent address inserts it,
  replacement stores the new entries, and removal keeps the addresses distinct although it
  changes their order.
\<close>

theorem ready_channels_refine_map:
  assumes "distinct (map fst (channels rc))"
  shows "ready_find (ready_remove rc a) = (ready_find rc)(a := None) \<and>
    distinct (map fst (channels (ready_remove rc a))) \<and>
    (ready_find rc a = None \<longrightarrow>
       ready_find (ready_add rc a ch) = (ready_find rc)(a \<mapsto> ch) \<and>
       distinct (map fst (channels (ready_add rc a ch)))) \<and>
    ready_find (ready_replace_with rc new) = map_of new"
proof -
  have u: "unique_keys fst (ready_entries rc)" using assms by simp
  have "ready_find (ready_remove rc a) = (ready_find rc)(a := None)"
    by (rule ready_find_remove_unique [OF assms])
  moreover have "distinct (map fst (channels (ready_remove rc a)))"
    using rc.unique_remove [OF u, of a] by simp
  moreover have "ready_find (ready_add rc a ch) = (ready_find rc)(a \<mapsto> ch)"
    if "ready_find rc a = None"
    using that by (auto simp: ready_find_eq_map_of ready_add_def fun_eq_iff map_add_def split: option.splits)
  moreover have "distinct (map fst (channels (ready_add rc a ch)))" if "ready_find rc a = None"
    using rc.unique_push [of rc "(a, ch)"] u that by simp
  ultimately show ?thesis
    by (simp add: ready_find_eq_map_of ready_replace_with_def fun_eq_iff)
qed

theorem ready_channels_refine_map_witness:
  "let rc = \<lparr>channels = [(V4 1, 10), (V4 2, 20), (V4 3, 30 :: int)], index = 0\<rparr> in
    ready_find (ready_remove rc (V4 1)) = (ready_find rc)(V4 1 := None) \<and>
    map fst (channels (ready_remove rc (V4 1))) = [V4 3, V4 2]"
  using ready_channels_refine_map
    [of "\<lparr>channels = [(V4 1, 10), (V4 2, 20), (V4 3, 30 :: int)], index = 0\<rparr>" "V4 1" undefined "[]"]
  by (simp add: ready_remove_def swap_remove_def)

end
