(* ===== verification/Backoff.thy ===== *)
theory Backoff
  imports Net_Types
begin

text \<open>
  The back-off bookkeeping of \<open>soda-pool/src/broken_endpoints.rs\<close>: how long a broken
  address waits, and how the number of failures is kept in the last byte of the
  nanoseconds of the next test time.

  The clock type \<open>DateTime<Utc>\<close> is chrono's, so it is a parameter \<open>'t\<close> of the model
  whose order is the type class \<open>linorder\<close>, with the four chrono operations the code
  calls in a record.  \<open>chrono_laws\<close> states what the code relies on.  Every reading of
  \<open>Utc::now()\<close> is an argument.
\<close>

section \<open>The clock parameter\<close>

record 't chrono =
  nanosecond :: "'t \<Rightarrow> u32"
  with_nanosecond :: "'t \<Rightarrow> u32 \<Rightarrow> 't option"
  add_duration :: "'t \<Rightarrow> duration \<Rightarrow> 't option"
  signed_duration_since :: "'t \<Rightarrow> 't \<Rightarrow> int"

text \<open>
  A date-time outside a leap second: chrono represents a leap second by a nanosecond
  field of one billion or more.
\<close>

definition proper :: "'t chrono \<Rightarrow> 't \<Rightarrow> bool" where
  "proper C t \<longleftrightarrow> unat (nanosecond C t) < 1000000000"

text \<open>
  The documented behaviour of chrono outside leap seconds, in terms of the timestamp
  \<open>ts\<close> in nanoseconds: \<open>nanosecond\<close> is the fraction of the second, \<open>with_nanosecond\<close>
  replaces it and accepts every value below one billion, addition of a duration either
  leaves the representable range (and then panics, \<open>None\<close>) or moves the timestamp, and
  order and difference are those of the timestamps.
\<close>

definition chrono_laws :: "('t :: linorder) chrono \<Rightarrow> ('t \<Rightarrow> int) \<Rightarrow> bool" where
  "chrono_laws C ts \<longleftrightarrow>
     (\<forall>t. proper C t \<longrightarrow> int (unat (nanosecond C t)) = ts t mod 1000000000) \<and>
     (\<forall>t n. proper C t \<longrightarrow> unat n < 1000000000 \<longrightarrow>
        (\<exists>t'. with_nanosecond C t n = Some t' \<and> nanosecond C t' = n \<and>
              ts t' = ts t - ts t mod 1000000000 + int (unat n))) \<and>
     (\<forall>t d t'. proper C t \<longrightarrow> add_duration C t d = Some t' \<longrightarrow>
        proper C t' \<and> ts t' = ts t + int d) \<and>
     (\<forall>a b. proper C a \<longrightarrow> proper C b \<longrightarrow>
        (a \<le> b \<longleftrightarrow> ts a \<le> ts b) \<and> signed_duration_since C a b = ts a - ts b)"

lemma chrono_lawsD:
  assumes "chrono_laws C ts"
  shows chrono_nanosecond: "proper C t \<Longrightarrow> int (unat (nanosecond C t)) = ts t mod 1000000000"
    and chrono_with_nanosecond: "proper C t \<Longrightarrow> unat n < 1000000000 \<Longrightarrow>
      \<exists>t'. with_nanosecond C t n = Some t' \<and> nanosecond C t' = n \<and>
           ts t' = ts t - ts t mod 1000000000 + int (unat n)"
    and chrono_add: "proper C t \<Longrightarrow> add_duration C t d = Some t' \<Longrightarrow>
      proper C t' \<and> ts t' = ts t + int d"
    and chrono_le: "proper C a \<Longrightarrow> proper C b \<Longrightarrow> a \<le> b \<longleftrightarrow> ts a \<le> ts b"
    and chrono_since: "proper C a \<Longrightarrow> proper C b \<Longrightarrow> signed_duration_since C a b = ts a - ts b"
  using assms unfolding chrono_laws_def by blast+

lemma chrono_less:
  "chrono_laws C ts \<Longrightarrow> proper C a \<Longrightarrow> proper C b \<Longrightarrow> a < b \<longleftrightarrow> ts a < ts b"
  using chrono_le [of C ts a b] chrono_le [of C ts b a] by auto

text \<open>
  An instance of the parameter for concrete runs: integers counting nanoseconds.
\<close>

definition utc_nanos :: "int chrono" where
  "utc_nanos =
     \<lparr>nanosecond = (\<lambda>t. word_of_int (t mod 1000000000)),
      with_nanosecond = (\<lambda>t n. if unat n < 1000000000
                               then Some (t - t mod 1000000000 + int (unat n)) else None),
      add_duration = (\<lambda>t d. Some (t + int d)),
      signed_duration_since = (\<lambda>a b. a - b)\<rparr>"

lemma utc_nanos_nanosecond: "unat (nanosecond utc_nanos t) = nat (t mod 1000000000)"
proof -
  have "t mod 1000000000 < 2 ^ 32"
    using pos_mod_bound [of 1000000000 t] by simp
  then have "uint (nanosecond utc_nanos t) = t mod 1000000000"
    by (simp add: utc_nanos_def uint_word_of_int_eq take_bit_int_eq_self_iff)
  then show ?thesis
    by (metis nat_uint_eq)
qed

lemma proper_utc_nanos [simp]: "proper utc_nanos t"
  by (simp add: proper_def utc_nanos_nanosecond)

lemma utc_nanos_laws: "chrono_laws utc_nanos (\<lambda>t. t)"
proof -
  have "\<exists>t'. with_nanosecond utc_nanos t n = Some t' \<and> nanosecond utc_nanos t' = n \<and>
           t' = t - t mod 1000000000 + int (unat n)" if "unat n < 1000000000" for t n
  proof -
    let ?t = "t - t mod 1000000000 + int (unat n)"
    have "?t = int (unat n) + 1000000000 * (t div 1000000000)"
      by (simp add: minus_mod_eq_mult_div)
    then have "?t mod 1000000000 = int (unat n) mod 1000000000"
      by (metis mod_mult_self2)
    also have "\<dots> = int (unat n)" using that by (metis mod_less of_nat_numeral zmod_int)
    finally have "unat (nanosecond utc_nanos ?t) = unat n"
      by (simp only: utc_nanos_nanosecond nat_int)
    then have "nanosecond utc_nanos ?t = n" by (simp only: word_unat_eq_iff)
    then show ?thesis using that by (simp add: utc_nanos_def)
  qed
  then show ?thesis
    by (auto simp: chrono_laws_def utc_nanos_nanosecond) (simp_all add: utc_nanos_def)
qed

section \<open>Back-off durations\<close>

definition calculate_backoff :: "u8 \<Rightarrow> duration" where
  "calculate_backoff failed_times =
     (let failed_times = min (u8_saturating_sub failed_times 1) 6
      in duration_from_secs (2 ^ unat failed_times))"

lemma unat_min_word: "unat (min a b) = min (unat a) (unat b)"
  by (simp add: min_def word_le_nat_alt)

text \<open>The closed form: one second for the first failure, doubling up to 64 seconds.\<close>

lemma calculate_backoff_eq:
  "calculate_backoff n = 2 ^ min (unat n - 1) 6 * 1000000000"
proof -
  let ?k = "min (unat n - 1) 6"
  have "?k \<in> {0, 1, 2, 3, 4, 5, 6}" by auto
  then have "unat ((2::u64) ^ ?k) = 2 ^ ?k"
    by (elim insertE) simp_all
  then show ?thesis
    by (simp add: calculate_backoff_def duration_from_secs_def unat_min_word)
qed

lemma calculate_backoff_mono:
  "unat m \<le> unat n \<Longrightarrow> calculate_backoff m \<le> calculate_backoff n"
  by (simp add: calculate_backoff_eq)

section \<open>The failure count inside the time stamp\<close>

definition retires_nanos :: "u32 \<Rightarrow> u8 \<Rightarrow> u32" where
  "retires_nanos nanos failed_times =
     (nanos AND 0xFFFFFF00) OR ucast (min failed_times 0xFF)"

definition set_retires :: "'t chrono \<Rightarrow> 't \<Rightarrow> u8 \<Rightarrow> 't may_panic" where
  "set_retires C timestamp failed_times =
     expect ''couldn't failed to set nanos''
       (with_nanosecond C timestamp (retires_nanos (nanosecond C timestamp) failed_times))"

definition get_retires :: "'t chrono \<Rightarrow> 't \<Rightarrow> u8" where
  "get_retires C timestamp = ucast (nanosecond C timestamp AND 0xFF)"

text \<open>
  Masking keeps the upper three bytes, and the count replaces the lowest one.
\<close>

lemma and_high_bytes: "(x::u32) AND 0xFFFFFF00 = push_bit 8 (drop_bit 8 x)"
proof -
  have "(0xFFFFFF00::u32) = NOT (mask 8)" by (simp add: mask_eq_exp_minus_1)
  then show ?thesis
    by (auto simp: bit_eq_iff bit_simps)
qed

lemma unat_high_bytes: "unat (push_bit 8 (drop_bit 8 (x::u32))) = unat x div 256 * 256"
proof -
  define u where "u = unat x"
  have t: "take_bit LENGTH(32) (unat x) = unat x"
    by (rule take_bit_nat_eq_self) (rule unsigned_less)
  have "u div 2 ^ 8 * 2 ^ 8 < 2 ^ LENGTH(32)"
    using unsigned_less [of x, where 'a = nat] by (simp add: u_def)
  then have "take_bit LENGTH(32) (u div 2 ^ 8 * 2 ^ 8) = u div 2 ^ 8 * 2 ^ 8"
    by (rule take_bit_nat_eq_self)
  then have "unat (push_bit 8 (drop_bit 8 x)) = u div 2 ^ 8 * 2 ^ 8"
    by (simp only: unsigned_push_bit_eq unsigned_drop_bit_eq)
       (simp only: push_bit_eq_mult drop_bit_eq_div u_def t)
  then show ?thesis by (simp only: u_def) simp
qed

lemma unat_retires_nanos: "unat (retires_nanos x n) = unat x div 256 * 256 + unat n"
proof -
  have m: "min n (0xFF :: u8) = n"
    using u8_le_255 [of n] by (simp add: min_def word_le_nat_alt)
  have disj: "push_bit 8 (drop_bit 8 x) AND (ucast n :: u32) = 0"
    by (auto simp: bit_eq_iff bit_simps dest: bit_imp_le_length)
  have "retires_nanos x n = push_bit 8 (drop_bit 8 x) + ucast n"
    unfolding retires_nanos_def m and_high_bytes by (simp add: disjunctive_add_eq_or [OF disj])
  moreover have "unat x div 256 \<le> 16777215"
    using unsigned_less [of x, where 'a = nat] by simp
  then have "unat x div 256 * 256 + unat n < 2 ^ 32"
    using u8_le_255 [of n] by simp
  ultimately show ?thesis
    using u8_le_255 [of n]
    by (simp only: unat_word_ariths unat_high_bytes unsigned_ucast_eq) (simp add: take_bit_nat_eq_self)
qed

lemma get_retires_eq: "unat (get_retires C t) = unat (nanosecond C t) mod 256"
proof -
  have "(0xFF :: u32) = mask 8" by (simp add: mask_eq_exp_minus_1)
  then have "get_retires C t = ucast (nanosecond C t)"
    by (auto simp: get_retires_def bit_eq_iff bit_simps)
  then show ?thesis
    by (simp add: unsigned_ucast_eq take_bit_eq_mod)
qed

text \<open>
  The argument of the comment in \<open>set_retires\<close>: the largest nanosecond value of chrono,
  1\_999\_999\_999, and the largest one outside a leap second, 999\_999\_999, both end in a
  byte of ones, so overwriting that byte never leaves the respective range.
\<close>

lemma retires_nanos_bound:
  assumes "unat x < k * 256"
  shows "unat (retires_nanos x n) < k * 256"
proof -
  have "unat x div 256 < k" using assms by (rule less_mult_imp_div_less)
  then have "(unat x div 256 + 1) * 256 \<le> k * 256" by (intro mult_le_mono1) simp
  then show ?thesis
    using u8_le_255 [of n] by (simp only: unat_retires_nanos distrib_right)
qed

lemma retires_nanos_in_range:
  "unat x < 2000000000 \<Longrightarrow> unat (retires_nanos x n) < 2000000000"
  "unat x < 1000000000 \<Longrightarrow> unat (retires_nanos x n) < 1000000000"
  using retires_nanos_bound [of x 7812500 n] retires_nanos_bound [of x 3906250 n] by simp_all

lemma unat_retires_nanos_mod [simp]: "unat (retires_nanos x n) mod 256 = unat n"
  using u8_le_255 [of n] by (simp only: unat_retires_nanos) simp

lemma set_retires_spec:
  assumes laws: "chrono_laws C ts" and t: "proper C t"
  obtains t' where "set_retires C t n = Inr t'" "proper C t'" "get_retires C t' = n"
    "ts t' = ts t - int (unat (nanosecond C t) mod 256) + int (unat n)"
proof -
  let ?n = "retires_nanos (nanosecond C t) n"
  have lt: "unat ?n < 1000000000"
    using t retires_nanos_in_range(2) by (auto simp: proper_def)
  from chrono_with_nanosecond [OF laws t lt] obtain t' where
    t': "with_nanosecond C t ?n = Some t'" "nanosecond C t' = ?n"
      "ts t' = ts t - ts t mod 1000000000 + int (unat ?n)" by blast
  have "get_retires C t' = n"
    by (simp add: word_unat_eq_iff get_retires_eq t'(2))
  moreover have "proper C t'" using lt t'(2) by (simp add: proper_def)
  moreover have "ts t' = ts t - int (unat (nanosecond C t) mod 256) + int (unat n)"
    unfolding t'(3) unat_retires_nanos chrono_nanosecond [OF laws t, symmetric]
    by (simp add: minus_mod_eq_div_mult [symmetric] of_nat_diff)
  ultimately show thesis
    using that [of t'] t'(1) by (simp add: set_retires_def)
qed

section \<open>Trackers\<close>

datatype 't backoff_tracker = BackoffTracker (next_test_time: 't)

instantiation backoff_tracker :: (linorder) linorder
begin

definition less_eq_backoff_tracker :: "'a backoff_tracker \<Rightarrow> 'a backoff_tracker \<Rightarrow> bool" where
  "less_eq_backoff_tracker a b = (next_test_time a \<le> next_test_time b)"

definition less_backoff_tracker :: "'a backoff_tracker \<Rightarrow> 'a backoff_tracker \<Rightarrow> bool" where
  "less_backoff_tracker a b = (next_test_time a < next_test_time b)"

instance
  by standard
    (auto simp: less_eq_backoff_tracker_def less_backoff_tracker_def intro: backoff_tracker.expand)

end

text \<open>
  \<open>from_failed_times\<close> reads the clock once (\<open>now\<close>), adds the back-off, which panics when
  the sum leaves chrono's range, and stores the count.
\<close>

definition from_failed_times ::
  "'t chrono \<Rightarrow> 't \<Rightarrow> u8 \<Rightarrow> 't backoff_tracker may_panic" where
  "from_failed_times C now failed_times =
     bind_res (expect ''DateTime + Duration overflowed''
                 (add_duration C now (calculate_backoff failed_times)))
       (\<lambda>timestamp. map_ok BackoffTracker (set_retires C timestamp failed_times))"

definition tracker_failed_times :: "'t chrono \<Rightarrow> 't backoff_tracker \<Rightarrow> u8" where
  "tracker_failed_times C tracker = get_retires C (next_test_time tracker)"

text \<open>A clock value from which every back-off can still be added.\<close>

definition backoff_fits :: "'t chrono \<Rightarrow> 't \<Rightarrow> bool" where
  "backoff_fits C now \<longleftrightarrow> proper C now \<and> (\<forall>n. add_duration C now (calculate_backoff n) \<noteq> None)"

lemma backoff_fits_utc_nanos [simp]: "backoff_fits utc_nanos t"
  by (simp add: backoff_fits_def) (simp add: utc_nanos_def)

lemma from_failed_times_spec:
  assumes laws: "chrono_laws C ts" and now: "backoff_fits C now"
  obtains tr where "from_failed_times C now n = Inr tr" "proper C (next_test_time tr)"
    "tracker_failed_times C tr = n"
    "\<bar>ts (next_test_time tr) - (ts now + int (calculate_backoff n))\<bar> \<le> 255"
proof -
  from now obtain t1 where t1: "add_duration C now (calculate_backoff n) = Some t1"
    by (auto simp: backoff_fits_def)
  from now chrono_add [OF laws _ t1] have p1: "proper C t1"
    and ts1: "ts t1 = ts now + int (calculate_backoff n)" by (auto simp: backoff_fits_def)
  obtain t2 where t2: "set_retires C t1 n = Inr t2" "proper C t2" "get_retires C t2 = n"
    "ts t2 = ts t1 - int (unat (nanosecond C t1) mod 256) + int (unat n)"
    by (rule set_retires_spec [OF laws p1, where n = n])
  have "\<bar>ts t2 - ts t1\<bar> \<le> 255"
  proof -
    have "unat (nanosecond C t1) mod 256 \<le> 255"
      using mod_less_divisor [of 256 "unat (nanosecond C t1)"] by simp
    then show ?thesis
      using t2(4) u8_le_255 [of n] unfolding abs_le_iff by linarith
  qed
  with t1 ts1 t2 show thesis
    by (intro that [of "BackoffTracker t2"])
       (simp_all add: from_failed_times_def tracker_failed_times_def)
qed

section \<open>Properties\<close>

text \<open>
  C28: the delay before the next test is one second for the first failure (and for a count
  of zero), doubles with every further one and stays at 64 seconds from the seventh on; it
  never decreases with the count.
\<close>

theorem backoff_schedule:
  "calculate_backoff n = (if unat n \<le> 1 then 1 else if unat n \<le> 7 then 2 ^ (unat n - 1) else 64)
      * 1000000000 \<and>
   (\<forall>m. unat m \<le> unat n \<longrightarrow> calculate_backoff m \<le> calculate_backoff n)"
proof
  have "unat n = 0 \<or> unat n = 1 \<or> unat n = 2 \<or> unat n = 3 \<or> unat n = 4 \<or> unat n = 5 \<or>
      unat n = 6 \<or> unat n = 7 \<or> unat n > 7" by arith
  then show "calculate_backoff n = (if unat n \<le> 1 then 1
      else if unat n \<le> 7 then 2 ^ (unat n - 1) else 64) * 1000000000"
    by (elim disjE) (simp_all add: calculate_backoff_eq min_def)
qed (simp add: calculate_backoff_mono)

theorem backoff_schedule_witness: "calculate_backoff 3 \<le> calculate_backoff 200"
  by (rule backoff_schedule [of 200, THEN conjunct2, rule_format]) simp

text \<open>
  C29: storing a failure count in a time stamp never panics, can be read back exactly, keeps
  the time stamp out of the leap seconds and moves it by at most 255 nanoseconds.
\<close>

theorem retires_roundtrip:
  assumes "chrono_laws C ts" "proper C t"
  shows "\<exists>t'. set_retires C t n = Inr t' \<and> get_retires C t' = n \<and> proper C t' \<and>
    \<bar>ts t' - ts t\<bar> \<le> 255"
proof (rule set_retires_spec [OF assms, of n])
  fix t'
  assume t': "set_retires C t n = Inr t'" "proper C t'" "get_retires C t' = n"
    "ts t' = ts t - int (unat (nanosecond C t) mod 256) + int (unat n)"
  have "unat (nanosecond C t) mod 256 \<le> 255"
    using mod_less_divisor [of 256 "unat (nanosecond C t)"] by simp
  with t'(4) u8_le_255 [of n] have "\<bar>ts t' - ts t\<bar> \<le> 255"
    unfolding abs_le_iff by linarith
  with t' show ?thesis by blast
qed

theorem retires_roundtrip_witness:
  "\<exists>t'. set_retires utc_nanos 1700000000999999999 200 = Inr t' \<and> get_retires utc_nanos t' = 200 \<and>
    proper utc_nanos t' \<and> \<bar>t' - 1700000000999999999\<bar> \<le> 255"
  by (rule retires_roundtrip [OF utc_nanos_laws]) simp

end
