(* ===== verification/Broken_Endpoints.thy ===== *)
theory Broken_Endpoints
  imports Address_Store Backoff
begin

text \<open>
  The collection of \<open>soda-pool/src/broken_endpoints.rs\<close>: a binary heap of addresses with
  their next test time behind a mutex, and a notifier that wakes the task that retests
  them.  Each method holds the mutex for its whole body, so it is a function of the state;
  \<open>next_broken_ip_address\<close> releases it while it waits, so its body is one pass per wake-up.
\<close>

section \<open>Delayed addresses and the heap\<close>

datatype 't delayed_address =
  DelayedAddress (da_tracker: "'t backoff_tracker") (da_address: ip_addr)

text \<open>The derived order compares the trackers first, then the addresses.\<close>

instantiation delayed_address :: (linorder) linorder
begin

definition less_eq_delayed_address :: "'a delayed_address \<Rightarrow> 'a delayed_address \<Rightarrow> bool" where
  "less_eq_delayed_address a b =
     (da_tracker a < da_tracker b \<or> da_tracker a = da_tracker b \<and> da_address a \<le> da_address b)"

definition less_delayed_address :: "'a delayed_address \<Rightarrow> 'a delayed_address \<Rightarrow> bool" where
  "less_delayed_address a b = (a \<le> b \<and> \<not> b \<le> a)"

instance
  by standard
    (auto simp: less_eq_delayed_address_def less_delayed_address_def intro: delayed_address.expand)

end

abbreviation da_time :: "'t delayed_address \<Rightarrow> 't" where
  "da_time d \<equiv> next_test_time (da_tracker d)"

lemma da_time_mono: "d \<le> e \<Longrightarrow> da_time d \<le> da_time e"
  by (auto simp: less_eq_delayed_address_def less_backoff_tracker_def)

definition delayed_failed_times :: "'t chrono \<Rightarrow> 't delayed_address \<Rightarrow> u8" where
  "delayed_failed_times C d = tracker_failed_times C (da_tracker d)"

definition delayed_from_ip :: "'t chrono \<Rightarrow> 't \<Rightarrow> ip_addr \<Rightarrow> 't delayed_address may_panic" where
  "delayed_from_ip C now ip_address =
     map_ok (\<lambda>tr. DelayedAddress tr ip_address) (from_failed_times C now 1)"

text \<open>
  \<open>std::collections::BinaryHeap\<close> is a max-heap: \<open>peek\<close> and \<open>pop\<close> yield the greatest
  element.  The order in which \<open>iter\<close> and \<open>retain\<close> visit the elements is unspecified; the
  list holds them in some order, and what is proved does not depend on which.
\<close>

definition heap_peek :: "'a::linorder list \<Rightarrow> 'a option" where
  "heap_peek h = (if h = [] then None else Some (Max (set h)))"

definition heap_pop :: "'a::linorder list \<Rightarrow> ('a \<times> 'a list) option" where
  "heap_pop h = (if h = [] then None else Some (Max (set h), remove1 (Max (set h)) h))"

definition heap_push :: "'a list \<Rightarrow> 'a \<Rightarrow> 'a list" where
  "heap_push h x = h @ [x]"

lemma heap_peek_SomeD: "heap_peek h = Some d \<Longrightarrow> d \<in> set h \<and> (\<forall>e \<in> set h. e \<le> d)"
  by (auto simp: heap_peek_def split: if_splits)

lemma heap_peek_None [simp]: "heap_peek h = None \<longleftrightarrow> h = []"
  by (simp add: heap_peek_def)

lemma heap_pop_eq: "heap_pop h = map_option (\<lambda>d. (d, remove1 d h)) (heap_peek h)"
  by (simp add: heap_pop_def heap_peek_def)

section \<open>State and operations\<close>

text \<open>
  \<open>permit\<close> is the single permit tokio's \<open>Notify\<close> stores when \<open>notify_one\<close> finds nobody
  waiting.
\<close>

record 't broken_endpoints =
  addresses :: "'t delayed_address list"
  permit :: bool

definition broken_default :: "'t broken_endpoints" where
  "broken_default = \<lparr>addresses = [], permit = False\<rparr>"

definition broken_replace_with ::
  "'t broken_endpoints \<Rightarrow> 't delayed_address list \<Rightarrow> 't broken_endpoints" where
  "broken_replace_with be new =
     (let be' = be\<lparr>addresses := new\<rparr>
      in if new \<noteq> [] then be'\<lparr>permit := True\<rparr> else be')"

definition broken_get_address ::
  "'t broken_endpoints \<Rightarrow> ip_addr \<Rightarrow> 't delayed_address option" where
  "broken_get_address be address = List.find (\<lambda>d. da_address d = address) (addresses be)"

text \<open>The critical section of \<open>add_address_with_current_fail_count\<close>.\<close>

definition broken_insert :: "'t broken_endpoints \<Rightarrow> 't delayed_address \<Rightarrow> 't broken_endpoints" where
  "broken_insert be d =
     be\<lparr>addresses := heap_push (filter (\<lambda>e. da_address e \<noteq> da_address d) (addresses be)) d,
        permit := True\<rparr>"

definition add_address_with_current_fail_count ::
  "'t chrono \<Rightarrow> 't \<Rightarrow> 't broken_endpoints \<Rightarrow> ip_addr \<Rightarrow> u8 \<Rightarrow> 't broken_endpoints may_panic" where
  "add_address_with_current_fail_count C now be address current_fail_count =
     map_ok (\<lambda>next_test_time. broken_insert be (DelayedAddress next_test_time address))
       (from_failed_times C now current_fail_count)"

definition add_address ::
  "'t chrono \<Rightarrow> 't \<Rightarrow> 't broken_endpoints \<Rightarrow> ip_addr \<Rightarrow> 't broken_endpoints may_panic" where
  "add_address C now be address = add_address_with_current_fail_count C now be address 1"

definition re_add_address ::
  "bool \<Rightarrow> 't chrono \<Rightarrow> 't \<Rightarrow> 't broken_endpoints \<Rightarrow> 't delayed_address
     \<Rightarrow> 't broken_endpoints may_panic" where
  "re_add_address overflow_checks C now be address =
     bind_res (u8_add overflow_checks (delayed_failed_times C address) 1)
       (add_address_with_current_fail_count C now be (da_address address))"

text \<open>
  One pass of the loop of \<open>next_broken_ip_address\<close>: it returns an entry, or it waits for
  the given time or a notification, or it waits for a notification alone.
\<close>

datatype 't pass = Return "'t delayed_address" | SleepOrNotified duration | Notified

definition next_broken_pass ::
  "'t chrono \<Rightarrow> 't \<Rightarrow> ('t::linorder) broken_endpoints \<Rightarrow> ('t pass \<times> 't broken_endpoints) may_panic"
where
  "next_broken_pass C now be =
     (case heap_peek (addresses be) of
        Some d \<Rightarrow>
          if now < da_time d then
            (let remaining = signed_duration_since C (da_time d) now
             in bind_res (expect ''behind an if check, so cannot fail''
                            (if remaining < 0 then None else Some (nat remaining)))
                  (\<lambda>durr. Inr (SleepOrNotified durr, be)))
          else
            bind_res (expect ''peeked an element while holding the same mutex guard, so pop cannot fail''
                        (heap_pop (addresses be)))
              (\<lambda>(entry, rest). Inr (Return entry, be\<lparr>addresses := rest\<rparr>))
      | None \<Rightarrow> Inr (Notified, be))"

text \<open>
  The loop: \<open>now i\<close> is the clock read in pass \<open>i\<close>, and \<open>wake i\<close> turns the state in which
  wait \<open>i\<close> started into the one in which it ends (the permit it consumes and whatever the
  other tasks did meanwhile).  \<open>None\<close> means that it is still waiting after \<open>fuel\<close> passes.
\<close>

fun next_broken_ip_address ::
  "'t chrono \<Rightarrow> (nat \<Rightarrow> 't) \<Rightarrow> (nat \<Rightarrow> 't broken_endpoints \<Rightarrow> 't broken_endpoints) \<Rightarrow> nat \<Rightarrow> nat
     \<Rightarrow> ('t::linorder) broken_endpoints \<Rightarrow> ('t delayed_address \<times> 't broken_endpoints) may_panic option"
where
  "next_broken_ip_address C now wake 0 i be = None"
| "next_broken_ip_address C now wake (Suc fuel) i be =
     (case next_broken_pass C (now i) be of
        Inl p \<Rightarrow> Some (Inl p)
      | Inr (Return entry, be') \<Rightarrow> Some (Inr (entry, be'))
      | Inr (_, be') \<Rightarrow> next_broken_ip_address C now wake fuel (Suc i) (wake i be'))"

section \<open>The contract\<close>

abbreviation broken_entries :: "'t broken_endpoints \<Rightarrow> 't delayed_address multiset" where
  "broken_entries be \<equiv> mset (addresses be)"

lemma broken_replace_with_addresses [simp]: "addresses (broken_replace_with be new) = new"
  by (simp add: broken_replace_with_def Let_def)

lemma broken_insert_addresses [simp]:
  "addresses (broken_insert be d) = filter (\<lambda>e. da_address e \<noteq> da_address d) (addresses be) @ [d]"
  by (simp add: broken_insert_def heap_push_def)

interpretation be: address_store broken_entries da_address broken_get_address broken_replace_with
  by unfold_locales (auto simp: broken_get_address_def find_Some_iff find_None_iff)

interpretation be: upserting_store broken_entries da_address broken_get_address broken_replace_with
  broken_insert
  by unfold_locales (simp add: mset_filter)

text \<open>
  The invariant of the collection: at most one entry per address, and no test time inside
  a leap second.
\<close>

definition broken_wf :: "'t chrono \<Rightarrow> 't broken_endpoints \<Rightarrow> bool" where
  "broken_wf C be \<longleftrightarrow> distinct (map da_address (addresses be)) \<and>
     list_all (\<lambda>d. proper C (da_time d)) (addresses be)"

lemma broken_wf_unique: "broken_wf C be \<Longrightarrow> unique_keys da_address (broken_entries be)"
  by (simp add: broken_wf_def)

lemma broken_wf_default [simp]: "broken_wf C broken_default"
  by (simp add: broken_wf_def broken_default_def)

lemma broken_wf_insert:
  assumes "broken_wf C be" "proper C (da_time d)"
  shows "broken_wf C (broken_insert be d)"
  using be.unique_upsert [OF broken_wf_unique [OF assms(1)], of d] assms
  unfolding broken_wf_def unique_keys_mset by (auto simp: list_all_iff)

lemma delayed_from_ip_spec:
  assumes "chrono_laws C ts" "backoff_fits C now"
  obtains d where "delayed_from_ip C now a = Inr d" "da_address d = a" "proper C (da_time d)"
    "delayed_failed_times C d = 1"
    "\<bar>ts (da_time d) - (ts now + int (calculate_backoff 1))\<bar> \<le> 255"
  by (rule from_failed_times_spec [OF assms, of 1])
     (rule that, auto simp: delayed_from_ip_def delayed_failed_times_def)

lemma add_fail_count_spec:
  assumes laws: "chrono_laws C ts" and now: "backoff_fits C now"
  obtains d where
    "add_address_with_current_fail_count C now be a n = Inr (broken_insert be d)"
    "da_address d = a" "proper C (da_time d)" "delayed_failed_times C d = n"
    "\<bar>ts (da_time d) - (ts now + int (calculate_backoff n))\<bar> \<le> 255"
  by (rule from_failed_times_spec [OF laws now, of n])
     (rule that, auto simp: add_address_with_current_fail_count_def delayed_failed_times_def)

lemma re_add_address_eq:
  assumes "unat (delayed_failed_times C d) < 255 \<or> \<not> checks"
  shows "re_add_address checks C now be d =
    add_address_with_current_fail_count C now be (da_address d) (delayed_failed_times C d + 1)"
  using assms by (auto simp: re_add_address_def u8_add_def)

section \<open>Passes of the retest loop\<close>

lemma next_broken_pass_cases:
  assumes laws: "chrono_laws C ts" and wf: "broken_wf C be" and now: "proper C now"
  obtains (empty) "addresses be = []" "next_broken_pass C now be = Inr (Notified, be)"
  | (sleep) d where "heap_peek (addresses be) = Some d" "now < da_time d"
      "next_broken_pass C now be = Inr (SleepOrNotified (nat (ts (da_time d) - ts now)), be)"
  | (return) d where "heap_peek (addresses be) = Some d" "da_time d \<le> now"
      "next_broken_pass C now be = Inr (Return d, be\<lparr>addresses := remove1 d (addresses be)\<rparr>)"
proof (cases "heap_peek (addresses be)")
  case None
  then have "addresses be = []" by simp
  with None show ?thesis by (intro empty) (simp_all only: next_broken_pass_def option.case)
next
  case (Some d)
  from heap_peek_SomeD [OF Some] wf have pd: "proper C (da_time d)"
    by (auto simp: broken_wf_def list_all_iff)
  show ?thesis
  proof (cases "now < da_time d")
    case True
    then have "ts now < ts (da_time d)" using chrono_less [OF laws now pd] by simp
    with True Some show ?thesis
      by (intro sleep) (simp_all add: next_broken_pass_def chrono_since [OF laws pd now])
  next
    case False
    with Some show ?thesis
      by (intro return) (simp_all add: next_broken_pass_def heap_pop_eq)
  qed
qed

lemma broken_get_insert:
  assumes "broken_wf C be"
  shows "broken_get_address (broken_insert be d) = (broken_get_address be)(da_address d \<mapsto> d)"
  using be.lookup_upsert [OF broken_wf_unique [OF assms], of d] by auto

lemma add_fail_count_schedules:
  assumes "chrono_laws C ts" "backoff_fits C now" "broken_wf C be"
  shows "\<exists>be' d. add_address_with_current_fail_count C now be a n = Inr be' \<and> broken_wf C be' \<and>
      broken_get_address be' = (broken_get_address be)(a \<mapsto> d) \<and>
      delayed_failed_times C d = n \<and>
      \<bar>ts (da_time d) - (ts now + int (calculate_backoff n))\<bar> \<le> 255"
  using assms(3)
  by (rule_tac add_fail_count_spec [OF assms(1,2), of be a n])
     (metis broken_wf_insert broken_get_insert)

section \<open>Properties\<close>

text \<open>
  After \<open>add_address\<close> the address has exactly one entry, with failure count one and due
  one second (within 255 nanoseconds) after the clock reading; every other address is
  looked up as before, and the invariant is kept.
\<close>

lemma add_address_schedules:
  assumes "chrono_laws C ts" "backoff_fits C now" "broken_wf C be"
  shows "\<exists>be' d. add_address C now be a = Inr be' \<and> broken_wf C be' \<and>
      broken_get_address be' = (broken_get_address be)(a \<mapsto> d) \<and>
      delayed_failed_times C d = 1 \<and> \<bar>ts (da_time d) - (ts now + 1000000000)\<bar> \<le> 255"
  using add_fail_count_schedules [OF assms, of a 1]
  by (simp add: add_address_def calculate_backoff_eq)

text \<open>
  C27: \<open>re_add_address\<close> of an address that failed fewer than 255 times stores one failure
  more and schedules the next test after the doubled back-off, capped at 64 seconds,
  whatever the build profile.
\<close>

theorem re_add_address_backs_off:
  assumes "chrono_laws C ts" "backoff_fits C now" "broken_wf C be"
    and "unat (delayed_failed_times C old) < 255"
  shows "\<exists>be' d. re_add_address checks C now be old = Inr be' \<and> broken_wf C be' \<and>
      broken_get_address be' = (broken_get_address be)(da_address old \<mapsto> d) \<and>
      unat (delayed_failed_times C d) = unat (delayed_failed_times C old) + 1 \<and>
      \<bar>ts (da_time d) -
        (ts now + 2 ^ min (unat (delayed_failed_times C old)) 6 * 1000000000)\<bar> \<le> 255"
proof -
  let ?n = "delayed_failed_times C old"
  have n: "unat (?n + 1) = unat ?n + 1"
    using assms(4) by (subst unat_u8_add) simp_all
  from add_fail_count_schedules [OF assms(1-3), of "da_address old" "?n + 1"]
  obtain be' d where "add_address_with_current_fail_count C now be (da_address old) (?n + 1) = Inr be'"
    "broken_wf C be'" "broken_get_address be' = (broken_get_address be)(da_address old \<mapsto> d)"
    "delayed_failed_times C d = ?n + 1"
    "\<bar>ts (da_time d) - (ts now + int (calculate_backoff (?n + 1)))\<bar> \<le> 255" by blast
  with assms(4) n show ?thesis
    by (intro exI [of _ be'] exI [of _ d]) (simp add: re_add_address_eq calculate_backoff_eq)
qed

text \<open>An entry with a stored count, for concrete runs.\<close>

definition nanos_entry :: "int \<Rightarrow> ip_addr \<Rightarrow> int delayed_address" where
  "nanos_entry t a = DelayedAddress (BackoffTracker t) a"

lemma nanos_entry_simps [simp]:
  "da_time (nanos_entry t a) = t" "da_address (nanos_entry t a) = a"
  by (simp_all add: nanos_entry_def)

lemma nanos_entry_less [simp]:
  "nanos_entry s a \<le> nanos_entry t b \<longleftrightarrow> s < t \<or> s = t \<and> a \<le> b"
  "nanos_entry s a < nanos_entry t b \<longleftrightarrow> s < t \<or> s = t \<and> a < b"
  "nanos_entry s a = nanos_entry t b \<longleftrightarrow> s = t \<and> a = b"
  by (auto simp: nanos_entry_def less_eq_delayed_address_def less_delayed_address_def
      less_backoff_tracker_def)

lemma nanos_entry_failed_times:
  "unat (delayed_failed_times utc_nanos (nanos_entry t a)) = nat (t mod 1000000000) mod 256"
  by (simp add: delayed_failed_times_def tracker_failed_times_def get_retires_eq
      utc_nanos_nanosecond)

theorem re_add_address_backs_off_witness:
  "\<exists>be' d. re_add_address True utc_nanos 0 broken_default (nanos_entry 5 LOCALHOST_V4) = Inr be' \<and>
      broken_wf utc_nanos be' \<and>
      broken_get_address be' =
        (broken_get_address broken_default)(da_address (nanos_entry 5 LOCALHOST_V4) \<mapsto> d) \<and>
      unat (delayed_failed_times utc_nanos d) =
        unat (delayed_failed_times utc_nanos (nanos_entry 5 LOCALHOST_V4)) + 1 \<and>
      \<bar>da_time d -
        (0 + 2 ^ min (unat (delayed_failed_times utc_nanos (nanos_entry 5 LOCALHOST_V4))) 6
             * 1000000000)\<bar> \<le> 255"
  by (rule re_add_address_backs_off [OF utc_nanos_laws]) (simp_all add: nanos_entry_failed_times)

text \<open>
  At the 256th failure in a row the counter does not saturate: a build with overflow
  checks panics in \<open>re_add_address\<close>, which ends the task that retests broken addresses, and
  a release build starts over with count zero and a delay of one second.
\<close>

lemma re_add_address_overflows:
  assumes "chrono_laws C ts" "backoff_fits C now" "broken_wf C be"
    and "delayed_failed_times C old = 255"
  shows "re_add_address True C now be old = Inl AddOverflow \<and>
    (\<exists>be' d. re_add_address False C now be old = Inr be' \<and>
      broken_get_address be' (da_address old) = Some d \<and> delayed_failed_times C d = 0 \<and>
      \<bar>ts (da_time d) - (ts now + 1000000000)\<bar> \<le> 255)"
proof
  show "re_add_address True C now be old = Inl AddOverflow"
    using assms(4) by (simp add: re_add_address_def u8_add_def)
  show "\<exists>be' d. re_add_address False C now be old = Inr be' \<and>
      broken_get_address be' (da_address old) = Some d \<and> delayed_failed_times C d = 0 \<and>
      \<bar>ts (da_time d) - (ts now + 1000000000)\<bar> \<le> 255"
  proof -
    have "(255 :: u8) + 1 = 0" by simp
    then have "re_add_address False C now be old =
        add_address_with_current_fail_count C now be (da_address old) 0"
      by (simp only: re_add_address_eq assms(4) simp_thms)
    then show ?thesis
      using add_fail_count_schedules [OF assms(1-3), of "da_address old" 0]
      by (auto simp: calculate_backoff_eq)
  qed
qed

text \<open>
  When a pass of the retest loop returns an entry, it is the greatest one, so its test
  time is the latest of all, and every address of the collection is due; the entry leaves
  the collection and nothing else does.
\<close>

lemma next_broken_returns_latest:
  assumes "chrono_laws C ts" "broken_wf C be" "proper C now"
    and "next_broken_pass C now be = Inr (Return d, be')"
  shows "d \<in> set (addresses be) \<and> (\<forall>e \<in> set (addresses be). e \<le> d \<and> da_time e \<le> now) \<and>
    broken_entries be = add_mset d (broken_entries be')"
proof (cases rule: next_broken_pass_cases [OF assms(1-3), case_names empty sleep return])
  case (return x)
  with assms(4) have "heap_peek (addresses be) = Some d" "da_time d \<le> now"
    "be' = be\<lparr>addresses := remove1 d (addresses be)\<rparr>" by auto
  with heap_peek_SomeD [of "addresses be" d] show ?thesis
    by (auto dest: da_time_mono order_trans)
qed (use assms(4) in simp_all)

text \<open>
  As long as any address is not due, no address is returned, however long the others
  have been due: the loop sleeps until the latest test time in the collection.
\<close>

lemma due_address_waits_for_latest:
  assumes "chrono_laws C ts" "broken_wf C be" "proper C now"
    and "e \<in> set (addresses be)" "now < da_time e"
  shows "\<exists>d \<in> set (addresses be). (\<forall>x \<in> set (addresses be). da_time x \<le> da_time d) \<and>
    next_broken_pass C now be = Inr (SleepOrNotified (nat (ts (da_time d) - ts now)), be)"
proof (cases rule: next_broken_pass_cases [OF assms(1-3), case_names empty sleep return])
  case (return d)
  with heap_peek_SomeD [of "addresses be" d] assms(4,5) show ?thesis
    by (meson da_time_mono leD order_trans)
next
  case (sleep d)
  with heap_peek_SomeD [of "addresses be" d] show ?thesis
    by (auto dest: da_time_mono intro!: bexI [of _ d])
qed (use assms(4) in simp)

text \<open>
  The witness has an address that has been due for ten seconds and one due in 64 seconds:
  the loop sleeps for the 64 seconds.
\<close>

text \<open>
  With a non-empty collection that no other task changes, the loop returns after at
  most two passes once its sleep is over, and what it returns is the greatest entry.
\<close>

lemma next_broken_returns_in_two_passes:
  assumes "chrono_laws C ts" "broken_wf C be" "proper C (now 0)" "proper C (now 1)"
    and "addresses be \<noteq> []" "\<And>b. addresses (wake 0 b) = addresses b"
    and "da_time (Max (set (addresses be))) \<le> now 1"
  shows "\<exists>be'. next_broken_ip_address C now wake 2 0 be = Some (Inr (Max (set (addresses be)), be')) \<and>
    addresses be' = remove1 (Max (set (addresses be))) (addresses be)"
proof -
  have peek: "heap_peek (addresses b) = Some (Max (set (addresses be)))"
    if "addresses b = addresses be" for b
    using that assms(5) by (simp add: heap_peek_def)
  have wf: "broken_wf C (wake 0 be)" using assms(2,6) by (simp add: broken_wf_def)
  show ?thesis
  proof (cases rule: next_broken_pass_cases [OF assms(1-3), case_names empty sleep return])
    case (sleep d)
    then show ?thesis
      using peek [of be] peek [of "wake 0 be"] assms(5-7)
      by (cases rule: next_broken_pass_cases [OF assms(1) wf assms(4), case_names empty sleep return])
         (auto simp: numeral_2_eq_2 leD)
  qed (use assms(5) peek [of be] in \<open>auto simp: numeral_2_eq_2\<close>)
qed

end
