(* ===== verification/Dns.thy ===== *)
theory Dns
  imports Net_Types
begin

text \<open>
  \<open>soda-pool/src/dns.rs\<close>: name resolution.  The resolver of the standard library asks the
  operating system, so it is an argument; \<open>'ioe\<close> is \<open>std::io::Error\<close>.  With the mock
  feature the resolver is the function stored in the static \<open>DNS_RESULT\<close>.
\<close>

type_synonym 'ioe resolver = "string \<Rightarrow> 16 word \<Rightarrow> 'ioe + socket_addr list"

definition resolve_domain :: "'ioe resolver \<Rightarrow> string \<Rightarrow> 'ioe + ip_addr list" where
  "resolve_domain to_socket_addrs domain = map_ok (map sa_ip) (to_socket_addrs domain 0)"

record 'ioe dns_mock =
  dns_result :: "'ioe resolver"

definition mock_initial :: "'ioe dns_mock" where
  "mock_initial = \<lparr>dns_result = (\<lambda>_ _. Inr [])\<rparr>"

definition mock_to_socket_addrs :: "'ioe dns_mock \<Rightarrow> 'ioe resolver" where
  "mock_to_socket_addrs m host port = dns_result m host port"

definition set_socket_addrs :: "'ioe resolver \<Rightarrow> 'ioe dns_mock \<Rightarrow> 'ioe dns_mock" where
  "set_socket_addrs func m = m\<lparr>dns_result := func\<rparr>"

lemma resolve_mocked:
  "resolve_domain (mock_to_socket_addrs (set_socket_addrs func m)) domain =
     map_ok (map sa_ip) (func domain 0)"
  by (simp add: resolve_domain_def mock_to_socket_addrs_def set_socket_addrs_def)

lemma resolve_initial: "resolve_domain (mock_to_socket_addrs mock_initial) domain = Inr []"
  by (simp add: resolve_domain_def mock_to_socket_addrs_def mock_initial_def)

end
