(* ===== verification/Endpoint_Template.thy ===== *)
theory Endpoint_Template
  imports Net_Types
begin

text \<open>
  \<open>soda-pool/src/endpoint_template.rs\<close>, with the \<open>tls\<close> feature on: the template built from a
  URL with a host name, its setters, and the endpoint made from it for one IP address.

  The types \<open>Url\<close> (\<open>'u\<close>), \<open>Uri\<close> (\<open>'uri\<close>), \<open>HeaderValue\<close> (\<open>'hv\<close>), \<open>ClientTlsConfig\<close>
  (\<open>'tls\<close>) and \<open>Endpoint\<close> (\<open>'ep\<close>) are those of the crates url, http and tonic: parameters,
  with the operations the code calls on them in the records \<open>url_lib\<close> and
  \<open>endpoint_lib\<close>.
\<close>

section \<open>The parameters\<close>

datatype host = Domain string | Ipv4 u32 | Ipv6 u128

text \<open>\<open>set_ip_host\<close> changes the URL in place or fails (\<open>None\<close>).\<close>

record ('u, 'uri) url_lib =
  url_host :: "'u \<Rightarrow> host option"
  url_domain :: "'u \<Rightarrow> string option"
  url_cannot_be_a_base :: "'u \<Rightarrow> bool"
  url_set_ip_host :: "'u \<Rightarrow> ip_addr \<Rightarrow> 'u option"
  url_as_str :: "'u \<Rightarrow> string"
  uri_from_str :: "string \<Rightarrow> 'uri option"

text \<open>The builder methods of \<open>Endpoint\<close> that cannot fail, with their arguments.\<close>

datatype 'uri endpoint_call =
    Origin 'uri
  | Timeout duration
  | ConnectTimeout duration
  | TcpKeepalive "duration option"
  | TcpKeepaliveInterval "duration option"
  | TcpKeepaliveRetries "u32 option"
  | ConcurrencyLimit usize
  | RateLimit u64 duration
  | InitialStreamWindowSize u32
  | InitialConnectionWindowSize u32
  | BufferSize "usize option"
  | TcpNodelay bool
  | Http2KeepAliveInterval duration
  | KeepAliveTimeout duration
  | KeepAliveWhileIdle bool
  | Http2AdaptiveWindow bool
  | Http2MaxHeaderListSize u32
  | LocalAddress "ip_addr option"

text \<open>\<open>user_agent\<close> and \<open>tls_config\<close> return a \<open>Result\<close>; \<open>None\<close> is the error.\<close>

record ('uri, 'hv, 'tls, 'ep) endpoint_lib =
  ep_from_uri :: "'uri \<Rightarrow> 'ep"
  ep_set :: "'uri endpoint_call \<Rightarrow> 'ep \<Rightarrow> 'ep"
  ep_user_agent :: "'hv \<Rightarrow> 'ep \<Rightarrow> 'ep option"
  ep_tls_config :: "'tls \<Rightarrow> 'ep \<Rightarrow> 'ep option"

section \<open>Templates\<close>

datatype endpoint_template_error =
    NotAUrl
  | HostMissing
  | AlreadyIpAddress
  | Inconvertible
  | InvalidUserAgent
  | InvalidTlsConfig

record ('u, 'uri, 'hv, 'tls) endpoint_template =
  et_url :: 'u
  et_origin :: "'uri option"
  et_user_agent :: "'hv option"
  et_timeout :: "duration option"
  et_concurrency_limit :: "usize option"
  et_rate_limit :: "(u64 \<times> duration) option"
  et_tls_config :: "'tls option"
  et_buffer_size :: "usize option"
  et_init_stream_window_size :: "u32 option"
  et_init_connection_window_size :: "u32 option"
  et_tcp_keepalive :: "duration option"
  et_tcp_keepalive_interval :: "duration option"
  et_tcp_keepalive_retries :: "u32 option"
  et_tcp_nodelay :: "bool option"
  et_http2_keep_alive_interval :: "duration option"
  et_http2_keep_alive_timeout :: "duration option"
  et_http2_keep_alive_while_idle :: "bool option"
  et_http2_max_header_list_size :: "u32 option"
  et_connect_timeout :: "duration option"
  et_http2_adaptive_window :: "bool option"
  et_local_address :: "ip_addr option"

text \<open>
  \<open>new\<close> takes anything convertible to a URL; the argument is the result of that conversion.
\<close>

definition template_new ::
  "('u, 'uri) url_lib \<Rightarrow> 'e + 'u \<Rightarrow> endpoint_template_error + ('u, 'uri, 'hv, 'tls) endpoint_template" where
  "template_new L converted =
     bind_res (map_err (\<lambda>_. NotAUrl) converted) (\<lambda>url.
       case url_host L url of
         None \<Rightarrow> Inl HostMissing
       | Some host \<Rightarrow>
           (case host of
              Ipv4 _ \<Rightarrow> Inl AlreadyIpAddress
            | Ipv6 _ \<Rightarrow> Inl AlreadyIpAddress
            | Domain _ \<Rightarrow>
                if url_cannot_be_a_base L url then Inl Inconvertible
                else if uri_from_str L (url_as_str L url) = None then Inl Inconvertible
                else Inr \<lparr>et_url = url,
      et_origin = None,
      et_user_agent = None,
      et_timeout = None,
      et_concurrency_limit = None,
      et_rate_limit = None,
      et_tls_config = None,
      et_buffer_size = None,
      et_init_stream_window_size = None,
      et_init_connection_window_size = None,
      et_tcp_keepalive = None,
      et_tcp_keepalive_interval = None,
      et_tcp_keepalive_retries = None,
      et_tcp_nodelay = None,
      et_http2_keep_alive_interval = None,
      et_http2_keep_alive_timeout = None,
      et_http2_keep_alive_while_idle = None,
      et_http2_max_header_list_size = None,
      et_connect_timeout = None,
      et_http2_adaptive_window = None,
      et_local_address = None\<rparr>))"

definition template_try_from ::
  "('u, 'uri) url_lib \<Rightarrow> 'u \<Rightarrow> endpoint_template_error + ('u, 'uri, 'hv, 'tls) endpoint_template" where
  "template_try_from L url = template_new L (Inr url :: unit + 'u)"

definition template_domain :: "('u, 'uri) url_lib \<Rightarrow> ('u, 'uri, 'hv, 'tls) endpoint_template \<Rightarrow> string may_panic" where
  "template_domain L self =
     expect ''already checked in the constructor'' (url_domain L (et_url self))"

definition template_build_uri ::
  "('u, 'uri) url_lib \<Rightarrow> ('u, 'uri, 'hv, 'tls) endpoint_template \<Rightarrow> ip_addr \<Rightarrow> 'uri may_panic" where
  "template_build_uri L self ip_addr =
     bind_res (expect ''already checked in the constructor by trying cannot_be_a_base''
                 (url_set_ip_host L (et_url self) ip_addr))
       (\<lambda>url. expect ''starting from Url, this should always be a valid Uri''
                 (uri_from_str L (url_as_str L url)))"

text \<open>\<open>if let Some(x) = self.field\<close> followed by one infallible builder call.\<close>

definition set_if :: "('uri, 'hv, 'tls, 'ep) endpoint_lib \<Rightarrow> ('a \<Rightarrow> 'uri endpoint_call) \<Rightarrow> 'a option \<Rightarrow> 'ep \<Rightarrow> 'ep" where
  "set_if E call x ep = (case x of None \<Rightarrow> ep | Some v \<Rightarrow> ep_set E (call v) ep)"

text \<open>The same with a fallible call and its \<open>expect\<close>.\<close>

definition expect_if :: "('a \<Rightarrow> 'ep \<Rightarrow> 'ep option) \<Rightarrow> 'a option \<Rightarrow> 'ep \<Rightarrow> 'ep may_panic" where
  "expect_if call x ep =
     (case x of None \<Rightarrow> Inr ep | Some v \<Rightarrow> expect ''already checked in the setter'' (call v ep))"

definition template_build ::
  "('u, 'uri) url_lib \<Rightarrow> ('uri, 'hv, 'tls, 'ep) endpoint_lib \<Rightarrow> ('u, 'uri, 'hv, 'tls) endpoint_template \<Rightarrow> ip_addr \<Rightarrow> 'ep may_panic" where
  "template_build L E self ip_address =
     bind_res (template_build_uri L self ip_address) (\<lambda>uri.
     let endpoint = ep_from_uri E uri;
         endpoint = set_if E Origin (et_origin self) endpoint
     in bind_res (expect_if (ep_user_agent E) (et_user_agent self) endpoint) (\<lambda>endpoint.
     let endpoint = set_if E Timeout (et_timeout self) endpoint
     in bind_res (expect_if (ep_tls_config E) (et_tls_config self) endpoint) (\<lambda>endpoint.
     let endpoint = set_if E ConnectTimeout (et_connect_timeout self) endpoint;
         endpoint = ep_set E (TcpKeepalive (et_tcp_keepalive self)) endpoint;
         endpoint = ep_set E (TcpKeepaliveInterval (et_tcp_keepalive_interval self)) endpoint;
         endpoint = ep_set E (TcpKeepaliveRetries (et_tcp_keepalive_retries self)) endpoint;
         endpoint = set_if E ConcurrencyLimit (et_concurrency_limit self) endpoint;
         endpoint = set_if E (\<lambda>(limit, duration). RateLimit limit duration) (et_rate_limit self) endpoint;
         endpoint = set_if E InitialStreamWindowSize (et_init_stream_window_size self) endpoint;
         endpoint = set_if E InitialConnectionWindowSize (et_init_connection_window_size self) endpoint;
         endpoint = ep_set E (BufferSize (et_buffer_size self)) endpoint;
         endpoint = set_if E TcpNodelay (et_tcp_nodelay self) endpoint;
         endpoint = set_if E Http2KeepAliveInterval (et_http2_keep_alive_interval self) endpoint;
         endpoint = set_if E KeepAliveTimeout (et_http2_keep_alive_timeout self) endpoint;
         endpoint = set_if E KeepAliveWhileIdle (et_http2_keep_alive_while_idle self) endpoint;
         endpoint = set_if E Http2AdaptiveWindow (et_http2_adaptive_window self) endpoint;
         endpoint = set_if E Http2MaxHeaderListSize (et_http2_max_header_list_size self) endpoint;
         endpoint = ep_set E (LocalAddress (et_local_address self)) endpoint
     in Inr endpoint)))"

section \<open>Setters\<close>

definition template_origin :: "'uri \<Rightarrow> ('u, 'uri, 'hv, 'tls) endpoint_template \<Rightarrow> ('u, 'uri, 'hv, 'tls) endpoint_template" where
  "template_origin x self = self\<lparr>et_origin := Some x\<rparr>"

definition template_timeout :: "duration \<Rightarrow> ('u, 'uri, 'hv, 'tls) endpoint_template \<Rightarrow> ('u, 'uri, 'hv, 'tls) endpoint_template" where
  "template_timeout x self = self\<lparr>et_timeout := Some x\<rparr>"

definition template_connect_timeout :: "duration \<Rightarrow> ('u, 'uri, 'hv, 'tls) endpoint_template \<Rightarrow> ('u, 'uri, 'hv, 'tls) endpoint_template" where
  "template_connect_timeout x self = self\<lparr>et_connect_timeout := Some x\<rparr>"

definition template_tcp_keepalive :: "duration option \<Rightarrow> ('u, 'uri, 'hv, 'tls) endpoint_template \<Rightarrow> ('u, 'uri, 'hv, 'tls) endpoint_template" where
  "template_tcp_keepalive x self = self\<lparr>et_tcp_keepalive := x\<rparr>"

definition template_tcp_keepalive_interval :: "duration \<Rightarrow> ('u, 'uri, 'hv, 'tls) endpoint_template \<Rightarrow> ('u, 'uri, 'hv, 'tls) endpoint_template" where
  "template_tcp_keepalive_interval x self = self\<lparr>et_tcp_keepalive_interval := Some x\<rparr>"

definition template_tcp_keepalive_retries :: "u32 \<Rightarrow> ('u, 'uri, 'hv, 'tls) endpoint_template \<Rightarrow> ('u, 'uri, 'hv, 'tls) endpoint_template" where
  "template_tcp_keepalive_retries x self = self\<lparr>et_tcp_keepalive_retries := Some x\<rparr>"

definition template_concurrency_limit :: "usize \<Rightarrow> ('u, 'uri, 'hv, 'tls) endpoint_template \<Rightarrow> ('u, 'uri, 'hv, 'tls) endpoint_template" where
  "template_concurrency_limit x self = self\<lparr>et_concurrency_limit := Some x\<rparr>"

definition template_initial_stream_window_size :: "u32 option \<Rightarrow> ('u, 'uri, 'hv, 'tls) endpoint_template \<Rightarrow> ('u, 'uri, 'hv, 'tls) endpoint_template" where
  "template_initial_stream_window_size x self = self\<lparr>et_init_stream_window_size := x\<rparr>"

definition template_initial_connection_window_size :: "u32 option \<Rightarrow> ('u, 'uri, 'hv, 'tls) endpoint_template \<Rightarrow> ('u, 'uri, 'hv, 'tls) endpoint_template" where
  "template_initial_connection_window_size x self = self\<lparr>et_init_connection_window_size := x\<rparr>"

definition template_buffer_size :: "usize option \<Rightarrow> ('u, 'uri, 'hv, 'tls) endpoint_template \<Rightarrow> ('u, 'uri, 'hv, 'tls) endpoint_template" where
  "template_buffer_size x self = self\<lparr>et_buffer_size := x\<rparr>"

definition template_tcp_nodelay :: "bool \<Rightarrow> ('u, 'uri, 'hv, 'tls) endpoint_template \<Rightarrow> ('u, 'uri, 'hv, 'tls) endpoint_template" where
  "template_tcp_nodelay x self = self\<lparr>et_tcp_nodelay := Some x\<rparr>"

definition template_http2_keep_alive_interval :: "duration \<Rightarrow> ('u, 'uri, 'hv, 'tls) endpoint_template \<Rightarrow> ('u, 'uri, 'hv, 'tls) endpoint_template" where
  "template_http2_keep_alive_interval x self = self\<lparr>et_http2_keep_alive_interval := Some x\<rparr>"

definition template_keep_alive_timeout :: "duration \<Rightarrow> ('u, 'uri, 'hv, 'tls) endpoint_template \<Rightarrow> ('u, 'uri, 'hv, 'tls) endpoint_template" where
  "template_keep_alive_timeout x self = self\<lparr>et_http2_keep_alive_timeout := Some x\<rparr>"

definition template_keep_alive_while_idle :: "bool \<Rightarrow> ('u, 'uri, 'hv, 'tls) endpoint_template \<Rightarrow> ('u, 'uri, 'hv, 'tls) endpoint_template" where
  "template_keep_alive_while_idle x self = self\<lparr>et_http2_keep_alive_while_idle := Some x\<rparr>"

definition template_http2_adaptive_window :: "bool \<Rightarrow> ('u, 'uri, 'hv, 'tls) endpoint_template \<Rightarrow> ('u, 'uri, 'hv, 'tls) endpoint_template" where
  "template_http2_adaptive_window x self = self\<lparr>et_http2_adaptive_window := Some x\<rparr>"

definition template_http2_max_header_list_size :: "u32 \<Rightarrow> ('u, 'uri, 'hv, 'tls) endpoint_template \<Rightarrow> ('u, 'uri, 'hv, 'tls) endpoint_template" where
  "template_http2_max_header_list_size x self = self\<lparr>et_http2_max_header_list_size := Some x\<rparr>"

definition template_local_address :: "ip_addr option \<Rightarrow> ('u, 'uri, 'hv, 'tls) endpoint_template \<Rightarrow> ('u, 'uri, 'hv, 'tls) endpoint_template" where
  "template_local_address x self = self\<lparr>et_local_address := x\<rparr>"

definition template_rate_limit :: "u64 \<Rightarrow> duration \<Rightarrow> ('u, 'uri, 'hv, 'tls) endpoint_template \<Rightarrow> ('u, 'uri, 'hv, 'tls) endpoint_template" where
  "template_rate_limit limit dur self = self\<lparr>et_rate_limit := Some (limit, dur)\<rparr>"

text \<open>
  The two setters that check their argument.  The value is the result of its conversion to
  a \<open>HeaderValue\<close>; the TLS configuration is tried on an endpoint built for the IPv4
  loopback address, and building that one may panic like any other.
\<close>

definition template_user_agent ::
  "'e + 'hv \<Rightarrow> ('u, 'uri, 'hv, 'tls) endpoint_template \<Rightarrow> endpoint_template_error + ('u, 'uri, 'hv, 'tls) endpoint_template" where
  "template_user_agent converted self =
     map_err (\<lambda>_. InvalidUserAgent)
       (map_ok (\<lambda>ua. self\<lparr>et_user_agent := Some ua\<rparr>) converted)"

definition template_tls_config ::
  "('u, 'uri) url_lib \<Rightarrow> ('uri, 'hv, 'tls, 'ep) endpoint_lib \<Rightarrow> 'tls \<Rightarrow> ('u, 'uri, 'hv, 'tls) endpoint_template \<Rightarrow>
     (endpoint_template_error + ('u, 'uri, 'hv, 'tls) endpoint_template) may_panic" where
  "template_tls_config L E tls_config self =
     map_ok (\<lambda>endpoint.
         case ep_tls_config E tls_config endpoint of
           None \<Rightarrow> Inl InvalidTlsConfig
         | Some _ \<Rightarrow> Inr (self\<lparr>et_tls_config := Some tls_config\<rparr>))
       (template_build L E self LOCALHOST_V4)"

fun display_template_error :: "endpoint_template_error \<Rightarrow> string" where
  "display_template_error NotAUrl = ''not a valid URL''"
| "display_template_error HostMissing = ''host missing''"
| "display_template_error AlreadyIpAddress = ''already an IP address''"
| "display_template_error Inconvertible = ''inconvertible URL''"
| "display_template_error InvalidUserAgent = ''invalid user agent''"
| "display_template_error InvalidTlsConfig = ''invalid TLS config''"

text \<open>
  \<open>Debug\<close> of a template, without line breaks (\<open>{:?}\<close>): the URL, and two dots for the rest;
  \<open>debug_str\<close> quotes a string.
\<close>

definition debug_template ::
  "('u, 'uri) url_lib \<Rightarrow> (string \<Rightarrow> string) \<Rightarrow> ('u, 'uri, 'hv, 'tls) endpoint_template \<Rightarrow> string" where
  "debug_template L debug_str self =
     ''EndpointTemplate { url: '' @ debug_str (url_as_str L (et_url self)) @ '', .. }''"

section \<open>The settings as a list of calls\<close>

text \<open>
  What \<open>build\<close> promises, without its control flow: the calls a template stands for, in
  order, one per option that is set (the four options tonic takes as an \<open>Option\<close> always
  appear), applied to the endpoint of the substituted URI.
\<close>

datatype ('uri, 'hv, 'tls) setting = Call "'uri endpoint_call" | UserAgent 'hv | Tls 'tls

definition opt_call :: "('a \<Rightarrow> 'uri endpoint_call) \<Rightarrow> 'a option \<Rightarrow> ('uri, 'hv, 'tls) setting list" where
  "opt_call f x = (case x of None \<Rightarrow> [] | Some v \<Rightarrow> [Call (f v)])"

definition template_settings ::
  "('u, 'uri, 'hv, 'tls) endpoint_template \<Rightarrow> ('uri, 'hv, 'tls) setting list" where
  "template_settings t =
     opt_call Origin (et_origin t) @
     (case et_user_agent t of None \<Rightarrow> [] | Some ua \<Rightarrow> [UserAgent ua]) @
     opt_call Timeout (et_timeout t) @
     (case et_tls_config t of None \<Rightarrow> [] | Some c \<Rightarrow> [Tls c]) @
     opt_call ConnectTimeout (et_connect_timeout t) @
     [Call (TcpKeepalive (et_tcp_keepalive t)),
      Call (TcpKeepaliveInterval (et_tcp_keepalive_interval t)),
      Call (TcpKeepaliveRetries (et_tcp_keepalive_retries t))] @
     opt_call ConcurrencyLimit (et_concurrency_limit t) @
     opt_call (\<lambda>(limit, duration). RateLimit limit duration) (et_rate_limit t) @
     opt_call InitialStreamWindowSize (et_init_stream_window_size t) @
     opt_call InitialConnectionWindowSize (et_init_connection_window_size t) @
     [Call (BufferSize (et_buffer_size t))] @
     opt_call TcpNodelay (et_tcp_nodelay t) @
     opt_call Http2KeepAliveInterval (et_http2_keep_alive_interval t) @
     opt_call KeepAliveTimeout (et_http2_keep_alive_timeout t) @
     opt_call KeepAliveWhileIdle (et_http2_keep_alive_while_idle t) @
     opt_call Http2AdaptiveWindow (et_http2_adaptive_window t) @
     opt_call Http2MaxHeaderListSize (et_http2_max_header_list_size t) @
     [Call (LocalAddress (et_local_address t))]"

fun apply_settings ::
  "('uri, 'hv, 'tls, 'ep) endpoint_lib \<Rightarrow> ('uri, 'hv, 'tls) setting list \<Rightarrow> 'ep \<Rightarrow> 'ep may_panic" where
  "apply_settings E [] ep = Inr ep"
| "apply_settings E (Call c # cs) ep = apply_settings E cs (ep_set E c ep)"
| "apply_settings E (UserAgent ua # cs) ep =
     bind_res (expect ''already checked in the setter'' (ep_user_agent E ua ep)) (apply_settings E cs)"
| "apply_settings E (Tls c # cs) ep =
     bind_res (expect ''already checked in the setter'' (ep_tls_config E c ep)) (apply_settings E cs)"

lemma apply_settings_append:
  "apply_settings E (xs @ ys) ep = bind_res (apply_settings E xs ep) (apply_settings E ys)"
  by (induction E xs ep rule: apply_settings.induct) (auto intro: bind_res_ext)

lemma apply_opt_call [simp]: "apply_settings E (opt_call f x) ep = Inr (set_if E f x ep)"
  by (simp add: opt_call_def set_if_def split: option.split)

lemma apply_settings_Nil: "apply_settings E [] = Inr"
  by (rule ext) simp

lemma apply_expect_if [simp]:
  "apply_settings E (case x of None \<Rightarrow> [] | Some v \<Rightarrow> [UserAgent v]) ep = expect_if (ep_user_agent E) x ep"
  "apply_settings E (case y of None \<Rightarrow> [] | Some v \<Rightarrow> [Tls v]) ep = expect_if (ep_tls_config E) y ep"
  by (simp_all add: expect_if_def apply_settings_Nil split: option.split)

lemma template_build_settings:
  "template_build L E t ip =
     bind_res (template_build_uri L t ip)
       (\<lambda>uri. apply_settings E (template_settings t) (ep_from_uri E uri))"
  unfolding template_build_def
proof (rule bind_res_ext, goal_cases)
  case (1 uri)
  let ?ep = "set_if E Origin (et_origin t) (ep_from_uri E uri)"
  show ?case
  proof (cases "expect_if (ep_user_agent E) (et_user_agent t) ?ep")
    case (Inl p)
    then show ?thesis by (simp add: template_settings_def apply_settings_append)
  next
    case (Inr ep2)
    then show ?thesis
      by (cases "expect_if (ep_tls_config E) (et_tls_config t) (set_if E Timeout (et_timeout t) ep2)")
         (simp_all add: template_settings_def apply_settings_append)
  qed
qed

section \<open>Templates reachable through the public interface\<close>

definition pure_setters ::
  "(('u, 'uri, 'hv, 'tls) endpoint_template \<Rightarrow> ('u, 'uri, 'hv, 'tls) endpoint_template) set" where
  "pure_setters =
     range template_origin \<union> range template_timeout \<union> range template_connect_timeout \<union>
     range template_tcp_keepalive \<union> range template_tcp_keepalive_interval \<union>
     range template_tcp_keepalive_retries \<union> range template_concurrency_limit \<union>
     range (\<lambda>(limit, dur). template_rate_limit limit dur) \<union>
     range template_initial_stream_window_size \<union>
     range template_initial_connection_window_size \<union> range template_buffer_size \<union>
     range template_tcp_nodelay \<union> range template_http2_keep_alive_interval \<union>
     range template_keep_alive_timeout \<union> range template_keep_alive_while_idle \<union>
     range template_http2_adaptive_window \<union> range template_http2_max_header_list_size \<union>
     range template_local_address"

lemmas pure_setter_defs = template_origin_def template_timeout_def template_connect_timeout_def
  template_tcp_keepalive_def template_tcp_keepalive_interval_def template_tcp_keepalive_retries_def
  template_concurrency_limit_def template_rate_limit_def template_initial_stream_window_size_def
  template_initial_connection_window_size_def template_buffer_size_def template_tcp_nodelay_def
  template_http2_keep_alive_interval_def template_keep_alive_timeout_def
  template_keep_alive_while_idle_def template_http2_adaptive_window_def
  template_http2_max_header_list_size_def template_local_address_def

lemma pure_setters_frame:
  "f \<in> pure_setters \<Longrightarrow> et_url (f t) = et_url t \<and> et_user_agent (f t) = et_user_agent t \<and>
     et_tls_config (f t) = et_tls_config t"
  unfolding pure_setters_def by (elim UnE) (auto simp: pure_setter_defs)

inductive configured ::
  "('u, 'uri) url_lib \<Rightarrow> ('uri, 'hv, 'tls, 'ep) endpoint_lib \<Rightarrow>
     ('u, 'uri, 'hv, 'tls) endpoint_template \<Rightarrow> bool"
  for L E
where
  configured_new: "template_new L (Inr url :: unit + 'u) = Inr t \<Longrightarrow> configured L E t"
| configured_pure: "configured L E t \<Longrightarrow> f \<in> pure_setters \<Longrightarrow> configured L E (f t)"
| configured_user_agent: "configured L E t \<Longrightarrow>
    template_user_agent (converted :: unit + 'hv) t = Inr t' \<Longrightarrow> configured L E t'"
| configured_tls: "configured L E t \<Longrightarrow>
    template_tls_config L E c t = Inr (Inr t') \<Longrightarrow> configured L E t'"

text \<open>
  What the constructor checks, and what the code relies on of the three crates.
  \<open>url_laws\<close>: \<open>domain\<close> is the host when that is a name, and \<open>set_ip_host\<close> only fails on a
  URL that cannot be a base.  \<open>uri_laws\<close>: a URL that parses as a \<open>Uri\<close> still does with an
  IP address as its host.  \<open>endpoint_laws\<close>: \<open>user_agent\<close> accepts every \<open>HeaderValue\<close>, and
  whether \<open>tls_config\<close> accepts a configuration does not depend on the endpoint.
\<close>

definition valid_url :: "('u, 'uri) url_lib \<Rightarrow> 'u \<Rightarrow> bool" where
  "valid_url L u \<longleftrightarrow> (\<exists>d. url_host L u = Some (Domain d)) \<and> \<not> url_cannot_be_a_base L u \<and>
     uri_from_str L (url_as_str L u) \<noteq> None"

definition url_laws :: "('u, 'uri) url_lib \<Rightarrow> bool" where
  "url_laws L \<longleftrightarrow>
     (\<forall>u d. url_domain L u = Some d \<longleftrightarrow> url_host L u = Some (Domain d)) \<and>
     (\<forall>u a. url_set_ip_host L u a = None \<longleftrightarrow> url_cannot_be_a_base L u)"

definition uri_laws :: "('u, 'uri) url_lib \<Rightarrow> bool" where
  "uri_laws L \<longleftrightarrow> (\<forall>u a u'. uri_from_str L (url_as_str L u) \<noteq> None \<longrightarrow>
     url_set_ip_host L u a = Some u' \<longrightarrow> uri_from_str L (url_as_str L u') \<noteq> None)"

definition endpoint_laws :: "('uri, 'hv, 'tls, 'ep) endpoint_lib \<Rightarrow> bool" where
  "endpoint_laws E \<longleftrightarrow> (\<forall>ua ep. ep_user_agent E ua ep \<noteq> None) \<and>
     (\<forall>c ep ep'. ep_tls_config E c ep = None \<longleftrightarrow> ep_tls_config E c ep' = None)"

lemma template_new_Inr_cases:
  assumes "template_new L converted = Inr t"
  obtains u d where "converted = Inr u" "et_url t = u" "url_host L u = Some (Domain d)"
    "\<not> url_cannot_be_a_base L u" "uri_from_str L (url_as_str L u) \<noteq> None"
    "et_user_agent t = None" "et_tls_config t = None"
proof (cases converted)
  case (Inl e)
  with assms show ?thesis by (simp add: template_new_def)
next
  case (Inr u)
  with assms obtain h where h: "url_host L u = Some h"
    by (auto simp: template_new_def split: option.splits)
  with assms Inr show ?thesis
    by (cases h) (auto simp: template_new_def split: if_splits intro!: that)
qed

lemma template_new_valid:
  "template_new L converted = Inr t \<Longrightarrow>
     valid_url L (et_url t) \<and> et_user_agent t = None \<and> et_tls_config t = None"
  by (erule template_new_Inr_cases) (auto simp: valid_url_def)

text \<open>The invariant of a configured template.\<close>

definition tls_accepted :: "('uri, 'hv, 'tls, 'ep) endpoint_lib \<Rightarrow> ('u, 'uri, 'hv, 'tls) endpoint_template \<Rightarrow> bool" where
  "tls_accepted E t \<longleftrightarrow> (\<forall>c. et_tls_config t = Some c \<longrightarrow> (\<exists>ep. ep_tls_config E c ep \<noteq> None))"

lemma configured_inv:
  "configured L E t \<Longrightarrow> valid_url L (et_url t) \<and> tls_accepted E t"
proof (induction rule: configured.induct)
  case (configured_new url t)
  then show ?case by (auto dest: template_new_valid simp: tls_accepted_def)
next
  case (configured_pure t f)
  then show ?case using pure_setters_frame [of f t] by (simp add: tls_accepted_def)
next
  case (configured_user_agent t converted t')
  then show ?case by (auto simp: template_user_agent_def tls_accepted_def)
next
  case (configured_tls t c t')
  from configured_tls.hyps(2) obtain ep where "ep_tls_config E c ep \<noteq> None"
    "t' = t\<lparr>et_tls_config := Some c\<rparr>"
    by (auto simp: template_tls_config_def split: option.splits)
  with configured_tls.IH show ?case by (auto simp: tls_accepted_def)
qed

lemma apply_settings_total:
  assumes "endpoint_laws E" "\<And>c. Tls c \<in> set xs \<Longrightarrow> \<exists>ep. ep_tls_config E c ep \<noteq> None"
  shows "\<exists>ep'. apply_settings E xs ep = Inr ep'"
  using assms
proof (induction E xs ep rule: apply_settings.induct)
  case (3 E ua cs ep)
  then obtain ep' where "ep_user_agent E ua ep = Some ep'"
    unfolding endpoint_laws_def by blast
  with 3 show ?case by simp
next
  case (4 E c cs ep)
  then have "ep_tls_config E c ep \<noteq> None"
    unfolding endpoint_laws_def by (metis list.set_intros(1))
  with 4 show ?case by auto
qed auto

lemma Tls_in_settings: "Tls c \<in> set (template_settings t) \<longleftrightarrow> et_tls_config t = Some c"
  by (auto simp: template_settings_def opt_call_def split: option.splits)

lemma template_build_uri_total:
  assumes "url_laws L" "uri_laws L" "valid_url L (et_url t)"
  shows "\<exists>uri. template_build_uri L t ip = Inr uri"
proof -
  from assms(1,3) obtain u' where u': "url_set_ip_host L (et_url t) ip = Some u'"
    unfolding url_laws_def valid_url_def by (metis option.exhaust)
  with assms(2,3) have "uri_from_str L (url_as_str L u') \<noteq> None"
    unfolding uri_laws_def valid_url_def by blast
  with u' show ?thesis by (auto simp: template_build_uri_def)
qed

lemma template_build_total:
  assumes "url_laws L" "uri_laws L" "endpoint_laws E" "valid_url L (et_url t)" "tls_accepted E t"
  shows "\<exists>ep. template_build L E t ip = Inr ep"
proof -
  obtain uri where uri: "template_build_uri L t ip = Inr uri"
    using template_build_uri_total [OF assms(1,2,4)] by blast
  have "\<exists>ep. apply_settings E (template_settings t) (ep_from_uri E uri) = Inr ep"
    using assms(5) by (intro apply_settings_total [OF assms(3)]) (auto simp: Tls_in_settings tls_accepted_def)
  then show ?thesis by (simp add: template_build_settings uri)
qed

section \<open>A concrete instance\<close>

text \<open>
  For concrete runs: a URL is its host with its path, rendered to a string; an endpoint is
  its URI with the log of the settings made on it.
\<close>

definition sample_urls :: "(host \<times> string, string) url_lib" where
  "sample_urls =
     \<lparr>url_host = (\<lambda>u. Some (fst u)),
      url_domain = (\<lambda>u. case fst u of Domain d \<Rightarrow> Some d | Ipv4 _ \<Rightarrow> None | Ipv6 _ \<Rightarrow> None),
      url_cannot_be_a_base = (\<lambda>_. False),
      url_set_ip_host = (\<lambda>u a. Some (case a of V4 x \<Rightarrow> Ipv4 x | V6 x \<Rightarrow> Ipv6 x, snd u)),
      url_as_str = (\<lambda>u. (case fst u of Domain d \<Rightarrow> d | Ipv4 x \<Rightarrow> ''v4'' | Ipv6 x \<Rightarrow> ''v6'') @ snd u),
      uri_from_str = Some\<rparr>"

definition logged_endpoints ::
  "(string, string, string, string \<times> (string, string, string) setting list) endpoint_lib" where
  "logged_endpoints =
     \<lparr>ep_from_uri = (\<lambda>uri. (uri, [])),
      ep_set = (\<lambda>c (uri, log). (uri, log @ [Call c])),
      ep_user_agent = (\<lambda>ua (uri, log). Some (uri, log @ [UserAgent ua])),
      ep_tls_config = (\<lambda>c (uri, log). if c = ''bad'' then None else Some (uri, log @ [Tls c]))\<rparr>"

lemma sample_laws: "url_laws sample_urls" "uri_laws sample_urls" "endpoint_laws logged_endpoints"
  by (auto simp: url_laws_def uri_laws_def endpoint_laws_def sample_urls_def logged_endpoints_def
      split: host.splits)

definition sample_template :: "(host \<times> string, string, string, string) endpoint_template" where
  "sample_template =
     (case template_new sample_urls (Inr (Domain ''example.com'', ''/foo'') :: unit + host \<times> string) of
        Inr t \<Rightarrow> template_timeout 10 t)"

lemma sample_template_new:
  "\<exists>t. template_new sample_urls (Inr (Domain ''example.com'', ''/foo'') :: unit + host \<times> string) = Inr t \<and>
     sample_template = template_timeout 10 t"
  by (simp add: template_new_def sample_template_def sample_urls_def)

lemma sample_configured: "configured sample_urls logged_endpoints sample_template"
proof -
  from sample_template_new obtain t where
    "template_new sample_urls (Inr (Domain ''example.com'', ''/foo'') :: unit + host \<times> string) = Inr t"
    "sample_template = template_timeout 10 t" by blast
  moreover have "template_timeout 10 \<in> pure_setters"
    by (simp add: pure_setters_def)
  ultimately show ?thesis
    using configured_pure [OF configured_new] by metis
qed

section \<open>Properties\<close>

text \<open>
  The constructor classifies its argument completely: a URL is refused for a missing
  host, for a host that is already an address, or as inconvertible (a name, but no base or
  no URI), in that order, and accepted exactly when it is valid.
\<close>

lemma template_new_classifies:
  "template_new L (Inr u :: 'e + 'u) = Inl err \<longleftrightarrow>
     err = HostMissing \<and> url_host L u = None \<or>
     err = AlreadyIpAddress \<and> (\<exists>x. url_host L u = Some (Ipv4 x)) \<or>
     err = AlreadyIpAddress \<and> (\<exists>x. url_host L u = Some (Ipv6 x)) \<or>
     err = Inconvertible \<and> (\<exists>d. url_host L u = Some (Domain d)) \<and>
       (url_cannot_be_a_base L u \<or> uri_from_str L (url_as_str L u) = None)"
  by (auto simp: template_new_def split: option.splits host.splits)

text \<open>
  C25: what the constructor checks holds of every template the public interface can produce,
  whatever setters have been applied: the URL names a host (which \<open>domain\<close> returns without a
  panic), can be a base and is a URI, and the TLS configuration is one that tonic accepts.
\<close>

theorem configured_templates_valid:
  assumes "url_laws L" "configured L E t"
  shows "(\<exists>d. url_host L (et_url t) = Some (Domain d) \<and> template_domain L t = Inr d) \<and>
    \<not> url_cannot_be_a_base L (et_url t) \<and> uri_from_str L (url_as_str L (et_url t)) \<noteq> None \<and>
    (et_tls_config t = None \<or> (\<exists>c ep. et_tls_config t = Some c \<and> ep_tls_config E c ep \<noteq> None))"
  using configured_inv [OF assms(2)] assms(1)
  by (cases "et_tls_config t") (auto simp: valid_url_def url_laws_def template_domain_def tls_accepted_def)

theorem configured_templates_valid_witness:
  "(\<exists>d. url_host sample_urls (et_url sample_template) = Some (Domain d) \<and>
     template_domain sample_urls sample_template = Inr d) \<and>
   \<not> url_cannot_be_a_base sample_urls (et_url sample_template)"
  using configured_templates_valid [OF sample_laws(1) sample_configured] by blast




end
