(* ===== verification/Pool.thy ===== *)
theory Pool
  imports Ready_Channels Broken_Endpoints Dns Endpoint_Template
begin

text \<open>
  \<open>soda-pool/src/pool.rs\<close>: the state the tasks and clones of a pool share, and the three
  procedures that change it: the DNS check, the retest of a broken address and the report
  of a broken one.  Here each runs as the code writes it from top to bottom; the loop of
  the DNS check takes the states it sees at its \<open>await\<close>s as arguments, so what is proved of
  it covers other tasks running in between.

  What a call needs from outside is in \<open>pool_env\<close>: the clock, the endpoint template's
  \<open>build\<close> and \<open>domain\<close>, the resolver, the clock readings and the outcomes of the connection
  attempts (numbered from 0 in the order the call makes them), and whether the build has
  overflow checks.
\<close>

section \<open>State and environment\<close>

record ('t, 'ch) pool =
  ready_clients :: "'ch ready_channels"
  broken_endpoints :: "'t broken_endpoints"

definition pool_initial :: "('t, 'ch) pool" where
  "pool_initial = \<lparr>ready_clients = ready_default, broken_endpoints = broken_default\<rparr>"

record ('t, 'ep, 'ch, 'ioe) pool_env =
  clock :: "'t chrono"
  build_endpoint :: "ip_addr \<Rightarrow> 'ep may_panic"
  domain_name :: "string may_panic"
  to_socket_addrs :: "'ioe resolver"
  env_now :: "nat \<Rightarrow> 't"
  env_connect :: "nat \<Rightarrow> 'ep \<Rightarrow> 'ch option"
  overflow_checks :: bool

text \<open>The environment of a pool made from a template.\<close>

definition with_template ::
  "('u, 'uri) url_lib \<Rightarrow> ('uri, 'hv, 'tls, 'ep) endpoint_lib \<Rightarrow>
     ('u, 'uri, 'hv, 'tls) endpoint_template \<Rightarrow>
     ('t, 'ep, 'ch, 'ioe) pool_env \<Rightarrow> ('t, 'ep, 'ch, 'ioe) pool_env" where
  "with_template L E template env =
     env\<lparr>build_endpoint := template_build L E template, domain_name := template_domain L template\<rparr>"

section \<open>Procedures\<close>

text \<open>
  The loop of \<open>check_dns\<close>: \<open>rs i\<close> and \<open>bs i\<close> are the ready channels and the broken endpoints
  as iteration \<open>i\<close> finds them; \<open>ready\<close> and \<open>broken\<close> are the two collections it builds.
\<close>

fun check_dns_loop ::
  "('t, 'ep, 'ch, 'ioe) pool_env \<Rightarrow> (nat \<Rightarrow> 'ch ready_channels) \<Rightarrow> (nat \<Rightarrow> 't broken_endpoints) \<Rightarrow>
     nat \<Rightarrow> ip_addr list \<Rightarrow> (ip_addr \<times> 'ch) list \<Rightarrow> 't delayed_address list \<Rightarrow>
     ((ip_addr \<times> 'ch) list \<times> 't delayed_address list) may_panic"
where
  "check_dns_loop env rs bs i [] ready broken = Inr (ready, broken)"
| "check_dns_loop env rs bs i (address # rest) ready broken =
     (case ready_find (rs i) address of
        Some channel \<Rightarrow> check_dns_loop env rs bs (Suc i) rest (ready @ [(address, channel)]) broken
      | None \<Rightarrow>
          (case broken_get_address (bs i) address of
             Some entry \<Rightarrow> check_dns_loop env rs bs (Suc i) rest ready (heap_push broken entry)
           | None \<Rightarrow>
               bind_res (build_endpoint env address) (\<lambda>endpoint.
                 case env_connect env i endpoint of
                   Some channel \<Rightarrow>
                     check_dns_loop env rs bs (Suc i) rest (ready @ [(address, channel)]) broken
                 | None \<Rightarrow>
                     bind_res (delayed_from_ip (clock env) (env_now env i) address) (\<lambda>entry.
                       check_dns_loop env rs bs (Suc i) rest ready (heap_push broken entry)))))"

text \<open>What the check stores, in a state that may have changed since it scanned.\<close>

definition check_dns_store ::
  "(ip_addr \<times> 'ch) list \<times> 't delayed_address list \<Rightarrow> ('t, 'ch) pool \<Rightarrow> ('t, 'ch) pool" where
  "check_dns_store result st =
     (let st = st\<lparr>ready_clients := ready_replace_with (ready_clients st) (fst result)\<rparr>
      in st\<lparr>broken_endpoints := broken_replace_with (broken_endpoints st) (snd result)\<rparr>)"

definition check_dns ::
  "('t, 'ep, 'ch, 'ioe) pool_env \<Rightarrow> ('t, 'ch) pool \<Rightarrow> ('t, 'ch) pool may_panic" where
  "check_dns env st =
     bind_res (domain_name env) (\<lambda>domain.
       case resolve_domain (to_socket_addrs env) domain of
         Inl _ \<Rightarrow> Inr st
       | Inr resolved \<Rightarrow>
           map_ok (\<lambda>result. check_dns_store result st)
             (check_dns_loop env (\<lambda>_. ready_clients st) (\<lambda>_. broken_endpoints st) 0 resolved [] []))"

definition recheck_broken_endpoint ::
  "('t, 'ep, 'ch, 'ioe) pool_env \<Rightarrow> 't delayed_address \<Rightarrow> ('t, 'ch) pool \<Rightarrow> ('t, 'ch) pool may_panic"
where
  "recheck_broken_endpoint env address st =
     bind_res (build_endpoint env (da_address address)) (\<lambda>endpoint.
       case env_connect env 0 endpoint of
         Some channel \<Rightarrow>
           Inr (st\<lparr>ready_clients := ready_add (ready_clients st) (da_address address) channel\<rparr>)
       | None \<Rightarrow>
           map_ok (\<lambda>be. st\<lparr>broken_endpoints := be\<rparr>)
             (re_add_address (overflow_checks env) (clock env) (env_now env 0) (broken_endpoints st) address))"

definition report_broken ::
  "('t, 'ep, 'ch, 'ioe) pool_env \<Rightarrow> ip_addr \<Rightarrow> ('t, 'ch) pool \<Rightarrow> ('t, 'ch) pool may_panic" where
  "report_broken env ip_address st =
     (let st = st\<lparr>ready_clients := ready_remove (ready_clients st) ip_address\<rparr>
      in map_ok (\<lambda>be. st\<lparr>broken_endpoints := be\<rparr>)
           (add_address (clock env) (env_now env 0) (broken_endpoints st) ip_address))"

text \<open>
  One round of the task that retests broken addresses, once an entry is due: it takes the
  entry out and retests it.  \<open>None\<close> means that the pass of the loop has to wait.
\<close>

definition doctor_round ::
  "('t, 'ep, 'ch, 'ioe) pool_env \<Rightarrow> 't \<Rightarrow> ('t::linorder, 'ch) pool \<Rightarrow> ('t, 'ch) pool option may_panic"
where
  "doctor_round env now st =
     bind_res (next_broken_pass (clock env) now (broken_endpoints st)) (\<lambda>(pass, be).
       case pass of
         Return entry \<Rightarrow> map_ok Some (recheck_broken_endpoint env entry (st\<lparr>broken_endpoints := be\<rparr>))
       | _ \<Rightarrow> Inr None)"

section \<open>Well-formed pools\<close>

definition ready_keys :: "('t, 'ch) pool \<Rightarrow> ip_addr set" where
  "ready_keys st = fst ` set (channels (ready_clients st))"

definition broken_keys :: "('t, 'ch) pool \<Rightarrow> ip_addr set" where
  "broken_keys st = da_address ` set (addresses (broken_endpoints st))"

text \<open>
  In a well-formed pool no address appears twice: the channels have distinct addresses, the
  broken entries too, and no address is both ready and broken.
\<close>

definition pool_wf :: "'t chrono \<Rightarrow> ('t, 'ch) pool \<Rightarrow> bool" where
  "pool_wf C st \<longleftrightarrow> distinct (map fst (channels (ready_clients st))) \<and> broken_wf C (broken_endpoints st) \<and>
     ready_keys st \<inter> broken_keys st = {}"

text \<open>
  What the procedures rely on: chrono's laws, clock readings the back-off can be added to,
  and a template whose \<open>build\<close> and \<open>domain\<close> do not panic.
\<close>

definition env_ok :: "('t::linorder \<Rightarrow> int) \<Rightarrow> ('t, 'ep, 'ch, 'ioe) pool_env \<Rightarrow> bool" where
  "env_ok ts env \<longleftrightarrow> chrono_laws (clock env) ts \<and>
     (\<forall>i. backoff_fits (clock env) (env_now env i)) \<and>
     (\<forall>a. \<exists>ep. build_endpoint env a = Inr ep) \<and> (\<exists>d. domain_name env = Inr d)"

lemma env_okD:
  assumes "env_ok ts env"
  shows "chrono_laws (clock env) ts" "backoff_fits (clock env) (env_now env i)"
    "\<exists>ep. build_endpoint env a = Inr ep" "\<exists>d. domain_name env = Inr d"
  using assms by (auto simp: env_ok_def)

text \<open>A configured template supplies its part.\<close>

lemma with_template_ok:
  assumes "url_laws L" "uri_laws L" "endpoint_laws E" "configured L E t"
    and "chrono_laws (clock env) ts" "\<And>i. backoff_fits (clock env) (env_now env i)"
  shows "env_ok ts (with_template L E t env)"
proof -
  from configured_inv [OF assms(4)] have v: "valid_url L (et_url t)" "tls_accepted E t" by auto
  have "\<exists>ep. template_build L E t a = Inr ep" for a
    by (rule template_build_total [OF assms(1-3) v])
  moreover have "\<exists>d. template_domain L t = Inr d"
    using v(1) assms(1) by (auto simp: valid_url_def url_laws_def template_domain_def)
  ultimately show ?thesis using assms(5,6) by (simp add: env_ok_def with_template_def)
qed

section \<open>What the DNS check computes\<close>

text \<open>
  The channel iteration \<open>i\<close> finds or makes for an address, if any: an address without one
  goes to the broken endpoints.
\<close>

definition scan_channel ::
  "('t, 'ep, 'ch, 'ioe) pool_env \<Rightarrow> (nat \<Rightarrow> 'ch ready_channels) \<Rightarrow> (nat \<Rightarrow> 't broken_endpoints) \<Rightarrow>
     nat \<times> ip_addr \<Rightarrow> 'ch option" where
  "scan_channel env rs bs = (\<lambda>(i, a).
     case ready_find (rs i) a of
       Some ch \<Rightarrow> Some ch
     | None \<Rightarrow>
         if broken_get_address (bs i) a \<noteq> None then None
         else (case build_endpoint env a of Inl _ \<Rightarrow> None | Inr ep \<Rightarrow> env_connect env i ep))"

text \<open>The entry it stores for an address without a channel: the old one, or a fresh one.\<close>

definition scan_entry ::
  "('t \<Rightarrow> int) \<Rightarrow> ('t, 'ep, 'ch, 'ioe) pool_env \<Rightarrow> (nat \<Rightarrow> 't broken_endpoints) \<Rightarrow>
     nat \<times> ip_addr \<Rightarrow> 't delayed_address \<Rightarrow> bool" where
  "scan_entry ts env bs = (\<lambda>(i, a) d. da_address d = a \<and>
     (case broken_get_address (bs i) a of
        Some e \<Rightarrow> d = e
      | None \<Rightarrow> proper (clock env) (da_time d) \<and> delayed_failed_times (clock env) d = 1 \<and>
          \<bar>ts (da_time d) - (ts (env_now env i) + 1000000000)\<bar> \<le> 255))"

text \<open>One iteration extends one of the two collections.\<close>

lemma check_dns_iteration:
  assumes ok: "env_ok ts env"
  obtains (good) ch where "scan_channel env rs bs (i, a) = Some ch"
      "\<And>as ready broken. check_dns_loop env rs bs i (a # as) ready broken =
         check_dns_loop env rs bs (Suc i) as (ready @ [(a, ch)]) broken"
  | (bad) d where "scan_channel env rs bs (i, a) = None" "scan_entry ts env bs (i, a) d"
      "\<And>as ready broken. check_dns_loop env rs bs i (a # as) ready broken =
         check_dns_loop env rs bs (Suc i) as ready (broken @ [d])"
proof -
  obtain ep where ep: "build_endpoint env a = Inr ep" using env_okD(3) [OF ok] by blast
  consider (found) ch where "ready_find (rs i) a = Some ch"
    | (known) d where "ready_find (rs i) a = None" "broken_get_address (bs i) a = Some d"
    | (connected) ch where "ready_find (rs i) a = None" "broken_get_address (bs i) a = None"
        "env_connect env i ep = Some ch"
    | (refused) "ready_find (rs i) a = None" "broken_get_address (bs i) a = None" "env_connect env i ep = None"
    by fastforce
  then show thesis
  proof cases
    case found
    then show thesis by (intro good) (simp_all add: scan_channel_def)
  next
    case known
    then show thesis
      using be.lookup_Some [OF known(2)] by (intro bad) (simp_all add: scan_channel_def scan_entry_def heap_push_def)
  next
    case connected
    with ep show thesis by (intro good) (simp_all add: scan_channel_def)
  next
    case refused
    obtain d where "delayed_from_ip (clock env) (env_now env i) a = Inr d" "da_address d = a"
      "proper (clock env) (da_time d)" "delayed_failed_times (clock env) d = 1"
      "\<bar>ts (da_time d) - (ts (env_now env i) + int (calculate_backoff 1))\<bar> \<le> 255"
      by (rule delayed_from_ip_spec [OF env_okD(1,2) [OF ok]])
    with refused ep show thesis
      by (intro bad) (simp_all add: scan_channel_def scan_entry_def calculate_backoff_eq heap_push_def)
  qed
qed

lemma check_dns_loop_spec:
  assumes ok: "env_ok ts env"
  shows "\<exists>bad. check_dns_loop env rs bs i as ready broken =
      Inr (ready @ map (\<lambda>x. (snd x, the (scan_channel env rs bs x)))
             (filter (\<lambda>x. scan_channel env rs bs x \<noteq> None) (enumerate i as)), broken @ bad) \<and>
    list_all2 (scan_entry ts env bs)
      (filter (\<lambda>x. scan_channel env rs bs x = None) (enumerate i as)) bad"
proof (induction as arbitrary: i ready broken)
  case (Cons a as)
  show ?case
  proof (cases rule: check_dns_iteration [OF ok, of rs bs i a, case_names good bad])
    case (good ch)
    with Cons.IH [of "Suc i" "ready @ [(a, ch)]" broken] show ?thesis by (simp del: check_dns_loop.simps)
  next
    case (bad d)
    obtain ds where "check_dns_loop env rs bs (Suc i) as ready (broken @ [d]) =
        Inr (ready @ map (\<lambda>x. (snd x, the (scan_channel env rs bs x)))
          (filter (\<lambda>x. scan_channel env rs bs x \<noteq> None) (enumerate (Suc i) as)), (broken @ [d]) @ ds)"
      "list_all2 (scan_entry ts env bs)
        (filter (\<lambda>x. scan_channel env rs bs x = None) (enumerate (Suc i) as)) ds"
      using Cons.IH [of "Suc i" ready "broken @ [d]"] by blast
    with bad show ?thesis by (intro exI [of _ "d # ds"]) (simp del: check_dns_loop.simps)
  qed
qed simp

text \<open>The two collections, as lists over the numbered addresses.\<close>

definition scan_good ::
  "('t, 'ep, 'ch, 'ioe) pool_env \<Rightarrow> (nat \<Rightarrow> 'ch ready_channels) \<Rightarrow> (nat \<Rightarrow> 't broken_endpoints) \<Rightarrow>
     ip_addr list \<Rightarrow> (ip_addr \<times> 'ch) list" where
  "scan_good env rs bs as = map (\<lambda>x. (snd x, the (scan_channel env rs bs x)))
     (filter (\<lambda>x. scan_channel env rs bs x \<noteq> None) (enumerate 0 as))"

definition scan_bad ::
  "('t \<Rightarrow> int) \<Rightarrow> ('t, 'ep, 'ch, 'ioe) pool_env \<Rightarrow> (nat \<Rightarrow> 'ch ready_channels) \<Rightarrow>
     (nat \<Rightarrow> 't broken_endpoints) \<Rightarrow> ip_addr list \<Rightarrow> 't delayed_address list \<Rightarrow> bool" where
  "scan_bad ts env rs bs as bad \<longleftrightarrow> list_all2 (scan_entry ts env bs)
     (filter (\<lambda>x. scan_channel env rs bs x = None) (enumerate 0 as)) bad"

lemma check_dns_loop_result:
  assumes "env_ok ts env"
  obtains bad where "check_dns_loop env rs bs 0 as [] [] = Inr (scan_good env rs bs as, bad)"
    "scan_bad ts env rs bs as bad"
  using check_dns_loop_spec [OF assms, of rs bs 0 as "[]" "[]"]
  by (auto simp: scan_good_def scan_bad_def)

lemma scan_bad_keys:
  assumes "scan_bad ts env rs bs as bad"
  shows "map da_address bad = map snd (filter (\<lambda>x. scan_channel env rs bs x = None) (enumerate 0 as))"
proof -
  have "list_all2 (\<lambda>x d. snd x = da_address d)
      (filter (\<lambda>x. scan_channel env rs bs x = None) (enumerate 0 as)) bad"
    using assms unfolding scan_bad_def
    by (rule list_all2_mono) (auto simp: scan_entry_def)
  then show ?thesis
    by (simp add: list_all2_conv_all_nth list_eq_iff_nth_eq)
qed

lemma enumerate_snd_inj:
  assumes "distinct as" "(i, a) \<in> set (enumerate 0 as)" "(j, a) \<in> set (enumerate 0 as)"
  shows "i = j"
  using assms by (auto simp: in_set_enumerate_eq nth_eq_iff_index_eq)

lemma scan_keys:
  assumes "scan_bad ts env rs bs as bad"
  shows "fst ` set (scan_good env rs bs as) \<union> da_address ` set bad = set as"
proof -
  let ?P = "\<lambda>x. scan_channel env rs bs x = None"
  have "da_address ` set bad = snd ` set (filter ?P (enumerate 0 as))"
    using scan_bad_keys [OF assms] by (metis list.set_map)
  moreover have "fst ` set (scan_good env rs bs as) = snd ` set (filter (\<lambda>x. \<not> ?P x) (enumerate 0 as))"
    by (simp add: scan_good_def image_image)
  moreover have "set (filter (\<lambda>x. \<not> ?P x) (enumerate 0 as)) \<union> set (filter ?P (enumerate 0 as)) =
      set (enumerate 0 as)" by auto
  moreover have "snd ` set (enumerate 0 as) = set as"
    by (metis list.set_map map_snd_enumerate)
  ultimately show ?thesis by (metis image_Un)
qed

lemma scan_distinct:
  assumes "scan_bad ts env rs bs as bad" "distinct as"
  shows "distinct (map fst (scan_good env rs bs as))" "distinct (map da_address bad)"
    "fst ` set (scan_good env rs bs as) \<inter> da_address ` set bad = {}"
proof -
  have d: "distinct (map snd (filter Q (enumerate 0 as)))" for Q
    using assms(2) by (intro distinct_map_filter) simp
  show "distinct (map da_address bad)" using d by (simp add: scan_bad_keys [OF assms(1)])
  show "distinct (map fst (scan_good env rs bs as))"
    using d by (simp add: scan_good_def comp_def)
  have "da_address ` set bad = snd ` set (filter (\<lambda>x. scan_channel env rs bs x = None) (enumerate 0 as))"
    using scan_bad_keys [OF assms(1)] by (metis list.set_map)
  then have bad: "\<exists>j. (j, a) \<in> set (enumerate 0 as) \<and> scan_channel env rs bs (j, a) = None"
    if "a \<in> da_address ` set bad" for a using that by auto
  have good: "\<exists>i. (i, a) \<in> set (enumerate 0 as) \<and> scan_channel env rs bs (i, a) \<noteq> None"
    if "a \<in> fst ` set (scan_good env rs bs as)" for a using that by (auto simp: scan_good_def)
  show "fst ` set (scan_good env rs bs as) \<inter> da_address ` set bad = {}"
  proof (rule equals0I)
    fix a
    assume "a \<in> fst ` set (scan_good env rs bs as) \<inter> da_address ` set bad"
    then obtain i j where ij: "(i, a) \<in> set (enumerate 0 as)" "scan_channel env rs bs (i, a) \<noteq> None"
      "(j, a) \<in> set (enumerate 0 as)" "scan_channel env rs bs (j, a) = None"
      using good bad by (metis IntE)
    with enumerate_snd_inj [OF assms(2) ij(1,3)] show False by simp
  qed
qed

lemma scan_good_lookup:
  assumes "distinct as" "k < length as" "scan_bad ts env rs bs as bad"
  shows "map_of (scan_good env rs bs as) (as ! k) = scan_channel env rs bs (k, as ! k)"
proof -
  let ?x = "(k, as ! k)"
  have x: "?x \<in> set (enumerate 0 as)" using assms(2) by (simp add: in_set_enumerate_eq)
  show ?thesis
  proof (cases "scan_channel env rs bs ?x")
    case (Some ch)
    with x have "(as ! k, ch) \<in> set (scan_good env rs bs as)"
      by (force simp: scan_good_def)
    with Some scan_distinct(1) [OF assms(3,1)] show ?thesis by simp
  next
    case None
    have "as ! k \<notin> fst ` set (scan_good env rs bs as)"
      using enumerate_snd_inj [OF assms(1) x] None by (fastforce simp: scan_good_def)
    then show ?thesis using None by (simp add: map_of_eq_None_iff)
  qed
qed

lemma scan_bad_lookup:
  assumes "k < length as" "scan_bad ts env rs bs as bad" "scan_channel env rs bs (k, as ! k) = None"
  shows "\<exists>d \<in> set bad. scan_entry ts env bs (k, as ! k) d"
proof -
  have "(k, as ! k) \<in> set (filter (\<lambda>x. scan_channel env rs bs x = None) (enumerate 0 as))"
    using assms(1,3) by (simp add: in_set_enumerate_eq)
  with assms(2) show ?thesis
    unfolding scan_bad_def by (metis (no_types, lifting) in_set_conv_nth list_all2_conv_all_nth)
qed

lemma scan_bad_proper:
  assumes "scan_bad ts env rs bs as bad" "\<And>i. broken_wf (clock env) (bs i)"
  shows "list_all (\<lambda>d. proper (clock env) (da_time d)) bad"
proof -
  have "proper (clock env) (da_time d)" if "scan_entry ts env bs x d" for x d
  proof (cases x)
    case (Pair i a)
    with that be.lookup_Some [of "bs i" a] assms(2) [of i] show ?thesis
      by (auto simp: scan_entry_def broken_wf_def list_all_iff split: option.splits)
  qed
  with assms(1) show ?thesis
    unfolding scan_bad_def list_all_iff by (metis (no_types, lifting) in_set_conv_nth list_all2_conv_all_nth)
qed

definition resolves_to :: "('t, 'ep, 'ch, 'ioe) pool_env \<Rightarrow> ip_addr list \<Rightarrow> bool" where
  "resolves_to env as \<longleftrightarrow>
     (\<exists>d. domain_name env = Inr d \<and> resolve_domain (to_socket_addrs env) d = Inr as)"

lemma check_dns_store_simps [simp]:
  "channels (ready_clients (check_dns_store r st)) = fst r"
  "addresses (broken_endpoints (check_dns_store r st)) = snd r"
  by (simp_all add: check_dns_store_def ready_replace_with_def Let_def)

lemma check_dns_run:
  assumes "env_ok ts env" "resolves_to env as"
  obtains bad where
    "check_dns env st = Inr (check_dns_store
       (scan_good env (\<lambda>_. ready_clients st) (\<lambda>_. broken_endpoints st) as, bad) st)"
    "scan_bad ts env (\<lambda>_. ready_clients st) (\<lambda>_. broken_endpoints st) as bad"
proof -
  obtain bad where bad: "check_dns_loop env (\<lambda>_. ready_clients st) (\<lambda>_. broken_endpoints st) 0 as [] [] =
      Inr (scan_good env (\<lambda>_. ready_clients st) (\<lambda>_. broken_endpoints st) as, bad)"
    "scan_bad ts env (\<lambda>_. ready_clients st) (\<lambda>_. broken_endpoints st) as bad"
    by (rule check_dns_loop_result [OF assms(1)])
  with assms(2) that show thesis by (auto simp: check_dns_def resolves_to_def)
qed

lemma check_dns_store_wf:
  assumes "scan_bad ts env rs bs as bad" "distinct as" "\<And>i. broken_wf (clock env) (bs i)"
  shows "pool_wf (clock env) (check_dns_store (scan_good env rs bs as, bad) st)"
  using scan_distinct [OF assms(1,2)] scan_bad_proper [OF assms(1,3)]
  by (simp add: pool_wf_def broken_wf_def ready_keys_def broken_keys_def)

lemma check_dns_partition:
  assumes "env_ok ts env" "resolves_to env as" "distinct as"
    and "broken_wf (clock env) (broken_endpoints st)"
  obtains st' where "check_dns env st = Inr st'" "pool_wf (clock env) st'"
    "ready_keys st' \<union> broken_keys st' = set as"
proof -
  obtain bad where run: "check_dns env st = Inr (check_dns_store
       (scan_good env (\<lambda>_. ready_clients st) (\<lambda>_. broken_endpoints st) as, bad) st)"
    and bad: "scan_bad ts env (\<lambda>_. ready_clients st) (\<lambda>_. broken_endpoints st) as bad"
    by (rule check_dns_run [OF assms(1,2)])
  show thesis
    using scan_keys [OF bad] check_dns_store_wf [OF bad assms(3) assms(4), of st]
    by (intro that [OF run]) (simp_all add: ready_keys_def broken_keys_def)
qed

section \<open>Reports and retests\<close>

lemma ready_keys_find: "a \<in> ready_keys st \<longleftrightarrow> ready_find (ready_clients st) a \<noteq> None"
  by (auto simp: ready_keys_def ready_find_eq_map_of map_of_eq_None_iff)

lemma broken_keys_get: "a \<in> broken_keys st \<longleftrightarrow> broken_get_address (broken_endpoints st) a \<noteq> None"
  using be.lookup_is_None [of "broken_endpoints st" a] by (simp add: broken_keys_def)

lemma broken_get_eq:
  "broken_wf C be \<Longrightarrow> d \<in> set (addresses be) \<Longrightarrow> broken_get_address be (da_address d) = Some d"
  using be.lookup_unique [OF broken_wf_unique, of C be d] by simp

text \<open>What an uninterrupted DNS check decides for each resolved address.\<close>

lemma check_dns_decides:
  assumes "env_ok ts env" "resolves_to env as" "distinct as"
    and "broken_wf (clock env) (broken_endpoints st)" "k < length as"
  shows "\<exists>st' ep. check_dns env st = Inr st' \<and> build_endpoint env (as ! k) = Inr ep \<and>
    (case ready_find (ready_clients st) (as ! k) of
       Some ch \<Rightarrow> ready_find (ready_clients st') (as ! k) = Some ch
     | None \<Rightarrow>
         (case broken_get_address (broken_endpoints st) (as ! k) of
            Some d \<Rightarrow> as ! k \<notin> ready_keys st' \<and> broken_get_address (broken_endpoints st') (as ! k) = Some d
          | None \<Rightarrow>
              (case env_connect env k ep of
                 Some ch \<Rightarrow> ready_find (ready_clients st') (as ! k) = Some ch
               | None \<Rightarrow> \<exists>d. broken_get_address (broken_endpoints st') (as ! k) = Some d \<and>
                   delayed_failed_times (clock env) d = 1)))"
proof -
  let ?a = "as ! k" and ?rs = "\<lambda>_::nat. ready_clients st" and ?bs = "\<lambda>_::nat. broken_endpoints st"
  obtain bad where run: "check_dns env st = Inr (check_dns_store (scan_good env ?rs ?bs as, bad) st)"
    and bad: "scan_bad ts env ?rs ?bs as bad"
    by (rule check_dns_run [OF assms(1,2)])
  define st' where "st' = check_dns_store (scan_good env ?rs ?bs as, bad) st"
  obtain ep where ep: "build_endpoint env ?a = Inr ep" using env_okD(3) [OF assms(1)] by blast
  have wf: "pool_wf (clock env) st'"
    unfolding st'_def by (rule check_dns_store_wf [OF bad assms(3) assms(4)])
  have good: "ready_find (ready_clients st') ?a = scan_channel env ?rs ?bs (k, ?a)"
    using scan_good_lookup [OF assms(3,5) bad] by (simp add: st'_def ready_find_eq_map_of)
  have entry: "\<exists>d. broken_get_address (broken_endpoints st') ?a = Some d \<and> scan_entry ts env ?bs (k, ?a) d"
    if none: "scan_channel env ?rs ?bs (k, ?a) = None"
  proof -
    obtain d where "d \<in> set (addresses (broken_endpoints st'))" "scan_entry ts env ?bs (k, ?a) d"
      using scan_bad_lookup [OF assms(5) bad none] by (auto simp: st'_def)
    moreover from this have "da_address d = ?a" by (simp add: scan_entry_def)
    ultimately show ?thesis
      using broken_get_eq [of "clock env" "broken_endpoints st'" d] wf by (auto simp: pool_wf_def)
  qed
  show ?thesis
    using run ep good entry
    by (auto simp: st'_def [symmetric] scan_channel_def scan_entry_def ready_keys_find
        split: option.splits)
qed

lemma report_broken_spec:
  assumes "env_ok ts env"
  obtains d where
    "report_broken env a st = Inr (st\<lparr>ready_clients := ready_remove (ready_clients st) a,
       broken_endpoints := broken_insert (broken_endpoints st) d\<rparr>)"
    "da_address d = a" "proper (clock env) (da_time d)" "delayed_failed_times (clock env) d = 1"
    "\<bar>ts (da_time d) - (ts (env_now env 0) + 1000000000)\<bar> \<le> 255"
  by (rule add_fail_count_spec [OF env_okD(1,2) [OF assms], of 0 "broken_endpoints st" a 1])
     (rule that, auto simp: report_broken_def add_address_def calculate_backoff_eq)

lemma ready_keys_remove:
  assumes "distinct (map fst (channels rc))"
  shows "fst ` set (channels (ready_remove rc a)) = fst ` set (channels rc) - {a}"
    "distinct (map fst (channels (ready_remove rc a)))"
  using rc.keys_remove [of rc a] rc.unique_remove [of rc a] assms by simp_all

lemma pool_wf_report:
  assumes "pool_wf C st" "da_address d = a" "proper C (da_time d)"
  shows "pool_wf C (st\<lparr>ready_clients := ready_remove (ready_clients st) a,
     broken_endpoints := broken_insert (broken_endpoints st) d\<rparr>)"
  using assms ready_keys_remove [of "ready_clients st" a] broken_wf_insert [of C "broken_endpoints st" d]
  by (auto simp: pool_wf_def ready_keys_def broken_keys_def)

lemma pool_wf_retest_ready:
  assumes "pool_wf C st" "a \<notin> ready_keys st" "a \<notin> broken_keys st"
  shows "pool_wf C (st\<lparr>ready_clients := ready_add (ready_clients st) a ch\<rparr>)"
  using assms by (auto simp: pool_wf_def ready_keys_def broken_keys_def ready_add_def)

lemma pool_wf_retest_broken:
  assumes "pool_wf C st" "da_address d \<notin> ready_keys st" "proper C (da_time d)"
  shows "pool_wf C (st\<lparr>broken_endpoints := broken_insert (broken_endpoints st) d\<rparr>)"
  using assms broken_wf_insert [of C "broken_endpoints st" d]
  by (auto simp: pool_wf_def ready_keys_def broken_keys_def)

text \<open>Taking the entry that is due out of the heap.\<close>

lemma pool_wf_pop:
  assumes "pool_wf C st" "d \<in> set (addresses (broken_endpoints st))"
    and "st' = st\<lparr>broken_endpoints := (broken_endpoints st)\<lparr>addresses :=
        remove1 d (addresses (broken_endpoints st))\<rparr>\<rparr>"
  shows "pool_wf C st'" "ready_keys st' = ready_keys st"
    "broken_keys st' = broken_keys st - {da_address d}"
    "da_address d \<notin> ready_keys st'"
proof -
  let ?as = "addresses (broken_endpoints st)"
  have dist: "distinct (map da_address ?as)" using assms(1) by (simp add: pool_wf_def broken_wf_def)
  have keys: "da_address ` set (remove1 d ?as) = da_address ` set ?as - {da_address d}"
    using keys_of_remove_unique [of da_address "mset ?as" d] dist assms(2)
    by (simp del: mset_remove1 add: mset_remove1 [symmetric])
  have sub: "set (remove1 d ?as) \<subseteq> set ?as" by (rule set_remove1_subset)
  with dist have "distinct (map da_address (remove1 d ?as))"
    by (auto simp: distinct_map intro: inj_on_subset)
  note sub = this sub
  show "ready_keys st' = ready_keys st" by (simp add: assms(3) ready_keys_def)
  show "broken_keys st' = broken_keys st - {da_address d}" using keys by (simp add: assms(3) broken_keys_def)
  show "da_address d \<notin> ready_keys st'"
    using assms by (auto simp: pool_wf_def ready_keys_def broken_keys_def)
  show "pool_wf C st'"
    using assms(1,3) sub by (auto simp: pool_wf_def broken_wf_def list_all_iff ready_keys_def broken_keys_def)
qed

lemma recheck_spec:
  assumes ok: "env_ok ts env"
    and cnt: "\<not> overflow_checks env \<or> unat (delayed_failed_times (clock env) d) < 255"
  obtains (ready) ch ep where "recheck_broken_endpoint env d st =
        Inr (st\<lparr>ready_clients := ready_add (ready_clients st) (da_address d) ch\<rparr>)"
      "build_endpoint env (da_address d) = Inr ep" "env_connect env 0 ep = Some ch"
  | (broken) e ep where "recheck_broken_endpoint env d st =
        Inr (st\<lparr>broken_endpoints := broken_insert (broken_endpoints st) e\<rparr>)"
      "da_address e = da_address d" "proper (clock env) (da_time e)"
      "delayed_failed_times (clock env) e = delayed_failed_times (clock env) d + 1"
      "build_endpoint env (da_address d) = Inr ep" "env_connect env 0 ep = None"
      "\<bar>ts (da_time e) - (ts (env_now env 0) + int (calculate_backoff (delayed_failed_times (clock env) d + 1)))\<bar> \<le> 255"
proof -
  obtain ep where ep: "build_endpoint env (da_address d) = Inr ep" using env_okD(3) [OF ok] by blast
  show thesis
  proof (cases "env_connect env 0 ep")
    case (Some ch)
    with ep show thesis by (intro ready [of ch ep]) (simp_all add: recheck_broken_endpoint_def)
  next
    case None
    obtain e where "add_address_with_current_fail_count (clock env) (env_now env 0) (broken_endpoints st)
          (da_address d) (delayed_failed_times (clock env) d + 1) = Inr (broken_insert (broken_endpoints st) e)"
      "da_address e = da_address d" "proper (clock env) (da_time e)"
      "delayed_failed_times (clock env) e = delayed_failed_times (clock env) d + 1"
      "\<bar>ts (da_time e) - (ts (env_now env 0) + int (calculate_backoff (delayed_failed_times (clock env) d + 1)))\<bar> \<le> 255"
      by (rule add_fail_count_spec [OF env_okD(1,2) [OF ok]])
    moreover have "re_add_address (overflow_checks env) (clock env) (env_now env 0) (broken_endpoints st) d =
        add_address_with_current_fail_count (clock env) (env_now env 0) (broken_endpoints st)
          (da_address d) (delayed_failed_times (clock env) d + 1)"
      using cnt by (intro re_add_address_eq) blast
    ultimately show thesis
      using ep None by (intro broken [of e ep]) (simp_all add: recheck_broken_endpoint_def)
  qed
qed

text \<open>What a round of the retesting task does to a well-formed pool.\<close>

lemma doctor_round_cases:
  assumes "env_ok ts env" "pool_wf (clock env) st" "proper (clock env) now"
    and "\<not> overflow_checks env \<or>
      (\<forall>d \<in> set (addresses (broken_endpoints st)). unat (delayed_failed_times (clock env) d) < 255)"
  obtains (idle) "doctor_round env now st = Inr None"
      "addresses (broken_endpoints st) = [] \<or> (\<exists>d \<in> set (addresses (broken_endpoints st)). now < da_time d)"
  | (ready) d ch ep st' where "heap_peek (addresses (broken_endpoints st)) = Some d" "da_time d \<le> now"
      "doctor_round env now st = Inr (Some st')" "pool_wf (clock env) st'"
      "ready_keys st' = insert (da_address d) (ready_keys st)"
      "addresses (broken_endpoints st') = remove1 d (addresses (broken_endpoints st))"
      "build_endpoint env (da_address d) = Inr ep" "env_connect env 0 ep = Some ch"
  | (broken) d e ep st' where "heap_peek (addresses (broken_endpoints st)) = Some d" "da_time d \<le> now"
      "doctor_round env now st = Inr (Some st')" "pool_wf (clock env) st'"
      "ready_keys st' = ready_keys st"
      "addresses (broken_endpoints st') =
         filter (\<lambda>x. da_address x \<noteq> da_address d) (remove1 d (addresses (broken_endpoints st))) @ [e]"
      "da_address e = da_address d" "delayed_failed_times (clock env) e = delayed_failed_times (clock env) d + 1"
      "build_endpoint env (da_address d) = Inr ep" "env_connect env 0 ep = None"
      "\<bar>ts (da_time e) - (ts (env_now env 0) + int (calculate_backoff (delayed_failed_times (clock env) d + 1)))\<bar> \<le> 255"
      "proper (clock env) (da_time e)"
proof -
  have wf: "broken_wf (clock env) (broken_endpoints st)" using assms(2) by (simp add: pool_wf_def)
  show thesis
  proof (cases rule: next_broken_pass_cases
      [OF env_okD(1) [OF assms(1)] wf assms(3), case_names empty sleep return])
    case (return d)
    define st1 where "st1 = st\<lparr>broken_endpoints := (broken_endpoints st)\<lparr>addresses :=
        remove1 d (addresses (broken_endpoints st))\<rparr>\<rparr>"
    from heap_peek_SomeD [OF return(1)] have d: "d \<in> set (addresses (broken_endpoints st))" by simp
    note pop = pool_wf_pop [OF assms(2) d st1_def]
    have round: "doctor_round env now st = map_ok Some (recheck_broken_endpoint env d st1)"
      using return(3) by (simp add: doctor_round_def st1_def)
    from assms(4) d have cnt: "\<not> overflow_checks env \<or> unat (delayed_failed_times (clock env) d) < 255"
      by blast
    show thesis
    proof (cases rule: recheck_spec [OF assms(1) cnt, of st1, case_names ready broken])
      case (ready ch ep)
      define st2 where "st2 = st1\<lparr>ready_clients := ready_add (ready_clients st1) (da_address d) ch\<rparr>"
      have "pool_wf (clock env) st2"
        unfolding st2_def using pop by (intro pool_wf_retest_ready) auto
      moreover have "ready_keys st2 = insert (da_address d) (ready_keys st)"
        using pop by (simp add: st2_def ready_keys_def ready_add_def)
      ultimately show thesis
        using round ready return by (intro that(2) [of d st2 ep ch]) (simp_all add: st2_def st1_def)
    next
      case (broken e ep)
      define st2 where "st2 = st1\<lparr>broken_endpoints := broken_insert (broken_endpoints st1) e\<rparr>"
      have "pool_wf (clock env) st2"
        unfolding st2_def using pop broken by (intro pool_wf_retest_broken) auto
      moreover have "ready_keys st2 = ready_keys st" using pop(2) by (simp add: st2_def ready_keys_def)
      ultimately show thesis
        using round broken return by (intro that(3) [of d st2 e ep]) (simp_all add: st2_def st1_def)
    qed
  qed (rule that(1), auto simp: doctor_round_def dest: heap_peek_SomeD)+
qed

section \<open>Properties\<close>

text \<open>
  An environment for concrete runs: times are nanoseconds, an endpoint and its channel are
  the address, the clock stands at \<open>now\<close>, the domain resolves to \<open>as\<close>, and the servers that
  satisfy \<open>up\<close> accept connections.
\<close>

definition nanos_env ::
  "int \<Rightarrow> ip_addr list \<Rightarrow> (ip_addr \<Rightarrow> bool) \<Rightarrow> (int, ip_addr, ip_addr, unit) pool_env" where
  "nanos_env now as up =
     \<lparr>clock = utc_nanos, build_endpoint = Inr, domain_name = Inr ''grpc.example'',
      to_socket_addrs = (\<lambda>_ _. Inr (map (\<lambda>a. \<lparr>sa_ip = a, sa_port = 0\<rparr>) as)),
      env_now = (\<lambda>_. now), env_connect = (\<lambda>_ a. if up a then Some a else None),
      overflow_checks = True\<rparr>"

lemma nanos_env_simps [simp]:
  "clock (nanos_env now as up) = utc_nanos" "build_endpoint (nanos_env now as up) = Inr"
  "domain_name (nanos_env now as up) = Inr ''grpc.example''"
  "env_now (nanos_env now as up) i = now"
  "env_connect (nanos_env now as up) i a = (if up a then Some a else None)"
  "overflow_checks (nanos_env now as up)"
  by (simp_all add: nanos_env_def)

lemma nanos_env_resolves [simp]: "resolves_to (nanos_env now as up) bs \<longleftrightarrow> bs = as"
  by (auto simp: resolves_to_def nanos_env_def resolve_domain_def comp_def)

lemma nanos_env_ok [simp]:
  "backoff_fits utc_nanos now \<Longrightarrow> env_ok (\<lambda>t. t) (nanos_env now as up)"
  by (simp add: env_ok_def utc_nanos_laws)

lemma pool_initial_simps [simp]:
  "channels (ready_clients pool_initial) = []" "addresses (broken_endpoints pool_initial) = []"
  "ready_keys pool_initial = {}" "broken_keys pool_initial = {}"
  "ready_find (ready_clients pool_initial) a = None"
  "broken_get_address (broken_endpoints pool_initial) a = None"
  "pool_wf C pool_initial" "broken_wf C (broken_endpoints pool_initial)"
  by (simp_all add: pool_initial_def ready_default_def broken_default_def ready_keys_def
      broken_keys_def pool_wf_def broken_wf_def ready_find_eq_map_of broken_get_address_def)

definition nanos_pool :: "ip_addr list \<Rightarrow> int delayed_address list \<Rightarrow> (int, ip_addr) pool" where
  "nanos_pool as ds =
     \<lparr>ready_clients = \<lparr>channels = map (\<lambda>a. (a, a)) as, index = 0\<rparr>,
      broken_endpoints = \<lparr>addresses = ds, permit = False\<rparr>\<rparr>"

lemma nanos_pool_simps [simp]:
  "channels (ready_clients (nanos_pool as ds)) = map (\<lambda>a. (a, a)) as"
  "addresses (broken_endpoints (nanos_pool as ds)) = ds"
  "ready_keys (nanos_pool as ds) = set as" "broken_keys (nanos_pool as ds) = da_address ` set ds"
  by (simp_all add: nanos_pool_def ready_keys_def broken_keys_def image_image)

lemma nanos_pool_find [simp]:
  "ready_find (ready_clients (nanos_pool as ds)) a = (if a \<in> set as then Some a else None)"
  by (simp add: ready_find_eq_map_of map_of_map_restrict)

lemma nanos_pool_wf [simp]:
  "broken_wf utc_nanos (broken_endpoints (nanos_pool as ds)) \<longleftrightarrow> distinct (map da_address ds)"
  "pool_wf utc_nanos (nanos_pool as ds) \<longleftrightarrow>
     distinct as \<and> distinct (map da_address ds) \<and> set as \<inter> da_address ` set ds = {}"
  by (simp_all add: pool_wf_def broken_wf_def comp_def list_all_iff)

lemma nanos_doctor_round:
  "t \<le> now \<Longrightarrow> up a \<Longrightarrow> doctor_round (nanos_env now as up) now (nanos_pool bs [nanos_entry t a]) =
     Inr (Some (nanos_pool (bs @ [a]) []))"
  by (simp add: doctor_round_def next_broken_pass_def heap_peek_def heap_pop_def nanos_pool_def
      recheck_broken_endpoint_def ready_add_def)

text \<open>
  C7: when the name resolves to distinct addresses, a DNS check that nothing interrupts ends
  without a panic in a well-formed pool whose ready and broken addresses together are
  exactly the resolved ones: new servers are taken in, gone servers are dropped, and
  duplicate channels a pool had before are gone.
\<close>

theorem check_dns_partitions:
  assumes "env_ok ts env" "resolves_to env as" "distinct as"
    and "broken_wf (clock env) (broken_endpoints st)"
  shows "\<exists>st'. check_dns env st = Inr st' \<and> pool_wf (clock env) st' \<and>
    ready_keys st' \<union> broken_keys st' = set as"
  using check_dns_partition [OF assms] by blast

theorem check_dns_partitions_witness:
  "\<exists>st'. check_dns (nanos_env 0 [V4 1, V4 2] (\<lambda>a. a = V4 1)) pool_initial = Inr st' \<and>
    pool_wf utc_nanos st' \<and> ready_keys st' \<union> broken_keys st' = {V4 1, V4 2}"
  using check_dns_partitions [of "\<lambda>t. t" "nanos_env 0 [V4 1, V4 2] (\<lambda>a. a = V4 1)" _ pool_initial] by simp

text \<open>
  C8: what the check decides for each resolved address: a ready address keeps the very
  channel it had, a broken one keeps its entry with its failure count and test time and is
  not tried again, and any other is connected to: it becomes ready with the new channel, or
  broken with failure count one.
\<close>

theorem check_dns_keeps_known:
  assumes "env_ok ts env" "resolves_to env as" "distinct as"
    and "broken_wf (clock env) (broken_endpoints st)" "k < length as"
  shows "\<exists>st' ep. check_dns env st = Inr st' \<and> build_endpoint env (as ! k) = Inr ep \<and>
    (case ready_find (ready_clients st) (as ! k) of
       Some ch \<Rightarrow> ready_find (ready_clients st') (as ! k) = Some ch
     | None \<Rightarrow>
         (case broken_get_address (broken_endpoints st) (as ! k) of
            Some d \<Rightarrow> as ! k \<notin> ready_keys st' \<and> broken_get_address (broken_endpoints st') (as ! k) = Some d
          | None \<Rightarrow>
              (case env_connect env k ep of
                 Some ch \<Rightarrow> ready_find (ready_clients st') (as ! k) = Some ch
               | None \<Rightarrow> \<exists>d. broken_get_address (broken_endpoints st') (as ! k) = Some d \<and>
                   delayed_failed_times (clock env) d = 1)))"
  by (rule check_dns_decides [OF assms])

theorem check_dns_keeps_known_witness:
  "\<exists>st' ep. check_dns (nanos_env 0 [V4 1, V4 2] (\<lambda>a. a = V4 1)) pool_initial = Inr st' \<and>
    build_endpoint (nanos_env 0 [V4 1, V4 2] (\<lambda>a. a = V4 1)) (V4 1) = Inr ep \<and>
    ready_find (ready_clients st') (V4 1) = Some ep"
  using check_dns_keeps_known [of "\<lambda>t. t" "nanos_env 0 [V4 1, V4 2] (\<lambda>a. a = V4 1)" "[V4 1, V4 2]" pool_initial 0]
  by simp

text \<open>
  A lookup that fails leaves the pool as it is, but a lookup that succeeds with no
  addresses empties both collections.
\<close>

lemma check_dns_error_and_empty:
  assumes "domain_name env = Inr d"
  shows "(\<forall>e. resolve_domain (to_socket_addrs env) d = Inl e \<longrightarrow> check_dns env st = Inr st) \<and>
    (resolve_domain (to_socket_addrs env) d = Inr [] \<longrightarrow>
      (\<exists>st'. check_dns env st = Inr st' \<and> ready_keys st' = {} \<and> broken_keys st' = {}))"
  using assms by (auto simp: check_dns_def ready_keys_def broken_keys_def)



text \<open>
  C19: an uninterrupted report takes the address out of the ready channels and gives it one
  broken entry with failure count one, due in a second; every other address keeps its
  channel or its entry, and the pool stays well formed.
\<close>

theorem report_broken_moves:
  assumes "env_ok ts env" "pool_wf (clock env) st"
  shows "\<exists>st' d. report_broken env a st = Inr st' \<and> pool_wf (clock env) st' \<and>
    ready_find (ready_clients st') = (ready_find (ready_clients st))(a := None) \<and>
    broken_get_address (broken_endpoints st') = (broken_get_address (broken_endpoints st))(a \<mapsto> d) \<and>
    delayed_failed_times (clock env) d = 1 \<and> \<bar>ts (da_time d) - (ts (env_now env 0) + 1000000000)\<bar> \<le> 255"
proof -
  obtain d where rep: "report_broken env a st = Inr (st\<lparr>ready_clients := ready_remove (ready_clients st) a,
       broken_endpoints := broken_insert (broken_endpoints st) d\<rparr>)" and d: "da_address d = a"
    "proper (clock env) (da_time d)" "delayed_failed_times (clock env) d = 1"
    "\<bar>ts (da_time d) - (ts (env_now env 0) + 1000000000)\<bar> \<le> 255"
    by (rule report_broken_spec [OF assms(1)])
  have "ready_find (ready_remove (ready_clients st) a) = (ready_find (ready_clients st))(a := None)"
    using assms(2) by (intro ready_find_remove_unique) (simp add: pool_wf_def)
  moreover have "broken_get_address (broken_insert (broken_endpoints st) d) =
      (broken_get_address (broken_endpoints st))(a \<mapsto> d)"
    using broken_get_insert assms(2) d(1) by (auto simp: pool_wf_def)
  ultimately show ?thesis
    using rep d pool_wf_report [OF assms(2) d(1,2)] by auto
qed

theorem report_broken_moves_witness:
  "\<exists>st' d. report_broken (nanos_env 0 [] (\<lambda>_. True)) (V4 1) (nanos_pool [V4 1, V4 2] []) = Inr st' \<and>
    pool_wf utc_nanos st' \<and> ready_find (ready_clients st') (V4 1) = None \<and>
    ready_find (ready_clients st') (V4 2) = Some (V4 2) \<and>
    broken_get_address (broken_endpoints st') (V4 1) = Some d \<and>
    delayed_failed_times utc_nanos d = 1 \<and> \<bar>da_time d - 1000000000\<bar> \<le> 255"
  using report_broken_moves [of "\<lambda>t. t" "nanos_env 0 [] (\<lambda>_. True)" "nanos_pool [V4 1, V4 2] []" "V4 1"]
  by auto

text \<open>
  A round of the task that retests broken addresses either has to wait or takes one
  entry and loses nothing: its address becomes ready, or it gets an entry again with one
  failure more (modulo 256, which a build with overflow checks never reaches); the pool
  stays well formed and covers the same addresses.
\<close>

lemma doctor_round_moves_one:
  assumes "env_ok ts env" "pool_wf (clock env) st" "proper (clock env) now"
    and "\<not> overflow_checks env \<or>
      (\<forall>d \<in> set (addresses (broken_endpoints st)). unat (delayed_failed_times (clock env) d) < 255)"
  shows "doctor_round env now st = Inr None \<or>
    (\<exists>st'. doctor_round env now st = Inr (Some st') \<and> pool_wf (clock env) st' \<and>
      (\<exists>d \<in> set (addresses (broken_endpoints st)). da_time d \<le> now \<and>
        (ready_keys st' = insert (da_address d) (ready_keys st) \<and>
           broken_keys st' = broken_keys st - {da_address d} \<or>
         ready_keys st' = ready_keys st \<and> broken_keys st' = broken_keys st \<and>
           (\<exists>e. broken_get_address (broken_endpoints st') (da_address d) = Some e \<and>
              delayed_failed_times (clock env) e = delayed_failed_times (clock env) d + 1))))"
proof (cases rule: doctor_round_cases [OF assms, case_names idle ready broken])
  case (ready d ch ep st')
  then have d: "d \<in> set (addresses (broken_endpoints st))" by (auto dest: heap_peek_SomeD)
  have "broken_keys st' = broken_keys st - {da_address d}"
    using pool_wf_pop(3) [OF assms(2) d refl] by (simp add: broken_keys_def ready(6))
  with ready d show ?thesis by blast
next
  case (broken d e ep st')
  then have d: "d \<in> set (addresses (broken_endpoints st))" by (auto dest: heap_peek_SomeD)
  have "broken_get_address (broken_endpoints st') (da_address e) = Some e"
    using broken(4) by (intro broken_get_eq [of "clock env"]) (simp_all add: pool_wf_def broken(6))
  then have "\<exists>e. broken_get_address (broken_endpoints st') (da_address d) = Some e \<and>
      delayed_failed_times (clock env) e = delayed_failed_times (clock env) d + 1"
    using broken(7,8) by auto
  moreover have "broken_keys st' = broken_keys st"
    using pool_wf_pop(3) [OF assms(2) d refl] d broken(7) by (auto simp: broken_keys_def broken(6))
  ultimately show ?thesis using broken d by blast
qed simp

text \<open>How many channels a pool holds for an address after a retest and after a report.\<close>

lemma recheck_connected:
  assumes "build_endpoint env (da_address d) = Inr ep" "env_connect env 0 ep = Some ch"
  shows "recheck_broken_endpoint env d st =
    Inr (st\<lparr>ready_clients := ready_add (ready_clients st) (da_address d) ch\<rparr>)"
  using assms by (simp add: recheck_broken_endpoint_def)

lemma ready_count_add [simp]:
  "ready_count (ready_add rc a ch) b = (if b = a then Suc (ready_count rc b) else ready_count rc b)"
  by (simp add: ready_count_def ready_add_def)

lemma ready_count_keys: "a \<in> ready_keys st \<longleftrightarrow> 0 < ready_count (ready_clients st) a"
  by (force simp: ready_keys_def ready_count_def filter_empty_conv)

text \<open>
  C15: \<open>recheck_broken_endpoint\<close> adds its channel without looking whether the address is
  ready.  If the address became ready while the retest was under way (a DNS check connected
  to it, or another retest of the same entry succeeded), the pool then holds two channels
  for it, and a report of the address as broken takes out only one: it is handed out again
  although it is among the broken ones.
\<close>

theorem late_recheck_duplicates:
  assumes "env_ok ts env" "build_endpoint env (da_address d) = Inr ep" "env_connect env 0 ep = Some ch"
    and "da_address d \<in> ready_keys st"
  shows "\<exists>st' st''. recheck_broken_endpoint env d st = Inr st' \<and>
    ready_count (ready_clients st') (da_address d) = ready_count (ready_clients st) (da_address d) + 1 \<and>
    report_broken env (da_address d) st' = Inr st'' \<and>
    da_address d \<in> ready_keys st'' \<inter> broken_keys st''"
proof -
  let ?a = "da_address d"
  define st1 where "st1 = st\<lparr>ready_clients := ready_add (ready_clients st) ?a ch\<rparr>"
  obtain e where rep: "report_broken env ?a st1 = Inr (st1\<lparr>ready_clients := ready_remove (ready_clients st1) ?a,
       broken_endpoints := broken_insert (broken_endpoints st1) e\<rparr>)" and e: "da_address e = ?a"
    by (rule report_broken_spec [OF assms(1)])
  have "recheck_broken_endpoint env d st = Inr st1"
    unfolding st1_def by (rule recheck_connected [OF assms(2,3)])
  moreover have "ready_count (ready_clients st1) ?a = ready_count (ready_clients st) ?a + 1"
    by (simp add: st1_def)
  ultimately show ?thesis
    using rep e assms(4) by (auto simp: ready_count_keys ready_count_remove broken_keys_def)
qed

theorem late_recheck_duplicates_witness:
  "\<exists>st' st''. recheck_broken_endpoint (nanos_env 0 [] (\<lambda>_. True)) (nanos_entry 1 (V4 1)) (nanos_pool [V4 1] []) = Inr st' \<and>
    ready_count (ready_clients st') (V4 1) = 2 \<and>
    report_broken (nanos_env 0 [] (\<lambda>_. True)) (V4 1) st' = Inr st'' \<and>
    V4 1 \<in> ready_keys st'' \<inter> broken_keys st''"
  using late_recheck_duplicates [of "\<lambda>t. t" "nanos_env 0 [] (\<lambda>_. True)" "nanos_entry 1 (V4 1)" "V4 1" "V4 1"
      "nanos_pool [V4 1] []"]
  by (simp add: ready_count_def numeral_2_eq_2)

end
