(* ===== verification/Recovery.thy ===== *)
theory Recovery
  imports Pool
begin

text \<open>
  What the background tasks of \<open>soda-pool/src/pool.rs\<close> achieve over time, whatever their
  schedule: when all broken servers are up again the retesting task makes all of them
  ready, but a server that stays down keeps it from ever retesting another that is up.
\<close>

section \<open>Schedules\<close>

text \<open>
  A turn of one of the tasks with what it meets outside: a round of the retesting task, whose
  wait has ended at the given time, or an uninterrupted DNS check.
\<close>

datatype ('t, 'ep, 'ch, 'ioe) turn =
    DoctorTurn "('t, 'ep, 'ch, 'ioe) pool_env" 't
  | DnsTurn "('t, 'ep, 'ch, 'ioe) pool_env"

fun background_turn ::
  "('t, 'ep, 'ch, 'ioe) turn \<Rightarrow> ('t::linorder, 'ch) pool \<Rightarrow> ('t, 'ch) pool may_panic" where
  "background_turn (DoctorTurn env now) st =
     bind_res (doctor_round env now st) (\<lambda>r. Inr (case r of None \<Rightarrow> st | Some st' \<Rightarrow> st'))"
| "background_turn (DnsTurn env) st = check_dns env st"

fun background_run ::
  "('t, 'ep, 'ch, 'ioe) turn list \<Rightarrow> ('t::linorder, 'ch) pool \<Rightarrow> ('t, 'ch) pool may_panic" where
  "background_run [] st = Inr st"
| "background_run (t # ts) st = bind_res (background_turn t st) (background_run ts)"

section \<open>Starvation\<close>

text \<open>
  \<open>a\<close> has the entry \<open>d\<close>, and \<open>b\<close> has one that is due later.
\<close>

definition starving ::
  "'t chrono \<Rightarrow> 't delayed_address \<Rightarrow> ip_addr \<Rightarrow> ('t::linorder, 'ch) pool \<Rightarrow> bool" where
  "starving C d b st \<longleftrightarrow> pool_wf C st \<and> d \<in> set (addresses (broken_endpoints st)) \<and>
     (\<exists>e \<in> set (addresses (broken_endpoints st)). da_address e = b \<and> da_time d < da_time e)"

text \<open>
  Turns in which the server at \<open>b\<close> is down, the name resolves to both addresses or not at
  all, and the clock does not go back within a retest.
\<close>

definition down_turn ::
  "('t::linorder \<Rightarrow> int) \<Rightarrow> 't chrono \<Rightarrow> ip_addr \<Rightarrow> ip_addr \<Rightarrow> ('t, 'ep, 'ch, 'ioe) turn \<Rightarrow> bool" where
  "down_turn ts C a b t \<longleftrightarrow>
     (case t of
        DoctorTurn env now \<Rightarrow> env_ok ts env \<and> clock env = C \<and> \<not> overflow_checks env \<and> proper C now \<and>
          ts now \<le> ts (env_now env 0) \<and>
          (\<forall>ep. build_endpoint env b = Inr ep \<longrightarrow> env_connect env 0 ep = None)
      | DnsTurn env \<Rightarrow> env_ok ts env \<and> clock env = C \<and>
          ((\<exists>as. resolves_to env as \<and> distinct as \<and> a \<in> set as \<and> b \<in> set as) \<or>
           (\<exists>d e. domain_name env = Inr d \<and> resolve_domain (to_socket_addrs env) d = Inl e)))"

lemma entry_unique:
  "pool_wf C st \<Longrightarrow> d \<in> set (addresses (broken_endpoints st)) \<Longrightarrow> e \<in> set (addresses (broken_endpoints st)) \<Longrightarrow>
    da_address d = da_address e \<Longrightarrow> d = e"
  by (auto simp: pool_wf_def broken_wf_def distinct_map dest: inj_onD)

lemma later_is_greater: "da_time d < da_time e \<Longrightarrow> \<not> e \<le> d"
  using da_time_mono [of e d] by auto

lemma backoff_at_least: "1000000000 \<le> int (calculate_backoff n)"
  by (simp add: calculate_backoff_eq)

text \<open>A failed retest puts an address behind the time at which it was due.\<close>

lemma readded_later:
  assumes "chrono_laws C ts" "proper C t" "proper C now" "proper C t'" "t \<le> now" "ts now \<le> ts retest"
    and "\<bar>ts t' - (ts retest + int (calculate_backoff n))\<bar> \<le> 255"
  shows "t < t'"
proof -
  have "ts t \<le> ts now" using assms(5) chrono_less [OF assms(1,3,2)] by (simp add: not_less [symmetric])
  also have "ts now < ts t'" using assms(6,7) backoff_at_least [of n] by linarith
  finally show ?thesis using chrono_less [OF assms(1,2,4)] by simp
qed

lemma starving_doctor:
  assumes "starving C d b st" "down_turn ts C (da_address d) b (DoctorTurn env now)"
  shows "\<exists>st'. background_turn (DoctorTurn env now) st = Inr st' \<and> starving C d b st'"
proof -
  obtain e where wf: "pool_wf C st" and d: "d \<in> set (addresses (broken_endpoints st))"
    and e: "e \<in> set (addresses (broken_endpoints st))" "da_address e = b" "da_time d < da_time e"
    using assms(1) by (auto simp: starving_def)
  have env: "env_ok ts env" "clock env = C" "\<not> overflow_checks env" "proper C now"
      "ts now \<le> ts (env_now env 0)" and down: "\<And>ep. build_endpoint env b = Inr ep \<Longrightarrow> env_connect env 0 ep = None"
    using assms(2) by (auto simp: down_turn_def)
  have laws: "chrono_laws C ts" using env_okD(1) [OF env(1)] env(2) by simp
  have wf': "pool_wf (clock env) st" "proper (clock env) now" using wf env by simp_all
  have peek: "x \<noteq> d" "x = e \<or> da_address x \<noteq> b" "da_address x \<noteq> da_address d"
    if "heap_peek (addresses (broken_endpoints st)) = Some x" for x
    using heap_peek_SomeD [OF that] later_is_greater [OF e(3)] entry_unique [OF wf, of x] d e by auto
  show ?thesis
  proof (cases rule: doctor_round_cases [OF env(1) wf'(1,2), case_names checks idle ready broken])
    case idle
    with assms(1) show ?thesis by simp
  next
    case (ready x ch ep st')
    with down e(2) have "x \<noteq> e" "da_address x \<noteq> b" by auto
    with ready peek(1) [OF ready(1)] d e have "starving C d b st'"
      using env(2) unfolding starving_def by (intro conjI bexI [of _ e]) auto
    with ready(3) show ?thesis by auto
  next
    case (broken x y ep st')
    note p = peek [OF broken(1)]
    have d': "d \<in> set (addresses (broken_endpoints st'))" using d p(1,3) by (simp add: broken(6))
    have later: "\<exists>z \<in> set (addresses (broken_endpoints st')). da_address z = b \<and> da_time d < da_time z"
    proof (cases "da_address x = b")
      case False
      then have "e \<noteq> x" using e(2) by auto
      with False e have "e \<in> set (addresses (broken_endpoints st'))" by (simp add: broken(6))
      with e show ?thesis by blast
    next
      case True
      then have "x = e" using p(2) by blast
      have "proper C (da_time e)" using wf e(1) by (auto simp: pool_wf_def broken_wf_def list_all_iff)
      then have "da_time e < da_time y"
        using broken(2,11,12) \<open>x = e\<close> env by (intro readded_later [OF laws]) auto
      then have "da_time d < da_time y" using e(3) by simp
      then show ?thesis using True broken(7) by (intro bexI [of _ y]) (simp_all add: broken(6))
    qed
    have "starving C d b st'" using broken(4) env(2) d' later by (simp add: starving_def)
    with broken(3) show ?thesis by auto
  qed (use env in simp)
qed

lemma starving_dns:
  assumes "starving C d b st" "down_turn ts C (da_address d) b (DnsTurn env)"
  shows "\<exists>st'. background_turn (DnsTurn env) st = Inr st' \<and> starving C d b st'"
proof -
  obtain e where wf: "pool_wf C st" and d: "d \<in> set (addresses (broken_endpoints st))"
    and e: "e \<in> set (addresses (broken_endpoints st))" "da_address e = b" "da_time d < da_time e"
    using assms(1) by (auto simp: starving_def)
  have env: "env_ok ts env" "clock env = C" using assms(2) by (auto simp: down_turn_def)
  consider as where "resolves_to env as" "distinct as" "da_address d \<in> set as" "b \<in> set as"
    | dn err where "domain_name env = Inr dn" "resolve_domain (to_socket_addrs env) dn = Inl err"
    using assms(2) by (auto simp: down_turn_def)
  then show ?thesis
  proof cases
    case 1
    have be: "broken_wf (clock env) (broken_endpoints st)" using wf env(2) by (simp add: pool_wf_def)
    obtain bad where run: "check_dns env st = Inr (check_dns_store
         (scan_good env (\<lambda>_. ready_clients st) (\<lambda>_. broken_endpoints st) as, bad) st)"
      and bad: "scan_bad ts env (\<lambda>_. ready_clients st) (\<lambda>_. broken_endpoints st) as bad"
      by (rule check_dns_run [OF env(1) 1(1)])
    define st' where "st' = check_dns_store
         (scan_good env (\<lambda>_. ready_clients st) (\<lambda>_. broken_endpoints st) as, bad) st"
    have wf': "pool_wf C st'" unfolding st'_def using check_dns_store_wf [OF bad 1(2) be] env(2) by simp
    have keep: "x \<in> set (addresses (broken_endpoints st'))"
      if "x \<in> set (addresses (broken_endpoints st))" "da_address x \<in> set as" for x
    proof -
      note x = that
      obtain k where k: "k < length as" "as ! k = da_address x" using x(2) by (auto simp: in_set_conv_nth)
      have "da_address x \<in> broken_keys st" using x(1) by (simp add: broken_keys_def)
      then have "da_address x \<notin> ready_keys st" using wf by (auto simp: pool_wf_def)
      then have "ready_find (ready_clients st) (da_address x) = None" by (simp add: ready_keys_find)
      moreover have "broken_get_address (broken_endpoints st) (da_address x) = Some x"
        using broken_get_eq [OF _ x(1), of C] wf by (simp add: pool_wf_def)
      ultimately have "broken_get_address (broken_endpoints st') (da_address x) = Some x"
        using check_dns_decides [OF env(1) 1(1,2) be k(1)] run k(2) by (auto simp: st'_def)
      then show ?thesis by (auto simp: broken_get_address_def find_Some_iff)
    qed
    have "starving C d b st'"
      using wf' keep [OF d] keep [OF e(1)] 1(3,4) e unfolding starving_def by blast
    with run show ?thesis by (simp add: st'_def)
  next
    case 2
    with assms(1) show ?thesis by (simp add: check_dns_def)
  qed
qed

lemma starving_run:
  assumes "list_all (down_turn ts C (da_address d) b) turns"
  shows "starving C d b st \<Longrightarrow> \<exists>st'. background_run turns st = Inr st' \<and> starving C d b st'"
  using assms
proof (induction turns arbitrary: st)
  case (Cons t turns)
  have "\<exists>st'. background_turn t st = Inr st' \<and> starving C d b st'"
    using Cons.prems starving_doctor starving_dns by (cases t) auto
  with Cons show ?case by auto
qed simp

section \<open>Recovery\<close>

text \<open>Rounds of the retesting task alone, while all servers accept connections.\<close>

definition up_round :: "('t::linorder \<Rightarrow> int) \<Rightarrow> 't chrono \<Rightarrow> ('t, 'ep, 'ch, 'ioe) pool_env \<times> 't \<Rightarrow> bool" where
  "up_round ts C = (\<lambda>(env, now). env_ok ts env \<and> clock env = C \<and> \<not> overflow_checks env \<and> proper C now \<and>
     (\<forall>ep. env_connect env 0 ep \<noteq> None))"

definition all_due :: "'t \<Rightarrow> ('t::linorder, 'ch) pool \<Rightarrow> bool" where
  "all_due T st \<longleftrightarrow> (\<forall>d \<in> set (addresses (broken_endpoints st)). da_time d \<le> T)"

text \<open>A round either finds nothing that is due or makes one address ready.\<close>

lemma recovering_round:
  assumes "up_round ts C (env, now)" "pool_wf C st" "all_due T st"
  obtains st' where "background_turn (DoctorTurn env now) st = Inr st'" "pool_wf C st'" "all_due T st'"
    "ready_keys st' \<union> broken_keys st' = ready_keys st \<union> broken_keys st"
    "length (addresses (broken_endpoints st')) =
       length (addresses (broken_endpoints st)) - (if st' = st then 0 else 1)"
    "T \<le> now \<Longrightarrow> addresses (broken_endpoints st) \<noteq> [] \<Longrightarrow> st' \<noteq> st"
proof -
  have env: "env_ok ts env" "clock env = C" "\<not> overflow_checks env" "proper C now"
      and up: "\<And>ep. env_connect env 0 ep \<noteq> None"
    using assms(1) by (auto simp: up_round_def)
  have wf': "pool_wf (clock env) st" "proper (clock env) now" using assms(2) env by simp_all
  show thesis
  proof (cases rule: doctor_round_cases [OF env(1) wf'(1,2), case_names checks idle ready broken])
    case idle
    then show thesis using assms(2,3) by (intro that [of st]) (auto simp: all_due_def)
  next
    case (ready d ch ep st')
    have d: "d \<in> set (addresses (broken_endpoints st))" using heap_peek_SomeD [OF ready(1)] by simp
    have bk: "broken_keys st' = broken_keys st - {da_address d}"
      using pool_wf_pop(3) [OF assms(2) d refl] by (simp add: broken_keys_def ready(6))
    have len: "length (addresses (broken_endpoints st')) = length (addresses (broken_endpoints st)) - 1"
      using d by (simp add: ready(6) length_remove1)
    moreover have "st' \<noteq> st" using len length_pos_if_in_set [OF d] by (metis diff_less less_irrefl zero_less_one)
    moreover have "all_due T st'" using assms(3) set_remove1_subset [of d] by (auto simp: all_due_def ready(6))
    moreover have "ready_keys st' \<union> broken_keys st' = ready_keys st \<union> broken_keys st"
      using d ready(5) bk by (auto simp: broken_keys_def)
    ultimately show thesis using ready(3,4) env(2) by (intro that [of st']) simp_all
  next
    case (broken d e ep st')
    then show thesis using up [of ep] by simp
  qed (use env in simp)
qed

text \<open>After \<open>T\<close>, as many rounds as there are entries empty the collection.\<close>

lemma recovering_run:
  assumes "list_all (up_round ts C) rounds"
  shows "pool_wf C st \<Longrightarrow> all_due T st \<Longrightarrow>
    length (addresses (broken_endpoints st)) \<le> length (filter (\<lambda>(_, now). T \<le> now) rounds) \<Longrightarrow>
    \<exists>st'. background_run (map (\<lambda>(env, now). DoctorTurn env now) rounds) st = Inr st' \<and> pool_wf C st' \<and>
      addresses (broken_endpoints st') = [] \<and> ready_keys st' = ready_keys st \<union> broken_keys st"
  using assms
proof (induction rounds arbitrary: st)
  case Nil
  then show ?case by (simp add: broken_keys_def)
next
  case (Cons r rounds)
  obtain env now where r: "r = (env, now)" by fastforce
  have "up_round ts C (env, now)" using Cons.prems(4) r by simp
  then show ?case
  proof (rule recovering_round [OF _ Cons.prems(1,2)])
    fix st'
    assume st': "background_turn (DoctorTurn env now) st = Inr st'" "pool_wf C st'" "all_due T st'"
      "ready_keys st' \<union> broken_keys st' = ready_keys st \<union> broken_keys st"
      "length (addresses (broken_endpoints st')) =
         length (addresses (broken_endpoints st)) - (if st' = st then 0 else 1)"
      "T \<le> now \<Longrightarrow> addresses (broken_endpoints st) \<noteq> [] \<Longrightarrow> st' \<noteq> st"
    have "length (addresses (broken_endpoints st')) \<le> length (filter (\<lambda>(_, now). T \<le> now) rounds)"
    proof (cases "T \<le> now \<and> addresses (broken_endpoints st) \<noteq> []")
      case True
      then have "st' \<noteq> st" using st'(6) by blast
      with True Cons.prems(3) st'(5) r show ?thesis by simp
    next
      case False
      with Cons.prems(3) st'(5) r show ?thesis by (auto split: if_splits)
    qed
    from Cons.IH [OF st'(2,3) this] Cons.prems(4) st'(1,4) r show ?thesis by auto
  qed
qed

section \<open>Properties\<close>

text \<open>The concrete environment in a build without overflow checks.\<close>

definition lenient_env :: "int \<Rightarrow> ip_addr list \<Rightarrow> (ip_addr \<Rightarrow> bool) \<Rightarrow> (int, ip_addr, ip_addr, unit) pool_env" where
  "lenient_env now as up = (nanos_env now as up)\<lparr>overflow_checks := False\<rparr>"

lemma lenient_env_simps [simp]:
  "clock (lenient_env now as up) = utc_nanos" "build_endpoint (lenient_env now as up) = Inr"
  "env_now (lenient_env now as up) i = now" "\<not> overflow_checks (lenient_env now as up)"
  "env_connect (lenient_env now as up) i a = (if up a then Some a else None)"
  by (simp_all add: lenient_env_def)

lemma lenient_env_resolves [simp]: "resolves_to (lenient_env now as up) bs \<longleftrightarrow> bs = as"
  using nanos_env_resolves [of now as up bs] by (simp add: resolves_to_def lenient_env_def)

lemma lenient_env_ok [simp]: "backoff_fits utc_nanos now \<Longrightarrow> env_ok (\<lambda>t. t) (lenient_env now as up)"
  using nanos_env_ok [of now as up] by (simp add: env_ok_def lenient_env_def)

text \<open>
  C1: however the two background tasks are scheduled and whatever the other servers do, an
  address is never retested while another one, whose entry is due later, stays down: every
  failed retest of the other is put behind it again, and the DNS check leaves broken
  addresses alone.  The first address keeps its entry and is not ready, even if its server
  has long been up and its test time has long passed.
\<close>

theorem retest_starves:
  assumes "pool_wf C st" "broken_get_address (broken_endpoints st) a = Some d"
    and "broken_get_address (broken_endpoints st) b = Some e" "da_time d < da_time e"
    and "list_all (down_turn ts C a b) turns"
  shows "\<exists>st'. background_run turns st = Inr st' \<and>
    broken_get_address (broken_endpoints st') a = Some d \<and> ready_find (ready_clients st') a = None"
proof -
  have d: "d \<in> set (addresses (broken_endpoints st))" "da_address d = a"
    and e: "e \<in> set (addresses (broken_endpoints st))" "da_address e = b"
    using assms(2,3) by (auto simp: broken_get_address_def find_Some_iff)
  have "starving C d b st" unfolding starving_def using assms(1,4) d e by blast
  then obtain st' where st': "background_run turns st = Inr st'" "starving C d b st'"
    using starving_run assms(5) d(2) by blast
  then have wf: "pool_wf C st'" "d \<in> set (addresses (broken_endpoints st'))" by (simp_all add: starving_def)
  then have "broken_get_address (broken_endpoints st') a = Some d"
    using broken_get_eq [of C "broken_endpoints st'" d] d(2) by (simp add: pool_wf_def)
  moreover have "a \<in> broken_keys st'" using wf(2) d(2) by (auto simp: broken_keys_def)
  then have "a \<notin> ready_keys st'" using wf(1) by (auto simp: pool_wf_def)
  ultimately show ?thesis using st'(1) by (auto simp: ready_keys_find)
qed

theorem retest_starves_witness:
  "\<exists>st'. background_run [DoctorTurn (lenient_env 5000000000 [V4 1, V4 2] (\<lambda>a. a = V4 1)) 5000000000,
      DnsTurn (lenient_env 6000000000 [V4 2, V4 1] (\<lambda>a. a = V4 1)),
      DoctorTurn (lenient_env 99000000000 [] (\<lambda>a. a = V4 1)) 98000000000]
      (nanos_pool [] [nanos_entry 0 (V4 1), nanos_entry 1000000000 (V4 2)]) = Inr st' \<and>
    broken_get_address (broken_endpoints st') (V4 1) = Some (nanos_entry 0 (V4 1)) \<and>
    ready_find (ready_clients st') (V4 1) = None"
  by (rule retest_starves [where C = utc_nanos and ts = "\<lambda>t. t" and b = "V4 2" and e = "nanos_entry 1000000000 (V4 2)"])
     (simp_all add: down_turn_def broken_get_address_def nanos_pool_def pool_wf_def broken_wf_def ready_keys_def broken_keys_def)

text \<open>
  C2: when all servers accept connections again, every broken address becomes ready: as soon
  as the retesting task has had as many rounds after the latest test time as there are
  broken addresses, in whatever rounds it had before, none is broken any more and all are
  ready.
\<close>

theorem all_recover:
  assumes "pool_wf C st" "\<And>d. d \<in> set (addresses (broken_endpoints st)) \<Longrightarrow> da_time d \<le> T"
    and "list_all (up_round ts C) rounds"
    and "length (addresses (broken_endpoints st)) \<le> length (filter (\<lambda>(_, now). T \<le> now) rounds)"
  shows "\<exists>st'. background_run (map (\<lambda>(env, now). DoctorTurn env now) rounds) st = Inr st' \<and> pool_wf C st' \<and>
    addresses (broken_endpoints st') = [] \<and> ready_keys st' = ready_keys st \<union> broken_keys st"
  by (rule recovering_run [OF assms(3,1) _ assms(4)]) (simp add: all_due_def assms(2))

theorem all_recover_witness:
  "\<exists>st'. background_run (map (\<lambda>(env, now). DoctorTurn env now)
      [(lenient_env 5000000000 [] (\<lambda>_. True), 5000000000), (lenient_env 71000000000 [] (\<lambda>_. True), 70000000000),
       (lenient_env 72000000000 [] (\<lambda>_. True), 71000000000)])
      (nanos_pool [V4 3] [nanos_entry 0 (V4 1), nanos_entry 64000000000 (V4 2)]) = Inr st' \<and>
    pool_wf utc_nanos st' \<and> addresses (broken_endpoints st') = [] \<and> ready_keys st' = {V4 1, V4 2, V4 3}"
proof -
  have keys: "ready_keys (nanos_pool [V4 3] [nanos_entry 0 (V4 1), nanos_entry 64000000000 (V4 2)]) \<union>
      broken_keys (nanos_pool [V4 3] [nanos_entry 0 (V4 1), nanos_entry 64000000000 (V4 2)]) = {V4 1, V4 2, V4 3}"
    by auto
  show ?thesis
    unfolding keys [symmetric]
    by (rule all_recover [where C = utc_nanos and ts = "\<lambda>t. t" and T = 64000000000])
       (auto simp: up_round_def)
qed

end
