(* ===== verification/Pool_Steps.thy ===== *)
theory Pool_Steps
  imports Pool
begin

text \<open>
  The tasks of \<open>soda-pool/src/pool.rs\<close> between their \<open>await\<close>s.  Each constructor of a
  program counter is a point at which the task may be suspended, with the local variables
  that are live there; one step runs to the next such point.  Every access to the shared
  collections takes their lock for the time of the access only, so it is one step.

  A step takes a \<open>pool_env\<close> of its own: \<open>env_now env 0\<close>, \<open>env_connect env 0\<close> and
  \<open>to_socket_addrs env\<close> are what the clock, the network and the resolver answer in this step.
\<close>

section \<open>The DNS check\<close>

datatype ('t, 'ep, 'ch) check_pc =
    CheckResolve
  | CheckFind "ip_addr list" "(ip_addr \<times> 'ch) list" "'t delayed_address list"
  | CheckGet ip_addr "ip_addr list" "(ip_addr \<times> 'ch) list" "'t delayed_address list"
  | CheckConnect 'ep ip_addr "ip_addr list" "(ip_addr \<times> 'ch) list" "'t delayed_address list"
  | CheckStoreReady "(ip_addr \<times> 'ch) list" "'t delayed_address list"
  | CheckStoreBroken "'t delayed_address list"
  | CheckEnd

fun check_step ::
  "('t, 'ep, 'ch, 'ioe) pool_env \<Rightarrow> ('t, 'ch) pool \<times> ('t, 'ep, 'ch) check_pc \<Rightarrow>
     (('t, 'ch) pool \<times> ('t, 'ep, 'ch) check_pc) may_panic"
where
  "check_step env (st, CheckResolve) =
     bind_res (domain_name env) (\<lambda>domain.
       case resolve_domain (to_socket_addrs env) domain of
         Inl _ \<Rightarrow> Inr (st, CheckEnd)
       | Inr resolved \<Rightarrow> Inr (st, CheckFind resolved [] []))"
| "check_step env (st, CheckFind [] ready broken) = Inr (st, CheckStoreReady ready broken)"
| "check_step env (st, CheckFind (address # rest) ready broken) =
     (case ready_find (ready_clients st) address of
        Some channel \<Rightarrow> Inr (st, CheckFind rest (ready @ [(address, channel)]) broken)
      | None \<Rightarrow> Inr (st, CheckGet address rest ready broken))"
| "check_step env (st, CheckGet address rest ready broken) =
     (case broken_get_address (broken_endpoints st) address of
        Some entry \<Rightarrow> Inr (st, CheckFind rest ready (heap_push broken entry))
      | None \<Rightarrow> map_ok (\<lambda>endpoint. (st, CheckConnect endpoint address rest ready broken))
                 (build_endpoint env address))"
| "check_step env (st, CheckConnect endpoint address rest ready broken) =
     (case env_connect env 0 endpoint of
        Some channel \<Rightarrow> Inr (st, CheckFind rest (ready @ [(address, channel)]) broken)
      | None \<Rightarrow> map_ok (\<lambda>entry. (st, CheckFind rest ready (heap_push broken entry)))
                 (delayed_from_ip (clock env) (env_now env 0) address))"
| "check_step env (st, CheckStoreReady ready broken) =
     Inr (st\<lparr>ready_clients := ready_replace_with (ready_clients st) ready\<rparr>, CheckStoreBroken broken)"
| "check_step env (st, CheckStoreBroken broken) =
     Inr (st\<lparr>broken_endpoints := broken_replace_with (broken_endpoints st) broken\<rparr>, CheckEnd)"
| "check_step env (st, CheckEnd) = Inr (st, CheckEnd)"

section \<open>The retest of an entry and the report of an address\<close>

datatype ('t, 'ep, 'ch) recheck_pc =
    RecheckBuild "'t delayed_address"
  | RecheckConnect 'ep "'t delayed_address"
  | RecheckAdd ip_addr 'ch
  | RecheckReAdd "'t delayed_address"
  | RecheckEnd

fun recheck_step ::
  "('t, 'ep, 'ch, 'ioe) pool_env \<Rightarrow> ('t, 'ch) pool \<times> ('t, 'ep, 'ch) recheck_pc \<Rightarrow>
     (('t, 'ch) pool \<times> ('t, 'ep, 'ch) recheck_pc) may_panic"
where
  "recheck_step env (st, RecheckBuild address) =
     map_ok (\<lambda>endpoint. (st, RecheckConnect endpoint address)) (build_endpoint env (da_address address))"
| "recheck_step env (st, RecheckConnect endpoint address) =
     (case env_connect env 0 endpoint of
        Some channel \<Rightarrow> Inr (st, RecheckAdd (da_address address) channel)
      | None \<Rightarrow> Inr (st, RecheckReAdd address))"
| "recheck_step env (st, RecheckAdd address channel) =
     Inr (st\<lparr>ready_clients := ready_add (ready_clients st) address channel\<rparr>, RecheckEnd)"
| "recheck_step env (st, RecheckReAdd address) =
     map_ok (\<lambda>be. (st\<lparr>broken_endpoints := be\<rparr>, RecheckEnd))
       (re_add_address (overflow_checks env) (clock env) (env_now env 0) (broken_endpoints st) address)"
| "recheck_step env (st, RecheckEnd) = Inr (st, RecheckEnd)"

datatype report_pc = ReportRemove ip_addr | ReportAdd ip_addr | ReportEnd

fun report_step ::
  "('t, 'ep, 'ch, 'ioe) pool_env \<Rightarrow> ('t, 'ch) pool \<times> report_pc \<Rightarrow> (('t, 'ch) pool \<times> report_pc) may_panic"
where
  "report_step env (st, ReportRemove a) =
     Inr (st\<lparr>ready_clients := ready_remove (ready_clients st) a\<rparr>, ReportAdd a)"
| "report_step env (st, ReportAdd a) =
     map_ok (\<lambda>be. (st\<lparr>broken_endpoints := be\<rparr>, ReportEnd))
       (add_address (clock env) (env_now env 0) (broken_endpoints st) a)"
| "report_step env (st, ReportEnd) = Inr (st, ReportEnd)"

section \<open>\<open>get_channel\<close>\<close>

text \<open>
  The static lock \<open>RECHECK_BROKEN_ENDPOINTS\<close>: the time of the last forced recheck, and who
  holds the write guard.  A read guard is only held between two \<open>await\<close>s.
\<close>

record 't gate =
  last_recheck :: 't
  holder :: "nat option"

text \<open>
  The futures of the race: the DNS check and the retests, each followed by a \<open>get_any\<close>.
\<close>

datatype ('t, 'ep, 'ch) contender =
    Checking "('t, 'ep, 'ch) check_pc"
  | Rechecking "('t, 'ep, 'ch) recheck_pc"

datatype ('t, 'ep, 'ch) get_pc =
    GetAny
  | GetTryRead
  | GetWrite
  | GetLocked
  | GetStamp
  | GetAddresses
  | GetRace "('t, 'ep, 'ch) contender list"
  | GetWaitForOther
  | GetAfterOther
  | GetDone "(ip_addr \<times> 'ch) option"

definition MIN_INTERVAL :: int where
  "MIN_INTERVAL = int (duration_from_millis 500)"

definition get_any_at :: "('t, 'ch) pool \<Rightarrow> (ip_addr \<times> 'ch) option \<times> ('t, 'ch) pool" where
  "get_any_at st = map_prod id (\<lambda>rc. st\<lparr>ready_clients := rc\<rparr>) (ready_get_any (ready_clients st))"

definition contender_done :: "('t, 'ep, 'ch) contender \<Rightarrow> bool" where
  "contender_done c = (case c of Checking CheckEnd \<Rightarrow> True | Rechecking RecheckEnd \<Rightarrow> True | _ \<Rightarrow> False)"

fun contender_step ::
  "('t, 'ep, 'ch, 'ioe) pool_env \<Rightarrow> ('t, 'ch) pool \<times> ('t, 'ep, 'ch) contender \<Rightarrow>
     (('t, 'ch) pool \<times> ('t, 'ep, 'ch) contender) may_panic"
where
  "contender_step env (st, Checking pc) = map_ok (map_prod id Checking) (check_step env (st, pc))"
| "contender_step env (st, Rechecking pc) = map_ok (map_prod id Rechecking) (recheck_step env (st, pc))"

text \<open>
  One step of the call of client \<open>me\<close>; \<open>k\<close> is the future that advances when there are
  several.  \<open>None\<close> means that the call is blocked at the lock (or that there is no future
  \<open>k\<close>).  When the call returns, its guard is dropped, and with it the other futures.
\<close>

definition release :: "'t gate \<Rightarrow> 't gate" where
  "release g = g\<lparr>holder := None\<rparr>"

fun get_step ::
  "('t, 'ep, 'ch, 'ioe) pool_env \<Rightarrow> nat \<Rightarrow> nat \<Rightarrow>
     ('t, 'ch) pool \<times> 't gate \<times> ('t, 'ep, 'ch) get_pc \<Rightarrow>
     (('t, 'ch) pool \<times> 't gate \<times> ('t, 'ep, 'ch) get_pc) may_panic option"
where
  "get_step env me k (st, g, GetAny) =
     (case get_any_at st of
        (Some entry, st') \<Rightarrow> Some (Inr (st', g, GetDone (Some entry)))
      | (None, st') \<Rightarrow> Some (Inr (st', g, GetTryRead)))"
| "get_step env me k (st, g, GetTryRead) =
     (if holder g \<noteq> None then Some (Inr (st, g, GetWaitForOther))
      else if signed_duration_since (clock env) (env_now env 0) (last_recheck g) < MIN_INTERVAL
      then Some (Inr (st, g, GetDone None))
      else Some (Inr (st, g, GetWrite)))"
| "get_step env me k (st, g, GetWrite) =
     (if holder g \<noteq> None then None else Some (Inr (st, g\<lparr>holder := Some me\<rparr>, GetLocked)))"
| "get_step env me k (st, g, GetLocked) =
     (case get_any_at st of
        (Some entry, st') \<Rightarrow> Some (Inr (st', release g, GetDone (Some entry)))
      | (None, st') \<Rightarrow> Some (Inr (st', g, GetStamp)))"
| "get_step env me k (st, g, GetStamp) =
     Some (Inr (st, g\<lparr>last_recheck := env_now env 0\<rparr>, GetAddresses))"
| "get_step env me k (st, g, GetAddresses) =
     Some (Inr (st, g, GetRace (Checking CheckResolve #
       map (\<lambda>d. Rechecking (RecheckBuild d)) (addresses (broken_endpoints st)))))"
| "get_step env me k (st, g, GetRace futs) =
     (if length futs \<le> k then None
      else if contender_done (futs ! k)
      then (case get_any_at st of (result, st') \<Rightarrow> Some (Inr (st', release g, GetDone result)))
      else Some (map_ok (\<lambda>(st', c). (st', g, GetRace (futs[k := c]))) (contender_step env (st, futs ! k))))"
| "get_step env me k (st, g, GetWaitForOther) =
     (if holder g \<noteq> None then None else Some (Inr (st, g, GetAfterOther)))"
| "get_step env me k (st, g, GetAfterOther) =
     (case get_any_at st of (result, st') \<Rightarrow> Some (Inr (st', g, GetDone result)))"
| "get_step env me k (st, g, GetDone result) = None"

lemma get_any_at_empty: "channels (ready_clients st) = [] \<Longrightarrow> get_any_at st = (None, st)"
  by (simp add: get_any_at_def ready_get_any_def)

lemma get_any_at_Some:
  assumes "channels (ready_clients st) \<noteq> []"
  obtains e n where "get_any_at st = (Some e, st\<lparr>ready_clients := (ready_clients st)\<lparr>index := n\<rparr>\<rparr>)"
    "e \<in> set (channels (ready_clients st))"
proof
  let ?n = "unat (index (ready_clients st)) mod length (channels (ready_clients st))"
  show "get_any_at st = (Some (channels (ready_clients st) ! ?n),
      st\<lparr>ready_clients := (ready_clients st)\<lparr>index := index (ready_clients st) + 1\<rparr>\<rparr>)"
    using assms by (simp add: get_any_at_def ready_get_any_def)
  show "channels (ready_clients st) ! ?n \<in> set (channels (ready_clients st))"
    using assms by (intro nth_mem) simp
qed

section \<open>The steps compose to the procedures\<close>

text \<open>\<open>n\<close> steps in a row, nothing in between.\<close>

fun run_steps :: "('s \<Rightarrow> 's may_panic) \<Rightarrow> nat \<Rightarrow> 's \<Rightarrow> 's may_panic" where
  "run_steps step 0 s = Inr s"
| "run_steps step (Suc n) s = bind_res (step s) (run_steps step n)"

lemma run_steps_add: "run_steps step (m + n) s = bind_res (run_steps step m s) (run_steps step n)"
proof (induction m arbitrary: s)
  case (Suc m)
  then show ?case by (cases "step s") simp_all
qed simp

lemma run_steps_end:
  "step s = Inr s \<Longrightarrow> run_steps step n s = Inr s"
  by (induction n) simp_all

text \<open>Steps that do not depend on when they are made: the answers do not change with time.\<close>

definition steady :: "('t, 'ep, 'ch, 'ioe) pool_env \<Rightarrow> bool" where
  "steady env \<longleftrightarrow> (\<forall>i. env_now env i = env_now env 0 \<and> env_connect env i = env_connect env 0)"

lemma check_loop_steps:
  assumes "steady env" "3 * length as + 3 \<le> n"
  shows "run_steps (check_step env) n (st, CheckFind as ready broken) =
    map_ok (\<lambda>result. (check_dns_store result st, CheckEnd))
      (check_dns_loop env (\<lambda>_. ready_clients st) (\<lambda>_. broken_endpoints st) i as ready broken)"
  using assms(2)
proof (induction as arbitrary: ready broken n i)
  case Nil
  then have "n = Suc (Suc (Suc (n - 3)))" by simp
  then obtain m where "n = Suc (Suc (Suc m))" by blast
  then show ?case
    by (simp add: run_steps_end check_dns_store_def Let_def)
next
  case (Cons a as)
  have conn: "env_connect env i ep = env_connect env 0 ep" "env_now env i = env_now env 0" for ep
    using assms(1) unfolding steady_def by metis+
  define m where "m = n - 3"
  with Cons.prems have n: "n = Suc (Suc (Suc m))" "3 * length as + 3 \<le> m" by simp_all
  note IH = Cons.IH [where i = "Suc i"]
  show ?case
  proof (cases "ready_find (ready_clients st) a")
    case (Some ch)
    with n IH [of "Suc (Suc m)"] show ?thesis by (simp del: run_steps.simps(2) add: run_steps.simps(2) [of _ "Suc (Suc m)"])
  next
    case nf: None
    show ?thesis
    proof (cases "broken_get_address (broken_endpoints st) a")
      case (Some d)
      with n nf IH [of "Suc m"] show ?thesis
        by (simp del: run_steps.simps(2) add: run_steps.simps(2) [of _ "Suc (Suc m)"] run_steps.simps(2) [of _ "Suc m"])
    next
      case None
      show ?thesis
      proof (cases "build_endpoint env a")
        case (Inl p)
        with n nf None show ?thesis by simp
      next
        case (Inr ep)
        with n nf None IH [of m] show ?thesis
          by (cases "delayed_from_ip (clock env) (env_now env 0) a")
             (simp_all add: conn split: option.split)
      qed
    qed
  qed
qed

lemma check_dns_steps:
  assumes "steady env" "\<And>d as. domain_name env = Inr d \<Longrightarrow>
      resolve_domain (to_socket_addrs env) d = Inr as \<Longrightarrow> 3 * length as + 4 \<le> n" "0 < n"
  shows "run_steps (check_step env) n (st, CheckResolve) = map_ok (\<lambda>st'. (st', CheckEnd)) (check_dns env st)"
proof -
  from assms(3) obtain m where n: "n = Suc m" by (cases n) auto
  show ?thesis
  proof (cases "domain_name env")
    case (Inl p)
    then show ?thesis by (simp add: n check_dns_def)
  next
    case (Inr d)
    show ?thesis
    proof (cases "resolve_domain (to_socket_addrs env) d")
      case (Inl e)
      with Inr show ?thesis by (simp add: n check_dns_def run_steps_end)
    next
      case res: (Inr as)
      from assms(2) [OF Inr res] have "3 * length as + 3 \<le> m" by (simp add: n)
      from check_loop_steps [OF assms(1) this, of st "[]" "[]" 0] Inr res show ?thesis
        by (cases "check_dns_loop env (\<lambda>_. ready_clients st) (\<lambda>_. broken_endpoints st) 0 as [] []")
           (simp_all add: n check_dns_def)
    qed
  qed
qed

lemma recheck_steps:
  assumes "3 \<le> n"
  shows "run_steps (recheck_step env) n (st, RecheckBuild d) =
    map_ok (\<lambda>st'. (st', RecheckEnd)) (recheck_broken_endpoint env d st)"
proof -
  from assms obtain m where n: "n = Suc (Suc (Suc m))"
    by (metis Suc_le_D numeral_3_eq_3 Suc_le_mono)
  show ?thesis
  proof (cases "build_endpoint env (da_address d)")
    case (Inr ep)
    then show ?thesis
      by (cases "re_add_address (overflow_checks env) (clock env) (env_now env 0) (broken_endpoints st) d")
         (simp_all add: n recheck_broken_endpoint_def run_steps_end split: option.split)
  qed (simp add: n recheck_broken_endpoint_def)
qed

lemma report_steps:
  assumes "2 \<le> n"
  shows "run_steps (report_step env) n (st, ReportRemove a) =
    map_ok (\<lambda>st'. (st', ReportEnd)) (report_broken env a st)"
proof -
  from assms obtain m where n: "n = Suc (Suc m)"
    by (metis Suc_le_D numeral_2_eq_2 Suc_le_mono)
  show ?thesis
    by (cases "add_address (clock env) (env_now env 0) (broken_endpoints st) a")
       (simp_all add: n report_broken_def run_steps_end)
qed

lemma nanos_env_steady [simp]: "steady (nanos_env now as up)"
  by (simp add: steady_def nanos_env_def)

section \<open>Property\<close>



end
