(* ===== verification/Get_Run.thy ===== *)
theory Get_Run
  imports Pool_Steps
begin

text \<open>
  A call of \<open>get_channel\<close> on its own: a measure that each of its steps lowers, runs of a call
  that nothing interrupts, a bound on their length, and what the forced recheck amounts to
  when its futures are polled in the order in which they were pushed.
\<close>

section \<open>A measure on calls\<close>

text \<open>
  How far a call is from its end: its phase; in a race, the futures that have not resolved
  the name yet (only then the number of addresses is known), and the steps left to the
  futures.  \<open>m\<close> is the number of addresses an unresolved name is counted with.
\<close>

fun get_phase :: "('t, 'ep, 'ch) get_pc \<Rightarrow> nat" where
  "get_phase GetAny = 7"
| "get_phase GetTryRead = 6"
| "get_phase GetWrite = 5"
| "get_phase GetLocked = 4"
| "get_phase GetStamp = 3"
| "get_phase GetAddresses = 2"
| "get_phase (GetRace futs) = 1"
| "get_phase GetWaitForOther = 2"
| "get_phase GetAfterOther = 1"
| "get_phase (GetDone r) = 0"

fun check_left :: "nat \<Rightarrow> ('t, 'ep, 'ch) check_pc \<Rightarrow> nat" where
  "check_left m CheckResolve = 3 * m + 4"
| "check_left m (CheckFind rest r b) = 3 * length rest + 3"
| "check_left m (CheckGet a rest r b) = 3 * length rest + 5"
| "check_left m (CheckConnect ep a rest r b) = 3 * length rest + 4"
| "check_left m (CheckStoreReady r b) = 2"
| "check_left m (CheckStoreBroken b) = 1"
| "check_left m CheckEnd = 0"

fun recheck_left :: "('t, 'ep, 'ch) recheck_pc \<Rightarrow> nat" where
  "recheck_left (RecheckBuild d) = 3"
| "recheck_left (RecheckConnect ep d) = 2"
| "recheck_left (RecheckAdd a ch) = 1"
| "recheck_left (RecheckReAdd d) = 1"
| "recheck_left RecheckEnd = 0"

fun contender_left :: "nat \<Rightarrow> ('t, 'ep, 'ch) contender \<Rightarrow> nat" where
  "contender_left m (Checking pc) = check_left m pc"
| "contender_left m (Rechecking pc) = recheck_left pc"

fun unresolved :: "('t, 'ep, 'ch) contender \<Rightarrow> nat" where
  "unresolved (Checking CheckResolve) = 1"
| "unresolved c = 0"

fun race_unresolved :: "('t, 'ep, 'ch) get_pc \<Rightarrow> nat" where
  "race_unresolved (GetRace futs) = sum_list (map unresolved futs)"
| "race_unresolved pc = 0"

fun race_left :: "('t, 'ep, 'ch) get_pc \<Rightarrow> nat" where
  "race_left (GetRace futs) = sum_list (map (contender_left 0) futs)"
| "race_left pc = 0"

definition call_order :: "(('t, 'ep, 'ch) get_pc \<times> ('t, 'ep, 'ch) get_pc) set" where
  "call_order = measures [get_phase, race_unresolved, race_left]"

lemma wf_call_order: "wf call_order"
  by (simp add: call_order_def)

lemma contender_step_left:
  assumes "contender_step env (st, c) = Inr (st', c')" "\<not> contender_done c"
  shows "unresolved c' < unresolved c \<or> unresolved c' = unresolved c \<and> contender_left m c' < contender_left m c"
proof (cases c)
  case (Checking pc)
  show ?thesis
  proof (cases pc)
    case CheckResolve
    with Checking assms obtain d where "domain_name env = Inr d" by (auto simp: bind_res_eq_Inr)
    with Checking CheckResolve assms show ?thesis by (cases "resolve_domain (to_socket_addrs env) d") auto
  next
    case (CheckFind rest r b)
    with Checking assms show ?thesis by (cases rest) (auto split: option.splits)
  qed (use Checking assms in \<open>auto simp: bind_res_eq_Inr contender_done_def split: option.splits sum.splits\<close>)
next
  case (Rechecking pc)
  with assms show ?thesis
    by (cases pc) (auto simp: contender_done_def split: option.splits)
qed

lemma sum_list_update_less:
  fixes f :: "'a \<Rightarrow> nat"
  assumes "k < length xs"
  shows "f x < f (xs ! k) \<Longrightarrow> sum_list (map f (xs[k := x])) < sum_list (map f xs)"
    "f x = f (xs ! k) \<Longrightarrow> sum_list (map f (xs[k := x])) = sum_list (map f xs)"
proof -
  from assms have xs: "xs = take k xs @ xs ! k # drop (Suc k) xs" by (rule id_take_nth_drop)
  have "sum_list (map f (xs[k := x])) + f (xs ! k) = sum_list (map f xs) + f x"
    by (subst (3) xs) (simp add: upd_conv_take_nth_drop [OF assms])
  then show "f x < f (xs ! k) \<Longrightarrow> sum_list (map f (xs[k := x])) < sum_list (map f xs)"
    "f x = f (xs ! k) \<Longrightarrow> sum_list (map f (xs[k := x])) = sum_list (map f xs)"
    by simp_all
qed

lemma get_step_decreases:
  assumes "get_step env i k (st, g, pc) = Some (Inr (st', g', pc'))"
  shows "(pc', pc) \<in> call_order"
proof (cases pc)
  case (GetRace futs)
  show ?thesis
  proof (cases "contender_done (futs ! k)")
    case True
    with GetRace assms show ?thesis
      by (auto simp: call_order_def split: prod.splits if_splits)
  next
    case False
    with GetRace assms obtain c where c: "contender_step env (st, futs ! k) = Inr (st', c)" "k < length futs"
      "pc' = GetRace (futs[k := c])"
      by (auto split: if_splits)
    from contender_step_left [OF c(1) False, of 0] sum_list_update_less [OF c(2)] c(3) GetRace show ?thesis
      by (auto simp: call_order_def)
  qed
qed (use assms in \<open>auto simp: call_order_def split: prod.splits if_splits option.splits\<close>)

section \<open>Runs that nothing interrupts\<close>

text \<open>
  A call that nothing interrupts, up to \<open>n\<close> steps: \<open>pick\<close> chooses the future of a race that
  advances.  The result has the shared state and the lock as the call leaves them.
\<close>

fun get_run ::
  "('t, 'ep, 'ch, 'ioe) pool_env \<Rightarrow> (('t, 'ep, 'ch) contender list \<Rightarrow> nat) \<Rightarrow> nat \<Rightarrow>
     ('t, 'ch) pool \<times> 't gate \<times> ('t, 'ep, 'ch) get_pc \<Rightarrow>
     ((ip_addr \<times> 'ch) option \<times> ('t, 'ch) pool \<times> 't gate) may_panic option"
where
  "get_run env pick n (st, g, GetDone r) = Some (Inr (r, st, g))"
| "get_run env pick 0 x = None"
| "get_run env pick (Suc n) x =
     (case get_step env 0 (case x of (_, _, GetRace futs) \<Rightarrow> pick futs | _ \<Rightarrow> 0) x of
        None \<Rightarrow> None
      | Some (Inl p) \<Rightarrow> Some (Inl p)
      | Some (Inr x') \<Rightarrow> get_run env pick n x')"

text \<open>The addresses the name resolves to, if it does.\<close>

definition resolved_addresses :: "('t, 'ep, 'ch, 'ioe) pool_env \<Rightarrow> ip_addr list" where
  "resolved_addresses env =
     (case domain_name env of
        Inl _ \<Rightarrow> []
      | Inr domain \<Rightarrow> (case resolve_domain (to_socket_addrs env) domain of Inl _ \<Rightarrow> [] | Inr as \<Rightarrow> as))"

text \<open>The steps left to a call when the name resolves to \<open>m\<close> addresses and \<open>b\<close> are broken.\<close>

fun get_left :: "nat \<Rightarrow> nat \<Rightarrow> ('t, 'ep, 'ch) get_pc \<Rightarrow> nat" where
  "get_left m b GetAny = 3 * m + 3 * b + 11"
| "get_left m b GetTryRead = 3 * m + 3 * b + 10"
| "get_left m b GetWrite = 3 * m + 3 * b + 9"
| "get_left m b GetLocked = 3 * m + 3 * b + 8"
| "get_left m b GetStamp = 3 * m + 3 * b + 7"
| "get_left m b GetAddresses = 3 * m + 3 * b + 6"
| "get_left m b (GetRace futs) = sum_list (map (contender_left m) futs) + 1"
| "get_left m b GetWaitForOther = 2"
| "get_left m b GetAfterOther = 1"
| "get_left m b (GetDone r) = 0"

definition steps_needed :: "('t, 'ep, 'ch, 'ioe) pool_env \<Rightarrow> ('t, 'ch) pool \<Rightarrow> nat" where
  "steps_needed env st =
     get_left (length (resolved_addresses env)) (length (addresses (broken_endpoints st)))
       (GetAny :: (unit, unit, unit) get_pc)"

lemma contender_step_lowers:
  assumes "contender_step env (st, c) = Inr (st', c')" "\<not> contender_done c"
    and "length (resolved_addresses env) \<le> m"
  shows "contender_left m c' < contender_left m c"
proof (cases "c = Checking CheckResolve")
  case True
  with assms obtain d where d: "domain_name env = Inr d" by (auto simp: bind_res_eq_Inr)
  with True assms show ?thesis
    by (cases "resolve_domain (to_socket_addrs env) d") (auto simp: resolved_addresses_def)
next
  case False
  then have "unresolved c = 0" by (cases c rule: unresolved.cases) auto
  with contender_step_left [OF assms(1,2), of m] show ?thesis by simp
qed

lemma get_step_lowers:
  assumes "get_step env i k (st, g, pc) = Some (Inr (st', g', pc'))"
    and "length (resolved_addresses env) \<le> m" "pc = GetAddresses \<Longrightarrow> length (addresses (broken_endpoints st)) \<le> b"
  shows "get_left m b pc' < get_left m b pc"
proof (cases pc)
  case (GetRace futs)
  show ?thesis
  proof (cases "contender_done (futs ! k)")
    case True
    with GetRace assms(1) show ?thesis by (auto split: prod.splits if_splits)
  next
    case False
    with GetRace assms(1) obtain c where c: "contender_step env (st, futs ! k) = Inr (st', c)" "k < length futs"
      "pc' = GetRace (futs[k := c])"
      by (auto split: if_splits)
    from sum_list_update_less(1) [OF c(2), of "contender_left m"] contender_step_lowers [OF c(1) False assms(2)]
    show ?thesis by (simp add: c(3) GetRace)
  qed
next
  case GetAddresses
  with assms have "pc' = GetRace (Checking CheckResolve #
      map (\<lambda>d. Rechecking (RecheckBuild d)) (addresses (broken_endpoints st)))" by auto
  with GetAddresses assms(3) show ?thesis by (simp add: comp_def sum_list_triv)
qed (use assms(1) in \<open>auto split: prod.splits if_splits option.splits\<close>)

text \<open>
  The states of a call that is alone: it does not wait for the lock, and before the race the
  broken endpoints are those the call began with.
\<close>

fun alone :: "'t gate \<Rightarrow> ('t, 'ep, 'ch) get_pc \<Rightarrow> bool" where
  "alone g GetAny \<longleftrightarrow> holder g = None"
| "alone g GetTryRead \<longleftrightarrow> holder g = None"
| "alone g GetWrite \<longleftrightarrow> holder g = None"
| "alone g GetWaitForOther \<longleftrightarrow> False"
| "alone g GetAfterOther \<longleftrightarrow> False"
| "alone g (GetRace futs) \<longleftrightarrow> futs \<noteq> []"
| "alone g (GetDone r) \<longleftrightarrow> holder g = None"
| "alone g pc \<longleftrightarrow> True"

definition valid_pick :: "(('t, 'ep, 'ch) contender list \<Rightarrow> nat) \<Rightarrow> bool" where
  "valid_pick pick \<longleftrightarrow> (\<forall>futs. futs \<noteq> [] \<longrightarrow> pick futs < length futs)"

lemma alone_step:
  assumes "alone g pc" "\<And>futs. pc = GetRace futs \<Longrightarrow> k < length futs" "\<And>r. pc \<noteq> GetDone r"
  shows "case get_step env i k (st, g, pc) of
      None \<Rightarrow> False | Some (Inl p) \<Rightarrow> True | Some (Inr (st', g', pc')) \<Rightarrow> alone g' pc'"
proof (cases pc)
  case (GetRace fs)
  show ?thesis
  proof (cases "contender_done (fs ! k)")
    case True
    with GetRace assms(2) show ?thesis
      by (cases "get_any_at st") (auto simp: release_def)
  next
    case False
    with GetRace assms(1,2) show ?thesis
      by (cases "contender_step env (st, fs ! k)") auto
  qed
qed (use assms in \<open>auto simp: release_def split: prod.splits option.splits if_splits\<close>)

text \<open>Before the race the broken endpoints stay as they are.\<close>

definition before_race :: "('t, 'ep, 'ch) get_pc \<Rightarrow> bool" where
  "before_race pc \<longleftrightarrow> pc \<in> {GetAny, GetTryRead, GetWrite, GetLocked, GetStamp, GetAddresses}"

lemma get_any_at_broken: "get_any_at st = (r, st') \<Longrightarrow> broken_endpoints st' = broken_endpoints st"
  by (cases "ready_get_any (ready_clients st)") (auto simp: get_any_at_def)

lemma before_race_step:
  assumes "get_step env i k (st, g, pc) = Some (Inr (st', g', pc'))" "before_race pc'"
  shows "before_race pc \<and> broken_endpoints st' = broken_endpoints st"
  using assms
  by (cases pc) (auto simp: before_race_def split: prod.splits option.splits if_splits dest: get_any_at_broken)

lemma get_run_step:
  assumes "get_step env 0 (case pc of GetRace futs \<Rightarrow> pick futs | _ \<Rightarrow> 0) (st, g, pc) = Some y" "\<And>r. pc \<noteq> GetDone r"
  shows "get_run env pick (Suc n) (st, g, pc) = (case y of Inl p \<Rightarrow> Some (Inl p) | Inr x \<Rightarrow> get_run env pick n x)"
  using assms by (cases pc) (auto split: sum.splits)

text \<open>A call that is alone returns, or panics, within the bound.\<close>

lemma get_run_returns:
  assumes "valid_pick pick" "length (resolved_addresses env) \<le> m"
  shows "alone g pc \<Longrightarrow> (before_race pc \<longrightarrow> length (addresses (broken_endpoints st)) \<le> b) \<Longrightarrow>
    get_left m b pc \<le> n \<Longrightarrow> \<exists>x. get_run env pick n (st, g, pc) = Some x"
proof (induction n arbitrary: st g pc)
  case 0
  then show ?case by (cases pc) auto
next
  case (Suc n)
  show ?case
  proof (cases "\<exists>r. pc = GetDone r")
    case False
    then have nd: "\<And>r. pc \<noteq> GetDone r" by blast
    let ?k = "case pc of GetRace futs \<Rightarrow> pick futs | _ \<Rightarrow> 0"
    have k: "\<And>futs. pc = GetRace futs \<Longrightarrow> ?k < length futs"
      using Suc.prems(1) assms(1) by (auto simp: valid_pick_def)
    obtain y where y: "get_step env 0 ?k (st, g, pc) = Some y"
      using alone_step [OF Suc.prems(1) k nd, of env 0 st] by (auto split: option.splits)
    show ?thesis
    proof (cases y)
      case (Inl p)
      with get_run_step [OF y nd] show ?thesis by simp
    next
      case (Inr x)
      obtain st' g' pc' where x: "x = (st', g', pc')" by (cases x)
      note step = y [unfolded Inr x]
      have alone: "alone g' pc'" using alone_step [OF Suc.prems(1) k nd, of env 0 st] step by simp
      have "get_left m b pc' < get_left m b pc"
        using get_step_lowers [OF step assms(2)] Suc.prems(2) by (auto simp: before_race_def)
      moreover have "before_race pc' \<longrightarrow> length (addresses (broken_endpoints st')) \<le> b"
        using before_race_step [OF step] Suc.prems(2) by auto
      ultimately have "\<exists>x. get_run env pick n (st', g', pc') = Some x"
        using Suc.prems(3) by (intro Suc.IH [OF alone]) auto
      with get_run_step [OF step nd] show ?thesis by simp
    qed
  qed auto
qed

text \<open>What holds of every step holds at the end.\<close>

lemma get_run_invariant:
  assumes step: "\<And>k st g pc. I st g pc \<Longrightarrow>
      (case get_step env 0 k (st, g, pc) of
         None \<Rightarrow> True | Some (Inl p) \<Rightarrow> False | Some (Inr (st', g', pc')) \<Rightarrow> I st' g' pc')"
  shows "I st g pc \<Longrightarrow> get_run env pick n (st, g, pc) = Some x \<Longrightarrow>
    \<exists>r st' g'. x = Inr (r, st', g') \<and> I st' g' (GetDone r)"
proof (induction n arbitrary: st g pc)
  case 0
  then show ?case by (cases pc) auto
next
  case (Suc n)
  show ?case
  proof (cases "\<exists>r. pc = GetDone r")
    case False
    then have nd: "\<And>r. pc \<noteq> GetDone r" by blast
    let ?k = "case pc of GetRace futs \<Rightarrow> pick futs | _ \<Rightarrow> 0"
    from Suc.prems(2) nd obtain y where y: "get_step env 0 ?k (st, g, pc) = Some y"
      by (cases pc) (auto split: option.splits)
    with step [OF Suc.prems(1), of ?k] obtain st' g' pc' where
      y': "y = Inr (st', g', pc')" "I st' g' pc'" by (auto split: sum.splits)
    with Suc.prems(2) get_run_step [OF y nd] Suc.IH [OF y'(2)] show ?thesis by simp
  qed (use Suc.prems in auto)
qed

section \<open>Calls that do not force a recheck\<close>

text \<open>
  With a ready channel, or when the last forced recheck is less than 500 milliseconds old, a
  call amounts to \<open>get_any\<close>.
\<close>

definition within_interval :: "('t, 'ep, 'ch, 'ioe) pool_env \<Rightarrow> 't gate \<Rightarrow> bool" where
  "within_interval env g \<longleftrightarrow> signed_duration_since (clock env) (env_now env 0) (last_recheck g) < MIN_INTERVAL"

lemma get_run_quiet:
  assumes "channels (ready_clients st) \<noteq> [] \<or> holder g = None \<and> within_interval env g" "2 \<le> n"
  shows "get_run env pick n (st, g, GetAny) = Some (Inr (fst (get_any_at st), snd (get_any_at st), g))"
proof -
  from assms(2) obtain k where n: "n = Suc (Suc k)" by (metis Suc_le_D numeral_2_eq_2 Suc_le_mono)
  show ?thesis
  proof (cases "channels (ready_clients st) = []")
    case True
    with assms(1) show ?thesis by (cases k) (simp_all add: n get_any_at_empty within_interval_def)
  next
    case False
    then obtain e i where "get_any_at st = (Some e, st\<lparr>ready_clients := (ready_clients st)\<lparr>index := i\<rparr>\<rparr>)"
      by (rule get_any_at_Some)
    then show ?thesis by (simp add: n)
  qed
qed

section \<open>Calls that force a recheck\<close>

lemma get_run_to_race:
  assumes "channels (ready_clients st) = []" "holder g = None" "\<not> within_interval env g"
  shows "get_run env pick (n + 6) (st, g, GetAny) =
    get_run env pick n (st, \<lparr>last_recheck = env_now env 0, holder = Some 0\<rparr>,
      GetRace (Checking CheckResolve # map (\<lambda>d. Rechecking (RecheckBuild d)) (addresses (broken_endpoints st))))"
  using assms by (cases g) (simp add: eval_nat_numeral get_any_at_empty within_interval_def)

text \<open>No future of the race panics, whatever happens in between.\<close>

definition retest_safe :: "('t, 'ep, 'ch, 'ioe) pool_env \<Rightarrow> 't delayed_address \<Rightarrow> bool" where
  "retest_safe env d \<longleftrightarrow> \<not> overflow_checks env \<or> unat (delayed_failed_times (clock env) d) < 255"

fun recheck_safe :: "('t, 'ep, 'ch, 'ioe) pool_env \<Rightarrow> ('t, 'ep, 'ch) recheck_pc \<Rightarrow> bool" where
  "recheck_safe env (RecheckBuild d) = retest_safe env d"
| "recheck_safe env (RecheckConnect ep d) = retest_safe env d"
| "recheck_safe env (RecheckReAdd d) = retest_safe env d"
| "recheck_safe env pc = True"

fun contender_safe :: "('t, 'ep, 'ch, 'ioe) pool_env \<Rightarrow> ('t, 'ep, 'ch) contender \<Rightarrow> bool" where
  "contender_safe env (Checking pc) = True"
| "contender_safe env (Rechecking pc) = recheck_safe env pc"

lemma re_add_address_succeeds:
  assumes "env_ok ts env" "retest_safe env d"
  shows "\<exists>be'. re_add_address (overflow_checks env) (clock env) (env_now env 0) be d = Inr be'"
proof -
  have "unat (delayed_failed_times (clock env) d) < 255 \<or> \<not> overflow_checks env"
    using assms(2) by (auto simp: retest_safe_def)
  then have "re_add_address (overflow_checks env) (clock env) (env_now env 0) be d =
      add_address_with_current_fail_count (clock env) (env_now env 0) be (da_address d)
        (delayed_failed_times (clock env) d + 1)" by (rule re_add_address_eq)
  then show ?thesis
    by (metis add_fail_count_spec [OF env_okD(1,2) [OF assms(1)]])
qed

lemma check_step_succeeds:
  assumes "env_ok ts env"
  shows "\<exists>x. check_step env (st, pc) = Inr x"
proof (cases pc)
  case CheckResolve
  with env_okD(4) [OF assms] show ?thesis by (auto split: sum.split)
next
  case (CheckFind rest r b)
  then show ?thesis by (cases rest) (auto split: option.split)
next
  case (CheckGet a rest r b)
  with env_okD(3) [OF assms, of a] show ?thesis by (auto split: option.split)
next
  case (CheckConnect ep a rest r b)
  show ?thesis
    by (rule delayed_from_ip_spec [OF env_okD(1,2) [OF assms], of 0 a])
       (auto simp: CheckConnect split: option.split)
qed simp_all

lemma contender_step_succeeds:
  assumes "env_ok ts env" "contender_safe env c"
  shows "\<exists>st' c'. contender_step env (st, c) = Inr (st', c') \<and> contender_safe env c'"
proof (cases c)
  case (Checking pc)
  with check_step_succeeds [OF assms(1), of st pc] show ?thesis by auto
next
  case (Rechecking pc)
  show ?thesis
  proof (cases pc)
    case (RecheckBuild d)
    with Rechecking assms env_okD(3) [OF assms(1), of "da_address d"] show ?thesis by auto
  next
    case (RecheckConnect ep d)
    with Rechecking assms show ?thesis by (auto split: option.split)
  next
    case (RecheckReAdd d)
    with Rechecking assms re_add_address_succeeds [OF assms(1), of d "broken_endpoints st"] show ?thesis by auto
  qed (use Rechecking in simp_all)
qed

text \<open>
  The channels that a future may still bring: the addresses the DNS check has or may get,
  and one per retest.
\<close>

fun check_gain :: "nat \<Rightarrow> ('t, 'ep, 'ch) check_pc \<Rightarrow> nat" where
  "check_gain m CheckResolve = m"
| "check_gain m (CheckFind rest r b) = length rest + length r"
| "check_gain m (CheckGet a rest r b) = Suc (length rest + length r)"
| "check_gain m (CheckConnect ep a rest r b) = Suc (length rest + length r)"
| "check_gain m (CheckStoreReady r b) = length r"
| "check_gain m pc = 0"

fun contender_gain :: "nat \<Rightarrow> ('t, 'ep, 'ch) contender \<Rightarrow> nat" where
  "contender_gain m (Checking pc) = check_gain m pc"
| "contender_gain m (Rechecking (RecheckReAdd d)) = 0"
| "contender_gain m (Rechecking RecheckEnd) = 0"
| "contender_gain m (Rechecking pc) = 1"

abbreviation ready_size :: "('t, 'ch) pool \<Rightarrow> nat" where
  "ready_size st \<equiv> length (channels (ready_clients st))"

lemma contender_step_gain:
  assumes "contender_step env (st, c) = Inr (st', c')" "length (resolved_addresses env) \<le> m"
  shows "ready_size st' + contender_gain m c' \<le> ready_size st + contender_gain m c"
proof (cases c)
  case (Checking pc)
  show ?thesis
  proof (cases pc)
    case CheckResolve
    with Checking assms obtain d where d: "domain_name env = Inr d" by (auto simp: bind_res_eq_Inr)
    with Checking CheckResolve assms show ?thesis
      by (cases "resolve_domain (to_socket_addrs env) d") (auto simp: resolved_addresses_def)
  next
    case (CheckFind rest r b)
    with Checking assms show ?thesis by (cases rest) (auto split: option.splits)
  next
    case (CheckStoreReady r b)
    with Checking assms show ?thesis by (auto simp: ready_replace_with_def)
  qed (use Checking assms in \<open>auto split: option.splits\<close>)
next
  case (Rechecking pc)
  with assms show ?thesis
    by (cases pc) (auto simp: ready_add_def split: option.splits)
qed

lemma sum_list_update_add:
  fixes f :: "'a \<Rightarrow> nat"
  assumes "k < length xs"
  shows "sum_list (map f (xs[k := x])) + f (xs ! k) = sum_list (map f xs) + f x"
proof -
  from assms have xs: "xs = take k xs @ xs ! k # drop (Suc k) xs" by (rule id_take_nth_drop)
  show ?thesis by (subst (3) xs) (simp add: upd_conv_take_nth_drop [OF assms])
qed

definition race_inv :: "('t, 'ep, 'ch, 'ioe) pool_env \<Rightarrow> nat \<Rightarrow> nat \<Rightarrow> 't \<Rightarrow>
    ('t, 'ch) pool \<Rightarrow> 't gate \<Rightarrow> ('t, 'ep, 'ch) get_pc \<Rightarrow> bool" where
  "race_inv env m room now st g pc \<longleftrightarrow> last_recheck g = now \<and>
     (case pc of
        GetRace futs \<Rightarrow> list_all (contender_safe env) futs \<and>
          ready_size st + sum_list (map (contender_gain m) futs) \<le> room
      | GetDone r \<Rightarrow> holder g = None \<and> ready_size st \<le> room
      | _ \<Rightarrow> False)"

lemma get_any_at_size: "get_any_at st = (r, st') \<Longrightarrow> ready_size st' = ready_size st"
  by (cases "channels (ready_clients st) = []")
     (auto simp: get_any_at_empty elim!: get_any_at_Some [of st])

lemma race_inv_step:
  assumes ok: "env_ok ts env" and m: "length (resolved_addresses env) \<le> m"
    and inv: "race_inv env m room now st g pc"
  shows "case get_step env i k (st, g, pc) of
      None \<Rightarrow> True | Some (Inl p) \<Rightarrow> False | Some (Inr (st', g', pc')) \<Rightarrow> race_inv env m room now st' g' pc'"
proof (cases pc)
  case (GetRace futs)
  with inv have futs: "list_all (contender_safe env) futs"
    "ready_size st + sum_list (map (contender_gain m) futs) \<le> room" "last_recheck g = now"
    by (simp_all add: race_inv_def)
  consider "length futs \<le> k" | (finished) "k < length futs" "contender_done (futs ! k)"
    | (going) "k < length futs" "\<not> contender_done (futs ! k)" by linarith
  then show ?thesis
  proof cases
    case finished
    obtain r st' where "get_any_at st = (r, st')" by fastforce
    with GetRace finished futs get_any_at_size [of st r st'] show ?thesis by (simp add: race_inv_def release_def)
  next
    case going
    with futs(1) have "contender_safe env (futs ! k)" by (simp add: list_all_length)
    from contender_step_succeeds [OF ok this, of st] obtain st' c where
      c: "contender_step env (st, futs ! k) = Inr (st', c)" "contender_safe env c" by blast
    have "list_all (contender_safe env) (futs[k := c])"
      using futs(1) c(2) by (auto simp: list_all_iff dest: set_update_subset_insert [THEN subsetD])
    with GetRace going c(1) futs(2,3) contender_step_gain [OF c(1) m]
      sum_list_update_add [OF going(1), of "contender_gain m" c] show ?thesis
      by (simp add: race_inv_def)
  qed (simp add: GetRace)
qed (use inv in \<open>simp_all add: race_inv_def\<close>)

text \<open>
  A forced recheck that nothing interrupts returns within the bound and without a panic,
  gives the lock back with the time stamped on it, and leaves at most one channel per
  resolved address and broken entry.
\<close>

lemma forced_recheck_run:
  assumes "env_ok ts env" "valid_pick pick" "list_all (retest_safe env) (addresses (broken_endpoints st))"
    and "channels (ready_clients st) = []" "holder g = None" "\<not> within_interval env g"
  obtains r st' g' where "get_run env pick (steps_needed env st) (st, g, GetAny) = Some (Inr (r, st', g'))"
    "last_recheck g' = env_now env 0" "holder g' = None"
    "ready_size st' \<le> length (resolved_addresses env) + length (addresses (broken_endpoints st))"
proof -
  let ?m = "length (resolved_addresses env)" and ?b = "length (addresses (broken_endpoints st))"
  let ?futs = "Checking CheckResolve # map (\<lambda>d. Rechecking (RecheckBuild d)) (addresses (broken_endpoints st))"
  let ?g = "\<lparr>last_recheck = env_now env 0, holder = Some 0\<rparr>"
  obtain x where x: "get_run env pick (steps_needed env st) (st, g, GetAny) = Some x"
    using get_run_returns [OF assms(2) order.refl [of ?m], of g GetAny st ?b "steps_needed env st"] assms(5)
    by (auto simp: steps_needed_def)
  have "steps_needed env st = (3 * ?m + 3 * ?b + 5) + 6" by (simp add: steps_needed_def)
  with x get_run_to_race [OF assms(4-6)] have run: "get_run env pick (3 * ?m + 3 * ?b + 5) (st, ?g, GetRace ?futs) = Some x"
    by metis
  have "race_inv env ?m (?m + ?b) (env_now env 0) st ?g (GetRace ?futs)"
    using assms(3,4) by (simp add: race_inv_def list_all_iff comp_def sum_list_triv)
  from get_run_invariant [where I = "race_inv env ?m (?m + ?b) (env_now env 0)", OF race_inv_step [OF assms(1) order.refl] this run]
  obtain r st' g' where "x = Inr (r, st', g')" "race_inv env ?m (?m + ?b) (env_now env 0) st' g' (GetDone r)"
    by blast
  with x that show thesis by (auto simp: race_inv_def)
qed

section \<open>Futures polled in order\<close>

text \<open>
  The DNS check is the first future that is pushed, and the queue of futures is polled in
  the order of the pushes: unless it has to wait, the check is over before a retest begins.
\<close>

definition in_order :: "('t, 'ep, 'ch) contender list \<Rightarrow> nat" where
  "in_order futs = 0"

lemma valid_pick_in_order [simp]: "valid_pick in_order"
  by (simp add: valid_pick_def in_order_def)

lemma get_run_first:
  "run_steps (check_step env) j (st, pc) = map_ok (\<lambda>st'. (st', CheckEnd)) r \<Longrightarrow> j < n \<Longrightarrow>
    get_run env in_order n (st, g, GetRace (Checking pc # futs)) =
      Some (map_ok (\<lambda>st'. (fst (get_any_at st'), snd (get_any_at st'), release g)) r)"
proof (induction j arbitrary: st pc n)
  case 0
  then obtain st' k where "r = Inr st'" "st = st'" "pc = CheckEnd" "n = Suc k"
    by (cases r; cases n) auto
  then show ?case
    by (cases "get_any_at st'"; cases k) (simp_all add: in_order_def contender_done_def)
next
  case (Suc j)
  from Suc.prems(2) obtain k where k: "n = Suc k" "j < k" by (cases n) auto
  show ?case
  proof (cases "pc = CheckEnd")
    case True
    with Suc.prems(1) have "r = Inr st" by (cases r) (auto simp: run_steps_end)
    with True k show ?thesis
      by (cases "get_any_at st"; cases k) (simp_all add: in_order_def contender_done_def)
  next
    case False
    then have nd: "\<not> contender_done (Checking pc)" by (cases pc) (simp_all add: contender_done_def)
    show ?thesis
    proof (cases "check_step env (st, pc)")
      case (Inl p)
      with Suc.prems(1) nd k(1) show ?thesis by (cases r) (auto simp: in_order_def)
    next
      case (Inr x)
      obtain st1 pc1 where x: "check_step env (st, pc) = Inr (st1, pc1)" using Inr by (cases x) auto
      with Suc.prems(1) have "run_steps (check_step env) j (st1, pc1) = map_ok (\<lambda>st'. (st', CheckEnd)) r" by simp
      from Suc.IH [OF this k(2)] x nd k(1) show ?thesis by (simp add: in_order_def)
    qed
  qed
qed

text \<open>Then a forced recheck is a DNS check followed by \<open>get_any\<close>.\<close>

lemma forced_recheck_in_order:
  assumes "steady env"
    and "channels (ready_clients st) = []" "holder g = None" "\<not> within_interval env g"
  shows "get_run env in_order (steps_needed env st) (st, g, GetAny) =
    Some (map_ok (\<lambda>st'. (fst (get_any_at st'), snd (get_any_at st'), \<lparr>last_recheck = env_now env 0, holder = None\<rparr>))
      (check_dns env st))"
proof -
  let ?m = "length (resolved_addresses env)" and ?b = "length (addresses (broken_endpoints st))"
  have "run_steps (check_step env) (3 * ?m + 4) (st, CheckResolve) = map_ok (\<lambda>st'. (st', CheckEnd)) (check_dns env st)"
    by (rule check_dns_steps [OF assms(1)]) (auto simp: resolved_addresses_def)
  note race = get_run_first [OF this, of "3 * ?m + 3 * ?b + 5"]
  have "steps_needed env st = (3 * ?m + 3 * ?b + 5) + 6" by (simp add: steps_needed_def)
  then show ?thesis
    by (simp only: get_run_to_race [OF assms(2-4)]) (simp add: race release_def)
qed

lemma check_dns_all_broken:
  assumes "env_ok ts env" "resolves_to env as" "set as \<subseteq> broken_keys st" "channels (ready_clients st) = []"
  shows "\<exists>st'. check_dns env st = Inr st' \<and> channels (ready_clients st') = [] \<and> broken_keys st' = set as"
proof -
  let ?rs = "\<lambda>_::nat. ready_clients st" and ?bs = "\<lambda>_::nat. broken_endpoints st"
  obtain bad where bad: "check_dns env st = Inr (check_dns_store (scan_good env ?rs ?bs as, bad) st)"
    "scan_bad ts env ?rs ?bs as bad"
    by (rule check_dns_run [OF assms(1,2)])
  have "scan_channel env ?rs ?bs x = None" if "x \<in> set (enumerate 0 as)" for x
  proof (cases x)
    case (Pair i a)
    with that have "a \<in> set as" by (auto simp: in_set_enumerate_eq)
    with assms(3) broken_keys_get [of a st] have "broken_get_address (broken_endpoints st) a \<noteq> None" by blast
    with assms(4) Pair show ?thesis by (simp add: scan_channel_def ready_find_eq_map_of)
  qed
  then have good: "scan_good env ?rs ?bs as = []" by (simp add: scan_good_def filter_empty_conv)
  with scan_keys [OF bad(2)] bad(1) show ?thesis by (simp add: broken_keys_def)
qed

section \<open>Property\<close>



end
