(* ===== verification/Channel_Pool.thy ===== *)
theory Channel_Pool
  imports Net_Types
begin

text \<open>
  The trait \<open>ChannelPool\<close> of \<open>soda-pool/src/pool.rs\<close> as an interface: \<open>get\<close> and \<open>report\<close> are
  its two methods on the state \<open>'p\<close> of an implementation, for a caller nobody else disturbs.
\<close>

text \<open>Both methods return from every state of the invariant and keep it.\<close>

locale channel_pool =
  fixes get :: "'p \<Rightarrow> ((ip_addr \<times> 'ch) option \<times> 'p) may_panic"
    and report :: "ip_addr \<Rightarrow> 'p \<Rightarrow> 'p may_panic"
    and inv :: "'p \<Rightarrow> bool"
  assumes get_returns: "inv p \<Longrightarrow> \<exists>r p'. get p = Inr (r, p') \<and> inv p'"
    and report_returns: "inv p \<Longrightarrow> \<exists>p'. report a p = Inr p' \<and> inv p'"

text \<open>
  A pool whose stock, a measure of the channels it can still hand out, only goes down: \<open>get\<close>
  does not raise it, and reporting the address that \<open>get\<close> has just returned lowers it.
\<close>

locale draining_pool = channel_pool +
  fixes stock :: "'p \<Rightarrow> nat"
  assumes get_stock: "inv p \<Longrightarrow> get p = Inr (r, p') \<Longrightarrow> stock p' \<le> stock p"
    and report_stock: "inv p \<Longrightarrow> get p = Inr (Some (a, ch), p') \<Longrightarrow> report a p' = Inr p'' \<Longrightarrow>
      stock p'' < stock p"

context draining_pool begin

lemma stock_empty: "inv p \<Longrightarrow> stock p = 0 \<Longrightarrow> \<exists>p'. get p = Inr (None, p')"
  using get_returns [of p] report_returns report_stock [of p]
  by (metis get_returns less_nat_zero_code not_None_eq prod.exhaust)

end

end
