(* ===== verification/Managed_Pool.thy ===== *)
theory Managed_Pool
  imports Get_Run Channel_Pool
begin

text \<open>
  \<open>ManagedChannelPool\<close> of \<open>soda-pool/src/pool.rs\<close> from outside: its builder, the handles on
  it (clones share one pool), the background tasks that live as long as a handle does, and
  its \<open>get_channel\<close> and \<open>report_broken\<close> as an implementation of the trait.
\<close>

section \<open>The builder\<close>

record 'et managed_channel_pool_builder =
  builder_endpoint :: 'et
  builder_dns_interval :: duration

definition builder_new :: "'et \<Rightarrow> 'et managed_channel_pool_builder" where
  "builder_new endpoint =
     \<lparr>builder_endpoint = endpoint, builder_dns_interval = duration_from_secs 5\<rparr>"

definition dns_interval :: "duration \<Rightarrow> 'et managed_channel_pool_builder \<Rightarrow> 'et managed_channel_pool_builder" where
  "dns_interval d self = self\<lparr>builder_dns_interval := d\<rparr>"

section \<open>Handles and background tasks\<close>

text \<open>
  What the process keeps of \<open>Arc\<close>s and spawned tasks: the strong count and the content of
  every live \<open>Arc<AbortOnDrop>\<close>, the tasks that run, and a supply of fresh names.
\<close>

type_synonym abort_on_drop = "nat option"

record runtime =
  arcs :: "nat \<Rightarrow> (nat \<times> abort_on_drop) option"
  tasks :: "nat set"
  fresh :: nat

definition spawn :: "runtime \<Rightarrow> nat \<times> runtime" where
  "spawn rt = (fresh rt, rt\<lparr>tasks := insert (fresh rt) (tasks rt), fresh := Suc (fresh rt)\<rparr>)"

definition abort_on_drop_from :: "nat \<Rightarrow> abort_on_drop" where
  "abort_on_drop_from handle = Some handle"

definition abort_on_drop_drop :: "abort_on_drop \<Rightarrow> runtime \<Rightarrow> runtime" where
  "abort_on_drop_drop self rt =
     (case self of None \<Rightarrow> rt | Some handle \<Rightarrow> rt\<lparr>tasks := tasks rt - {handle}\<rparr>)"

definition arc_new :: "abort_on_drop \<Rightarrow> runtime \<Rightarrow> nat \<times> runtime" where
  "arc_new x rt = (fresh rt, rt\<lparr>arcs := (arcs rt)(fresh rt \<mapsto> (1, x)), fresh := Suc (fresh rt)\<rparr>)"

definition arc_clone :: "nat \<Rightarrow> runtime \<Rightarrow> runtime" where
  "arc_clone p rt = (case arcs rt p of None \<Rightarrow> rt | Some (n, x) \<Rightarrow> rt\<lparr>arcs := (arcs rt)(p \<mapsto> (Suc n, x))\<rparr>)"

definition arc_drop :: "nat \<Rightarrow> runtime \<Rightarrow> runtime" where
  "arc_drop p rt =
     (case arcs rt p of
        None \<Rightarrow> rt
      | Some (n, x) \<Rightarrow>
          if n \<le> 1 then abort_on_drop_drop x (rt\<lparr>arcs := (arcs rt)(p := None)\<rparr>)
          else rt\<lparr>arcs := (arcs rt)(p \<mapsto> (n - 1, x))\<rparr>)"

text \<open>
  A handle: the template, and the \<open>Arc\<close>s of the two tasks (those of the collections only
  keep memory alive and are left out).
\<close>

record 'et managed_channel_pool =
  template :: 'et
  dns_lookup_task :: nat
  doctor_task_arc :: nat

definition pool_build ::
  "'et managed_channel_pool_builder \<Rightarrow> runtime \<Rightarrow> 'et managed_channel_pool \<times> runtime" where
  "pool_build self rt =
     (let (dns_task, rt) = spawn rt;
          (doctor, rt) = spawn rt;
          (a, rt) = arc_new (abort_on_drop_from dns_task) rt;
          (b, rt) = arc_new (abort_on_drop_from doctor) rt
      in (\<lparr>template = builder_endpoint self, dns_lookup_task = a, doctor_task_arc = b\<rparr>, rt))"

definition pool_endpoint :: "'et managed_channel_pool \<Rightarrow> 'et" where
  "pool_endpoint self = template self"

definition pool_clone ::
  "'et managed_channel_pool \<Rightarrow> runtime \<Rightarrow> 'et managed_channel_pool \<times> runtime" where
  "pool_clone self rt = (self, arc_clone (doctor_task_arc self) (arc_clone (dns_lookup_task self) rt))"

text \<open>Dropping a handle drops its fields in order.\<close>

definition pool_drop :: "'et managed_channel_pool \<Rightarrow> runtime \<Rightarrow> runtime" where
  "pool_drop self rt = arc_drop (doctor_task_arc self) (arc_drop (dns_lookup_task self) rt)"

text \<open>A program's use of one pool: it clones a live handle or drops one.\<close>

datatype handle_op = CloneHandle | DropHandle

fun handle_ops :: "'et managed_channel_pool \<Rightarrow> handle_op list \<Rightarrow> nat \<times> runtime \<Rightarrow> nat \<times> runtime" where
  "handle_ops self [] s = s"
| "handle_ops self (oper # rest) (live, rt) =
     (if live = 0 then (live, rt)
      else handle_ops self rest
        (case oper of
           CloneHandle \<Rightarrow> (Suc live, snd (pool_clone self rt))
         | DropHandle \<Rightarrow> (live - 1, pool_drop self rt)))"

definition handles_inv :: "'et managed_channel_pool \<Rightarrow> nat \<Rightarrow> nat \<Rightarrow> nat set \<Rightarrow> nat \<times> runtime \<Rightarrow> bool" where
  "handles_inv self t1 t2 before = (\<lambda>(live, rt).
     (if live = 0 then arcs rt (dns_lookup_task self) = None \<and> arcs rt (doctor_task_arc self) = None \<and>
           tasks rt = before
      else arcs rt (dns_lookup_task self) = Some (live, Some t1) \<and>
           arcs rt (doctor_task_arc self) = Some (live, Some t2) \<and> tasks rt = before \<union> {t1, t2}))"

lemma handle_ops_inv:
  assumes "dns_lookup_task self \<noteq> doctor_task_arc self" "t1 \<notin> before" "t2 \<notin> before"
    and "handles_inv self t1 t2 before s"
  shows "handles_inv self t1 t2 before (handle_ops self ops s)"
  using assms
proof (induction self ops s rule: handle_ops.induct)
  case (2 self oper rest live rt)
  show ?case
  proof (cases "live = 0")
    case False
    have "handles_inv self t1 t2 before
        (case oper of CloneHandle \<Rightarrow> (Suc live, snd (pool_clone self rt)) | DropHandle \<Rightarrow> (live - 1, pool_drop self rt))"
      using 2(2-5) 2(2) [symmetric] False
      by (cases oper)
         (auto simp: handles_inv_def pool_clone_def pool_drop_def arc_clone_def arc_drop_def abort_on_drop_drop_def)
    with 2 False show ?thesis by simp
  qed (use 2 in simp)
qed simp

lemma tasks_of_handles:
  assumes "\<And>t. t \<in> tasks rt \<Longrightarrow> t < fresh rt"
    and "pool_build b rt = (self, rt1)" "handle_ops self ops (1, rt1) = (live, rt2)"
  shows "tasks rt2 = tasks rt \<union> (if live = 0 then {} else {fresh rt, fresh rt + 1})"
proof -
  have b: "dns_lookup_task self = fresh rt + 2" "doctor_task_arc self = fresh rt + 3"
    "rt1 = rt\<lparr>arcs := (arcs rt)(fresh rt + 2 \<mapsto> (1, Some (fresh rt)), fresh rt + 3 \<mapsto> (1, Some (fresh rt + 1))),
       tasks := insert (fresh rt + 1) (insert (fresh rt) (tasks rt)), fresh := fresh rt + 4\<rparr>"
    using assms(2) by (auto simp: pool_build_def spawn_def arc_new_def abort_on_drop_from_def eval_nat_numeral)
  have "handles_inv self (fresh rt) (fresh rt + 1) (tasks rt) (1, rt1)"
    by (auto simp: handles_inv_def b)
  then have "handles_inv self (fresh rt) (fresh rt + 1) (tasks rt) (live, rt2)"
    unfolding assms(3) [symmetric] using assms(1) [of "fresh rt"] assms(1) [of "fresh rt + 1"]
    by (intro handle_ops_inv) (auto simp: b)
  then show ?thesis by (auto simp: handles_inv_def)
qed

section \<open>The trait\<close>

text \<open>
  The two methods for a caller whose calls nobody else's steps interrupt.  Besides the
  shared state and the lock, the state has the number of calls so far: call \<open>i\<close> sees the
  clock, the network and the resolver of \<open>envs i\<close>, and \<open>picks i\<close> is the order in which its
  futures advance.
\<close>

type_synonym ('t, 'ch) managed = "('t, 'ch) pool \<times> 't gate \<times> nat"

definition managed_get ::
  "(nat \<Rightarrow> ('t, 'ep, 'ch, 'ioe) pool_env) \<Rightarrow> (nat \<Rightarrow> ('t, 'ep, 'ch) contender list \<Rightarrow> nat) \<Rightarrow>
     ('t, 'ch) managed \<Rightarrow> ((ip_addr \<times> 'ch) option \<times> ('t, 'ch) managed) may_panic" where
  "managed_get envs picks = (\<lambda>(st, g, i).
     map_ok (\<lambda>(r, st, g). (r, (st, g, Suc i)))
       (the (get_run (envs i) (picks i) (steps_needed (envs i) st) (st, g, GetAny))))"

definition managed_report ::
  "(nat \<Rightarrow> ('t, 'ep, 'ch, 'ioe) pool_env) \<Rightarrow> ip_addr \<Rightarrow> ('t, 'ch) managed \<Rightarrow> ('t, 'ch) managed may_panic" where
  "managed_report envs a = (\<lambda>(st, g, i). map_ok (\<lambda>st. (st, g, i)) (report_broken (envs i) a st))"

text \<open>
  Calls that all fall into 500 milliseconds, on one clock, of a name that never resolves to
  more than \<open>m\<close> addresses.
\<close>

definition brief :: "('t::linorder \<Rightarrow> int) \<Rightarrow> nat \<Rightarrow> (nat \<Rightarrow> ('t, 'ep, 'ch, 'ioe) pool_env) \<Rightarrow> bool" where
  "brief ts m envs \<longleftrightarrow>
     (\<forall>i. env_ok ts (envs i) \<and> clock (envs i) = clock (envs 0) \<and>
       overflow_checks (envs i) = overflow_checks (envs 0) \<and> length (resolved_addresses (envs i)) \<le> m) \<and>
     (\<forall>i j. i \<le> j \<longrightarrow>
       signed_duration_since (clock (envs 0)) (env_now (envs j) 0) (env_now (envs i) 0) < MIN_INTERVAL)"

text \<open>One of the calls has stamped the lock: no later one forces a recheck.\<close>

definition stamped :: "(nat \<Rightarrow> ('t, 'ep, 'ch, 'ioe) pool_env) \<Rightarrow> 't gate \<Rightarrow> nat \<Rightarrow> bool" where
  "stamped envs g i \<longleftrightarrow> (\<exists>j<i. last_recheck g = env_now (envs j) 0)"

definition managed_inv ::
  "('t::linorder \<Rightarrow> int) \<Rightarrow> nat \<Rightarrow> (nat \<Rightarrow> ('t, 'ep, 'ch, 'ioe) pool_env) \<Rightarrow>
     (nat \<Rightarrow> ('t, 'ep, 'ch) contender list \<Rightarrow> nat) \<Rightarrow> ('t, 'ch) managed \<Rightarrow> bool" where
  "managed_inv ts m envs picks = (\<lambda>(st, g, i).
     brief ts m envs \<and> (\<forall>i. valid_pick (picks i)) \<and> holder g = None \<and>
     (stamped envs g i \<or> list_all (retest_safe (envs 0)) (addresses (broken_endpoints st))))"

text \<open>
  Before the forced recheck every channel can be handed out, come back from the broken
  ones, and be handed out again; afterwards only the ready ones are left.
\<close>

definition managed_stock :: "nat \<Rightarrow> (nat \<Rightarrow> ('t, 'ep, 'ch, 'ioe) pool_env) \<Rightarrow> ('t, 'ch) managed \<Rightarrow> nat" where
  "managed_stock m envs = (\<lambda>(st, g, i).
     if stamped envs g i then ready_size st
     else 2 * ready_size st + length (addresses (broken_endpoints st)) + m + 1)"

lemma stamped_mono: "stamped envs g i \<Longrightarrow> stamped envs g (Suc i)"
  by (auto simp: stamped_def less_Suc_eq)

lemma retest_safe_cong:
  "clock env = clock env' \<Longrightarrow> overflow_checks env = overflow_checks env' \<Longrightarrow> retest_safe env d = retest_safe env' d"
  by (simp add: retest_safe_def)

lemma managed_get_cases:
  assumes "managed_inv ts m envs picks (st, g, i)"
  obtains (quiet) "channels (ready_clients st) \<noteq> [] \<or> within_interval (envs i) g"
      "managed_get envs picks (st, g, i) = Inr (fst (get_any_at st), (snd (get_any_at st), g, Suc i))"
  | (forced) r st' g' where "channels (ready_clients st) = []" "\<not> stamped envs g i"
      "managed_get envs picks (st, g, i) = Inr (r, (st', g', Suc i))"
      "holder g' = None" "stamped envs g' (Suc i)"
      "ready_size st' \<le> m + length (addresses (broken_endpoints st))"
proof (cases "channels (ready_clients st) \<noteq> [] \<or> within_interval (envs i) g")
  case True
  have "2 \<le> steps_needed (envs i) st" by (simp add: steps_needed_def)
  with get_run_quiet [of st g "envs i" "steps_needed (envs i) st" "picks i"] assms True quiet show thesis
    by (simp add: managed_get_def managed_inv_def)
next
  case False
  from assms have inv: "brief ts m envs" "valid_pick (picks i)" "holder g = None"
    "stamped envs g i \<or> list_all (retest_safe (envs 0)) (addresses (broken_endpoints st))"
    by (auto simp: managed_inv_def)
  have c: "clock (envs i) = clock (envs 0)" "overflow_checks (envs i) = overflow_checks (envs 0)"
    "env_ok ts (envs i)" "length (resolved_addresses (envs i)) \<le> m"
    using inv(1) unfolding brief_def by blast+
  have ns: "\<not> stamped envs g i"
  proof
    assume "stamped envs g i"
    then obtain j where j: "j < i" "last_recheck g = env_now (envs j) 0" by (auto simp: stamped_def)
    with inv(1) have "signed_duration_since (clock (envs 0)) (env_now (envs i) 0) (env_now (envs j) 0) < MIN_INTERVAL"
      unfolding brief_def by simp
    with False j(2) c(1) show False by (simp add: within_interval_def)
  qed
  with inv(4) have "list_all (retest_safe (envs i)) (addresses (broken_endpoints st))"
    using retest_safe_cong [OF c(1,2)] by (simp add: list_all_iff)
  from forced_recheck_run [OF c(3) inv(2) this _ inv(3)] False obtain r st' g' where
    run: "get_run (envs i) (picks i) (steps_needed (envs i) st) (st, g, GetAny) = Some (Inr (r, st', g'))"
    "last_recheck g' = env_now (envs i) 0" "holder g' = None"
    "ready_size st' \<le> length (resolved_addresses (envs i)) + length (addresses (broken_endpoints st))"
    by auto
  show thesis
  proof (rule forced)
    show "managed_get envs picks (st, g, i) = Inr (r, (st', g', Suc i))" by (simp add: managed_get_def run(1))
    show "stamped envs g' (Suc i)" using run(2) by (auto simp: stamped_def)
    show "ready_size st' \<le> m + length (addresses (broken_endpoints st))" using run(4) c(4) by simp
  qed (use False ns run(3) in auto)
qed

lemma remove_shortens:
  assumes "(a, ch) \<in> set (channels rc)"
  shows "length (channels (ready_remove rc a)) < length (channels rc)"
proof -
  have "a \<in> keys_of fst (ready_entries rc)" using assms by (force simp: keys_of_def)
  then have "size (ready_entries (ready_remove rc a)) < size (ready_entries rc)"
    using rc.size_remove [of rc a] assms
    by (cases "channels rc")
       (auto simp: rc.lookup_is_None ready_find_eq_map_of map_of_eq_None_iff image_iff
         split: option.splits if_splits)
  then show ?thesis by simp
qed

lemma get_any_at_stock:
  assumes "get_any_at st = (r, st')"
  shows "channels (ready_clients st') = channels (ready_clients st)" "broken_endpoints st' = broken_endpoints st"
    "r = Some e \<Longrightarrow> e \<in> set (channels (ready_clients st))"
proof -
  have "channels (ready_clients st') = channels (ready_clients st) \<and>
      (r = Some e \<longrightarrow> e \<in> set (channels (ready_clients st)))"
  proof (cases "channels (ready_clients st) = []")
    case True
    with assms show ?thesis by (auto simp: get_any_at_empty)
  next
    case False
    then obtain x n where "get_any_at st = (Some x, st\<lparr>ready_clients := (ready_clients st)\<lparr>index := n\<rparr>\<rparr>)"
      "x \<in> set (channels (ready_clients st))" by (rule get_any_at_Some)
    with assms show ?thesis by auto
  qed
  then show "channels (ready_clients st') = channels (ready_clients st)"
    "r = Some e \<Longrightarrow> e \<in> set (channels (ready_clients st))" by auto
  show "broken_endpoints st' = broken_endpoints st" by (rule get_any_at_broken [OF assms])
qed

lemma managed_report_eq:
  assumes "managed_inv ts m envs picks (st, g, i)"
  obtains d where "managed_report envs a (st, g, i) =
      Inr (st\<lparr>ready_clients := ready_remove (ready_clients st) a,
        broken_endpoints := broken_insert (broken_endpoints st) d\<rparr>, g, i)"
    "retest_safe (envs 0) d"
proof -
  have c: "env_ok ts (envs i)" "clock (envs i) = clock (envs 0)"
    using assms unfolding managed_inv_def brief_def prod.case by blast+
  obtain d where d: "report_broken (envs i) a st = Inr (st\<lparr>ready_clients := ready_remove (ready_clients st) a,
        broken_endpoints := broken_insert (broken_endpoints st) d\<rparr>)"
      "delayed_failed_times (clock (envs i)) d = 1"
    by (rule report_broken_spec [OF c(1)])
  then show thesis
    using c(2) by (intro that [of d]) (simp_all add: managed_report_def retest_safe_def)
qed

lemma managed_get_keeps:
  assumes "managed_inv ts m envs picks p"
  shows "\<exists>r p'. managed_get envs picks p = Inr (r, p') \<and> managed_inv ts m envs picks p' \<and>
    managed_stock m envs p' \<le> managed_stock m envs p"
proof -
  obtain st g i where p: "p = (st, g, i)" by (cases p)
  with assms have inv: "managed_inv ts m envs picks (st, g, i)" by simp
  show ?thesis
  proof (cases rule: managed_get_cases [OF inv, case_names quiet forced])
    case quiet
    obtain r st' where r: "get_any_at st = (r, st')" by fastforce
    from get_any_at_stock [OF r] stamped_mono [of envs g i] inv quiet(2) show ?thesis
      by (auto simp: p r managed_inv_def managed_stock_def)
  next
    case (forced r st' g')
    with inv show ?thesis by (auto simp: p managed_inv_def managed_stock_def)
  qed
qed

lemma managed_report_keeps:
  assumes "managed_inv ts m envs picks p"
  shows "\<exists>p'. managed_report envs a p = Inr p' \<and> managed_inv ts m envs picks p'"
proof -
  obtain st g i where p: "p = (st, g, i)" by (cases p)
  with assms have inv: "managed_inv ts m envs picks (st, g, i)" by simp
  obtain d where "managed_report envs a (st, g, i) =
      Inr (st\<lparr>ready_clients := ready_remove (ready_clients st) a,
        broken_endpoints := broken_insert (broken_endpoints st) d\<rparr>, g, i)"
    "retest_safe (envs 0) d"
    by (rule managed_report_eq [OF inv])
  with inv show ?thesis by (auto simp: p managed_inv_def list_all_iff)
qed

text \<open>Reporting the address just handed out uses up stock.\<close>

lemma managed_report_drains:
  assumes "managed_inv ts m envs picks p" "managed_get envs picks p = Inr (Some (a, ch), p')"
    and "managed_report envs a p' = Inr p''"
  shows "managed_stock m envs p'' < managed_stock m envs p"
proof -
  obtain st g i where p: "p = (st, g, i)" by (cases p)
  with assms(1) have inv: "managed_inv ts m envs picks (st, g, i)" by simp
  obtain st1 g1 where p': "p' = (st1, g1, Suc i)"
    using assms(2) by (cases rule: managed_get_cases [OF inv]) (auto simp: p)
  have inv': "managed_inv ts m envs picks (st1, g1, Suc i)"
    using managed_get_keeps [OF assms(1)] assms(2) p' by simp
  obtain d where p'': "p'' = (st1\<lparr>ready_clients := ready_remove (ready_clients st1) a,
        broken_endpoints := broken_insert (broken_endpoints st1) d\<rparr>, g1, Suc i)"
    using assms(3) p' by (metis managed_report_eq [OF inv', of a] sum.inject(2))
  have broken: "length (addresses (broken_insert be d)) \<le> Suc (length (addresses be))" for be
    by (simp add: heap_push_def)
  show ?thesis
  proof (cases rule: managed_get_cases [OF inv, case_names quiet forced])
    case quiet
    then have r: "get_any_at st = (Some (a, ch), st1)" "g1 = g"
      using assms(2) by (auto simp: p p' prod_eq_iff)
    with get_any_at_stock [OF r(1)] have st1: "channels (ready_clients st1) = channels (ready_clients st)"
      "broken_endpoints st1 = broken_endpoints st" "(a, ch) \<in> set (channels (ready_clients st1))" by auto
    from remove_shortens [OF st1(3)] broken [of "broken_endpoints st"] stamped_mono [of envs g i] st1 show ?thesis
      by (auto simp: p p'' r(2) managed_stock_def simp del: broken_insert_addresses)
  next
    case (forced r st' g')
    then have "st' = st1" "g' = g1" using assms(2) by (auto simp: p p')
    moreover have "ready_size (st1\<lparr>ready_clients := ready_remove (ready_clients st1) a\<rparr>) \<le> ready_size st1"
      using rc.size_remove [of "ready_clients st1" a] by (simp split: option.splits)
    ultimately show ?thesis using forced by (simp add: p p'' managed_stock_def)
  qed
qed

interpretation managed: draining_pool "managed_get envs picks" "managed_report envs"
    "managed_inv ts m envs picks" "managed_stock m envs"
  by unfold_locales (use managed_get_keeps managed_report_keeps managed_report_drains in fastforce)+

section \<open>Properties\<close>



end
