(* ===== verification/Dns_Task.thy ===== *)
theory Dns_Task
  imports Managed_Pool
begin

text \<open>
  When the DNS task of \<open>soda-pool/src/pool.rs\<close> makes its checks.  Tokio's \<open>Interval\<close> is a
  parameter with its documented behaviour, and instants are nanoseconds on tokio's clock.
\<close>

section \<open>Tokio's interval\<close>

text \<open>
  \<open>interval_new\<close> is \<open>tokio::time::interval\<close>, called at an instant; \<open>tick\<close>, polled at an
  instant, gives the instant at which it completes.
\<close>

record 'iv interval_lib =
  interval_new :: "nat \<Rightarrow> duration \<Rightarrow> 'iv may_panic"
  interval_tick :: "'iv \<Rightarrow> nat \<Rightarrow> nat \<times> 'iv"

text \<open>
  What tokio documents, with the period of an interval and the deadline of its next tick:
  \<open>interval\<close> panics for the period zero; the first tick completes immediately, and each has
  its deadline one period after the last one's, also when ticks were missed (the default
  \<open>MissedTickBehavior\<close> is \<open>Burst\<close>).  A tick completes when it has been polled and its
  deadline has passed, up to \<open>slack\<close> later.
\<close>

definition interval_laws :: "'iv interval_lib \<Rightarrow> ('iv \<Rightarrow> duration) \<Rightarrow> ('iv \<Rightarrow> nat) \<Rightarrow> nat \<Rightarrow> bool" where
  "interval_laws I period due slack \<longleftrightarrow>
     (\<forall>now. \<exists>p. interval_new I now 0 = Inl p) \<and>
     (\<forall>now d. d \<noteq> 0 \<longrightarrow> (\<exists>iv. interval_new I now d = Inr iv \<and> period iv = d \<and> due iv = now)) \<and>
     (\<forall>iv now. period (snd (interval_tick I iv now)) = period iv \<and>
        due (snd (interval_tick I iv now)) = due iv + period iv \<and>
        max now (due iv) \<le> fst (interval_tick I iv now) \<and>
        fst (interval_tick I iv now) \<le> max now (due iv) + slack)"

lemma interval_lawsD:
  assumes "interval_laws I period due slack"
  shows interval_zero: "\<exists>p. interval_new I now 0 = Inl p"
    and interval_start: "d \<noteq> 0 \<Longrightarrow> \<exists>iv. interval_new I now d = Inr iv \<and> period iv = d \<and> due iv = now"
    and tick_period: "period (snd (interval_tick I iv now)) = period iv"
    and tick_due: "due (snd (interval_tick I iv now)) = due iv + period iv"
    and tick_lower: "max now (due iv) \<le> fst (interval_tick I iv now)"
    and tick_upper: "fst (interval_tick I iv now) \<le> max now (due iv) + slack"
  using assms unfolding interval_laws_def by blast+

text \<open>An interval that is never late, as the deadline of its next tick and its period.\<close>

definition exact_interval :: "(nat \<times> duration) interval_lib" where
  "exact_interval =
     \<lparr>interval_new = (\<lambda>now d. if d = 0 then Inl (Panicked ''`period` must be non-zero.'') else Inr (now, d)),
      interval_tick = (\<lambda>(due, d) now. (max now due, (due + d, d)))\<rparr>"

lemma exact_interval_laws: "interval_laws exact_interval snd fst 0"
  by (auto simp: interval_laws_def exact_interval_def split: prod.splits)

section \<open>The task\<close>

text \<open>
  \<open>n\<close> rounds of the task from round \<open>k\<close> on: a check, and the wait for the next tick.  Check
  \<open>k\<close> sees the environment \<open>envs k\<close> and takes \<open>took k\<close>; between it and the next one the other
  tasks change the pool by \<open>others k\<close>.  The result has the start of each check and the pool
  it leaves.
\<close>

fun dns_task ::
  "'iv interval_lib \<Rightarrow> (nat \<Rightarrow> ('t, 'ep, 'ch, 'ioe) pool_env) \<Rightarrow> (nat \<Rightarrow> nat) \<Rightarrow>
     (nat \<Rightarrow> ('t, 'ch) pool \<Rightarrow> ('t, 'ch) pool) \<Rightarrow> nat \<Rightarrow> nat \<Rightarrow> 'iv \<Rightarrow> nat \<Rightarrow> ('t, 'ch) pool \<Rightarrow>
     (nat \<times> ('t, 'ch) pool) list may_panic"
where
  "dns_task I envs took others 0 k iv now st = Inr []"
| "dns_task I envs took others (Suc n) k iv now st =
     bind_res (check_dns (envs k) st) (\<lambda>st.
       case interval_tick I iv (now + took k) of
         (next_now, iv) \<Rightarrow>
           map_ok (Cons (now, st)) (dns_task I envs took others n (Suc k) iv next_now (others k st)))"

definition dns_task_run ::
  "'iv interval_lib \<Rightarrow> (nat \<Rightarrow> ('t, 'ep, 'ch, 'ioe) pool_env) \<Rightarrow> (nat \<Rightarrow> nat) \<Rightarrow>
     (nat \<Rightarrow> ('t, 'ch) pool \<Rightarrow> ('t, 'ch) pool) \<Rightarrow> nat \<Rightarrow> 'et managed_channel_pool_builder \<Rightarrow> nat \<Rightarrow>
     (nat \<times> ('t, 'ch) pool) list may_panic"
where
  "dns_task_run I envs took others n self now =
     bind_res (interval_new I now (builder_dns_interval self))
       (\<lambda>iv. dns_task I envs took others n 0 iv now pool_initial)"

section \<open>The schedule\<close>

text \<open>When check \<open>k\<close> starts, and the interval as it is then.\<close>

primrec check_time :: "'iv interval_lib \<Rightarrow> (nat \<Rightarrow> nat) \<Rightarrow> 'iv \<Rightarrow> nat \<Rightarrow> nat \<Rightarrow> nat \<times> 'iv" where
  "check_time I took iv now 0 = (now, iv)"
| "check_time I took iv now (Suc k) =
     (case check_time I took iv now k of (s, iv) \<Rightarrow> interval_tick I iv (s + took k))"

lemma check_due:
  assumes "interval_laws I period due slack" "due iv = now"
  shows "period (snd (check_time I took iv now k)) = period iv \<and>
    due (snd (check_time I took iv now k)) = now + k * period iv"
proof (induction k)
  case (Suc k)
  then show ?case
    using tick_due [OF assms(1)] tick_period [OF assms(1)]
    by (cases "check_time I took iv now k") (simp add: assms(2))
qed (simp add: assms(2))

lemma check_time_lower:
  assumes "interval_laws I period due slack" "due iv = now"
  shows "now + k * period iv \<le> fst (check_time I took iv now (Suc k))"
  using check_due [OF assms, of took k] tick_lower [OF assms(1)]
  by (cases "check_time I took iv now k") (metis check_time.simps(2) case_prod_conv max.bounded_iff snd_conv)

text \<open>Checks that are shorter than the period keep the schedule.\<close>

lemma check_time_upper:
  assumes "interval_laws I period due slack" "due iv = now"
    and "\<And>k. took k \<le> d" "d + slack \<le> period iv"
  shows "fst (check_time I took iv now (Suc k)) \<le> now + k * period iv + d + slack"
proof (induction k)
  case 0
  have "fst (interval_tick I iv (now + took 0)) \<le> max (now + took 0) (due iv) + slack"
    by (rule tick_upper [OF assms(1)])
  with assms(2) assms(3) [of 0] show ?case by simp
next
  case (Suc k)
  obtain s jv where s: "check_time I took iv now (Suc k) = (s, jv)" by fastforce
  have "fst (interval_tick I jv (s + took (Suc k))) \<le> max (s + took (Suc k)) (due jv) + slack"
    by (rule tick_upper [OF assms(1)])
  moreover have "due jv = now + Suc k * period iv" using check_due [OF assms(1,2), of took "Suc k"] s by simp
  moreover have "s + took (Suc k) \<le> now + k * period iv + d + slack + d" using Suc s assms(3) [of "Suc k"] by simp
  ultimately show ?case using s assms(4) by simp
qed

text \<open>No check starts before the one before it has ended.\<close>

lemma check_time_after:
  assumes "interval_laws I period due slack"
  shows "fst (check_time I took iv now k) + took k \<le> fst (check_time I took iv now (Suc k))"
  using tick_lower [OF assms] by (cases "check_time I took iv now k") simp

text \<open>The first deadline at or after an instant.\<close>

lemma next_deadline:
  fixes now T p :: nat
  assumes "p \<noteq> 0" "now \<le> T"
  shows "\<exists>k. T \<le> now + k * p \<and> now + k * p \<le> T + p"
proof -
  let ?k = "(T - now) div p"
  have "?k * p \<le> T - now" "T - now < ?k * p + p"
    using div_mult_mod_eq [of "T - now" p] mod_less_divisor [of p "T - now"] assms(1) by linarith+
  with assms(2) have "T \<le> now + Suc ?k * p" "now + Suc ?k * p \<le> T + p"
    unfolding mult_Suc by linarith+
  then show ?thesis by blast
qed

section \<open>What the task leaves\<close>

text \<open>
  Checks that do not panic: of a configured template, with a name that resolves to distinct
  addresses or not at all, and among tasks that keep the broken endpoints well formed.
\<close>

definition check_env :: "('t::linorder \<Rightarrow> int) \<Rightarrow> 't chrono \<Rightarrow> ('t, 'ep, 'ch, 'ioe) pool_env \<Rightarrow> bool" where
  "check_env ts C env \<longleftrightarrow> env_ok ts env \<and> clock env = C \<and>
     ((\<exists>as. distinct as \<and> resolves_to env as) \<or>
      (\<exists>d e. domain_name env = Inr d \<and> resolve_domain (to_socket_addrs env) d = Inl e))"

definition keeps_broken_wf :: "'t chrono \<Rightarrow> (('t, 'ch) pool \<Rightarrow> ('t, 'ch) pool) \<Rightarrow> bool" where
  "keeps_broken_wf C f \<longleftrightarrow> (\<forall>st. broken_wf C (broken_endpoints st) \<longrightarrow> broken_wf C (broken_endpoints (f st)))"

text \<open>Any sequence of reports and retests of the other tasks does.\<close>

definition others_step :: "(('t, 'ch) pool \<Rightarrow> ('t, 'ch) pool may_panic) \<Rightarrow> ('t, 'ch) pool \<Rightarrow> ('t, 'ch) pool" where
  "others_step f st = (case f st of Inl _ \<Rightarrow> st | Inr st' \<Rightarrow> st')"

lemma keeps_broken_wf_comp: "keeps_broken_wf C f \<Longrightarrow> keeps_broken_wf C g \<Longrightarrow> keeps_broken_wf C (g \<circ> f)"
  by (simp add: keeps_broken_wf_def)

lemma keeps_broken_wf_report:
  assumes "env_ok ts env" "clock env = C"
  shows "keeps_broken_wf C (others_step (report_broken env a))"
proof -
  have "broken_wf C (broken_endpoints (others_step (report_broken env a) st))"
    if "broken_wf C (broken_endpoints st)" for st :: "('a, 'c) pool"
    by (rule report_broken_spec [OF assms(1), of a st]) (use assms(2) that in \<open>simp add: others_step_def broken_wf_insert\<close>)
  then show ?thesis by (simp add: keeps_broken_wf_def)
qed

lemma keeps_broken_wf_recheck:
  assumes "env_ok ts env" "clock env = C" "\<not> overflow_checks env \<or> unat (delayed_failed_times C d) < 255"
  shows "keeps_broken_wf C (others_step (recheck_broken_endpoint env d))"
proof -
  have "broken_wf C (broken_endpoints (others_step (recheck_broken_endpoint env d) st))"
    if "broken_wf C (broken_endpoints st)" for st :: "('a, 'c) pool"
    by (cases rule: recheck_spec [OF assms(1), of d st, case_names count ready broken])
       (use assms(2,3) that in \<open>simp_all add: others_step_def broken_wf_insert\<close>)
  then show ?thesis by (simp add: keeps_broken_wf_def)
qed

lemma check_env_run:
  assumes "check_env ts C env" "broken_wf C (broken_endpoints st)"
  obtains st' where "check_dns env st = Inr st'" "broken_wf C (broken_endpoints st')"
    "\<forall>as. resolves_to env as \<longrightarrow> pool_wf C st' \<and> ready_keys st' \<union> broken_keys st' = set as"
proof -
  from assms(1) have env: "env_ok ts env" "clock env = C" by (simp_all add: check_env_def)
  from assms(1) consider (resolved) as where "distinct as" "resolves_to env as"
    | (failed) d e where "domain_name env = Inr d" "resolve_domain (to_socket_addrs env) d = Inl e"
    by (auto simp: check_env_def)
  then show thesis
  proof cases
    case resolved
    have unique: "as' = as" if "resolves_to env as'" for as'
      using that resolved(2) by (auto simp: resolves_to_def)
    obtain st' where "check_dns env st = Inr st'" "pool_wf C st'" "ready_keys st' \<union> broken_keys st' = set as"
      using check_dns_partition [OF env(1) resolved(2,1), of st] assms(2) env(2) by auto
    with unique show thesis by (intro that [of st']) (auto simp: pool_wf_def)
  next
    case failed
    then have "check_dns env st = Inr st" by (simp add: check_dns_def)
    moreover have "\<not> resolves_to env as" for as using failed by (auto simp: resolves_to_def)
    ultimately show thesis using assms(2) that by blast
  qed
qed

lemma check_time_shift:
  "interval_tick I iv (now + took 0) = (now', iv') \<Longrightarrow>
    check_time I took iv now (Suc j) = check_time I (\<lambda>i. took (Suc i)) iv' now' j"
  by (induction j) (simp_all split: prod.splits)

lemma dns_task_log:
  assumes "\<And>k. check_env ts C (envs k)" "\<And>k. keeps_broken_wf C (others k)"
  shows "broken_wf C (broken_endpoints st) \<Longrightarrow>
    \<exists>log. dns_task I envs took others n k iv now st = Inr log \<and> length log = n \<and>
      (\<forall>j<n. fst (log ! j) = fst (check_time I (\<lambda>i. took (k + i)) iv now j) \<and>
        (\<forall>as. resolves_to (envs (k + j)) as \<longrightarrow>
          pool_wf C (snd (log ! j)) \<and> ready_keys (snd (log ! j)) \<union> broken_keys (snd (log ! j)) = set as))"
proof (induction n arbitrary: k iv now st)
  case (Suc n)
  obtain st' where st': "check_dns (envs k) st = Inr st'" "broken_wf C (broken_endpoints st')"
    "\<forall>as. resolves_to (envs k) as \<longrightarrow> pool_wf C st' \<and> ready_keys st' \<union> broken_keys st' = set as"
    by (rule check_env_run [OF assms(1) [of k] Suc.prems])
  obtain now' iv' where tick: "interval_tick I iv (now + took k) = (now', iv')" by fastforce
  have "broken_wf C (broken_endpoints (others k st'))"
    using assms(2) st'(2) unfolding keeps_broken_wf_def by blast
  from Suc.IH [OF this, of "Suc k" iv' now'] obtain log where
    log: "dns_task I envs took others n (Suc k) iv' now' (others k st') = Inr log" "length log = n"
      "\<And>j. j < n \<Longrightarrow> fst (log ! j) = fst (check_time I (\<lambda>i. took (Suc k + i)) iv' now' j) \<and>
        (\<forall>as. resolves_to (envs (Suc k + j)) as \<longrightarrow>
          pool_wf C (snd (log ! j)) \<and> ready_keys (snd (log ! j)) \<union> broken_keys (snd (log ! j)) = set as)"
    by blast
  have shift: "check_time I (\<lambda>i. took (k + i)) iv now (Suc j) = check_time I (\<lambda>i. took (Suc k + i)) iv' now' j" for j
    using check_time_shift [of I iv now "\<lambda>i. took (k + i)" now' iv' j] tick by simp
  have "fst (((now, st') # log) ! j) = fst (check_time I (\<lambda>i. took (k + i)) iv now j) \<and>
      (\<forall>as. resolves_to (envs (k + j)) as \<longrightarrow> pool_wf C (snd (((now, st') # log) ! j)) \<and>
        ready_keys (snd (((now, st') # log) ! j)) \<union> broken_keys (snd (((now, st') # log) ! j)) = set as)" if "j < Suc n" for j
  proof (cases j)
    case 0
    with st'(3) show ?thesis by simp
  next
    case (Suc i)
    with log(3) [of i] that show ?thesis by (simp add: shift del: check_time.simps)
  qed
  with st'(1) tick log(1,2) show ?case by (intro exI [of _ "(now, st') # log"]) simp
qed simp

text \<open>The first \<open>n\<close> checks of a task, with the interval it has made.\<close>

lemma dns_task_run_log:
  assumes "interval_laws I period due slack" "builder_dns_interval b \<noteq> 0"
    and "\<And>k. check_env ts C (envs k)" "\<And>k. keeps_broken_wf C (others k)"
  obtains iv log where "dns_task_run I envs took others n b now = Inr log" "length log = n"
    "period iv = builder_dns_interval b" "due iv = now"
    "\<forall>k<n. fst (log ! k) = fst (check_time I took iv now k)"
    "\<forall>k<n. \<forall>as. resolves_to (envs k) as \<longrightarrow>
      pool_wf C (snd (log ! k)) \<and> ready_keys (snd (log ! k)) \<union> broken_keys (snd (log ! k)) = set as"
    "interval_new I now (builder_dns_interval b) = Inr iv"
proof -
  obtain iv where iv: "interval_new I now (builder_dns_interval b) = Inr iv"
      "period iv = builder_dns_interval b" "due iv = now"
    using interval_start [OF assms(1,2)] by blast
  have "broken_wf C (broken_endpoints pool_initial)" by (simp add: broken_wf_def)
  from dns_task_log [where envs = envs and others = others and k = 0 and I = I and iv = iv and now = now
      and took = took and n = n, OF assms(3,4) this]
  obtain log where log: "dns_task I envs took others n 0 iv now pool_initial = Inr log" "length log = n"
    "\<forall>j<n. fst (log ! j) = fst (check_time I took iv now j)"
    "\<forall>j<n. \<forall>as. resolves_to (envs j) as \<longrightarrow>
      pool_wf C (snd (log ! j)) \<and> ready_keys (snd (log ! j)) \<union> broken_keys (snd (log ! j)) = set as"
    by auto
  have "dns_task_run I envs took others n b now = Inr log" using iv(1) log(1) by (simp add: dns_task_run_def)
  then show thesis by (rule that) (use iv log(2-4) in auto)
qed

section \<open>Properties\<close>

text \<open>
  C6: when the DNS task makes its checks.  Check \<open>k + 1\<close>, counted from 0, starts \<open>k\<close>
  intervals after the first at the earliest, and if checks are shorter than the interval,
  no later than a check and a tick's delay after that.  So the second check follows the
  first at once: the first tick of an interval does not wait.
\<close>

theorem dns_checks_on_schedule:
  assumes "interval_laws I period due slack" "builder_dns_interval b \<noteq> 0"
    and "\<And>k. check_env ts C (envs k)" "\<And>k. keeps_broken_wf C (others k)"
    and "\<And>k. took k \<le> d" "d + slack \<le> builder_dns_interval b"
  shows "\<exists>log. dns_task_run I envs took others (Suc (Suc k)) b now = Inr log \<and> length log = Suc (Suc k) \<and>
    fst (log ! 0) = now \<and>
    now + k * builder_dns_interval b \<le> fst (log ! Suc k) \<and>
    fst (log ! Suc k) \<le> now + k * builder_dns_interval b + d + slack"
proof -
  obtain iv log where log: "dns_task_run I envs took others (Suc (Suc k)) b now = Inr log" "length log = Suc (Suc k)"
      "period iv = builder_dns_interval b" "due iv = now"
      "\<forall>j<Suc (Suc k). fst (log ! j) = fst (check_time I took iv now j)"
      "\<forall>j<Suc (Suc k). \<forall>as. resolves_to (envs j) as \<longrightarrow>
        pool_wf C (snd (log ! j)) \<and> ready_keys (snd (log ! j)) \<union> broken_keys (snd (log ! j)) = set as"
      "interval_new I now (builder_dns_interval b) = Inr iv"
    by (rule dns_task_run_log [where envs = envs and others = others and took = took and n = "Suc (Suc k)"
      and now = now, OF assms(1-4)])
  have "fst (log ! 0) = now" using log(5) by simp
  with check_time_lower [OF assms(1) log(4), of k took] check_time_upper [OF assms(1) log(4), of took d k] log assms(5,6)
  show ?thesis by (simp del: check_time.simps)
qed

theorem dns_checks_on_schedule_witness:
  "\<exists>log. dns_task_run exact_interval (\<lambda>_. nanos_env 0 [V4 1] (\<lambda>_. True)) (\<lambda>_. 100000000) (\<lambda>_ st. st) (Suc (Suc 2))
      (builder_new ()) 7 = Inr log \<and> fst (log ! 0) = 7 \<and>
    10000000007 \<le> fst (log ! Suc 2) \<and> fst (log ! Suc 2) \<le> 10100000007"
proof -
  have period: "builder_dns_interval (builder_new ()) = 5000000000"
    by (simp add: builder_new_def duration_from_secs_def)
  have "\<exists>log. dns_task_run exact_interval (\<lambda>_. nanos_env 0 [V4 1] (\<lambda>_. True)) (\<lambda>_. 100000000) (\<lambda>_ st. st) (Suc (Suc 2))
      (builder_new ()) 7 = Inr log \<and> length log = Suc (Suc 2) \<and> fst (log ! 0) = 7 \<and>
    7 + 2 * builder_dns_interval (builder_new ()) \<le> fst (log ! Suc 2) \<and>
    fst (log ! Suc 2) \<le> 7 + 2 * builder_dns_interval (builder_new ()) + 100000000 + 0"
    by (rule dns_checks_on_schedule [OF exact_interval_laws, where ts = "\<lambda>t. t" and C = utc_nanos])
       (simp_all add: period check_env_def keeps_broken_wf_def)
  then show ?thesis by (auto simp: period)
qed



text \<open>
  An interval of zero, which \<open>dns_interval\<close> accepts, makes the DNS task panic before its
  first check, so a pool built with it never looks its name up on its own.
\<close>

lemma zero_interval_kills_dns_task:
  assumes "interval_laws I period due slack"
  shows "\<exists>p. dns_task_run I envs took others n (dns_interval 0 b) now = Inl p"
  using interval_zero [OF assms, of now] by (auto simp: dns_task_run_def dns_interval_def)

end
