(* ===== verification/Pool_System.thy ===== *)
theory Pool_System
  imports Pool_Steps
begin

text \<open>
  A managed pool at work: the two background tasks that \<open>ManagedChannelPoolBuilder::build\<close>
  spawns and any number of clients calling \<open>get_channel\<close> and \<open>report_broken\<close>, interleaved
  between their \<open>await\<close>s, with the lock \<open>RECHECK_BROKEN_ENDPOINTS\<close> they share with the
  clients of every other pool of the process.

  A \<open>world\<close> says what can happen outside: which channels connecting to an endpoint can give,
  and which address lists the resolver can return.
\<close>

section \<open>State\<close>

record ('t, 'ep, 'ch, 'ioe) world =
  base :: "('t, 'ep, 'ch, 'ioe) pool_env"
  connects :: "'ep \<Rightarrow> 'ch \<Rightarrow> bool"
  resolutions :: "ip_addr list \<Rightarrow> bool"

text \<open>The background tasks.  \<open>DnsDead\<close> and \<open>DoctorDead\<close>: it panicked.\<close>

datatype ('t, 'ep, 'ch) dns_task = DnsCheck "('t, 'ep, 'ch) check_pc" | DnsTick | DnsDead

datatype ('t, 'ep, 'ch) doctor_task = DoctorNext | DoctorRecheck "('t, 'ep, 'ch) recheck_pc" | DoctorDead

text \<open>
  A client between calls, in one of the two calls, or one that uses another pool and holds
  the lock.
\<close>

datatype ('t, 'ep, 'ch) client =
    Idle
  | Getting "('t, 'ep, 'ch) get_pc"
  | Reporting report_pc
  | Elsewhere

record ('t, 'ep, 'ch) system =
  sys_pool :: "('t, 'ch) pool"
  sys_now :: 't
  sys_gate :: "'t gate"
  dns_task :: "('t, 'ep, 'ch) dns_task"
  doctor_task :: "('t, 'ep, 'ch) doctor_task"
  clients :: "nat \<Rightarrow> ('t, 'ep, 'ch) client"

text \<open>A pool just built: \<open>never\<close> is \<open>DateTime::MIN_UTC\<close>.\<close>

definition sys_initial :: "'t \<Rightarrow> 't \<Rightarrow> ('t, 'ep, 'ch) system" where
  "sys_initial never now =
     \<lparr>sys_pool = pool_initial, sys_now = now, sys_gate = \<lparr>last_recheck = never, holder = None\<rparr>,
      dns_task = DnsCheck CheckResolve, doctor_task = DoctorNext, clients = (\<lambda>_. Idle)\<rparr>"

text \<open>The environments a step can be made in.\<close>

definition env_at :: "('t, 'ep, 'ch, 'ioe) world \<Rightarrow> ('t, 'ep, 'ch) system \<Rightarrow> ('t, 'ep, 'ch, 'ioe) pool_env \<Rightarrow> bool" where
  "env_at W s env \<longleftrightarrow>
     clock env = clock (base W) \<and> build_endpoint env = build_endpoint (base W) \<and>
     domain_name env = domain_name (base W) \<and> overflow_checks env = overflow_checks (base W) \<and>
     env_now env 0 = sys_now s \<and>
     (\<forall>ep ch. env_connect env 0 ep = Some ch \<longrightarrow> connects W ep ch) \<and>
     (\<forall>d as. resolve_domain (to_socket_addrs env) d = Inr as \<longrightarrow> resolutions W as)"

section \<open>Steps of the tasks\<close>

text \<open>The loop of the DNS task and of the doctor task around their procedures.\<close>

definition dns_task_step ::
  "('t, 'ep, 'ch, 'ioe) pool_env \<Rightarrow> ('t, 'ch) pool \<times> ('t, 'ep, 'ch) dns_task \<Rightarrow> ('t, 'ch) pool \<times> ('t, 'ep, 'ch) dns_task"
where
  "dns_task_step env = (\<lambda>(st, task). case task of
       DnsCheck CheckEnd \<Rightarrow> (st, DnsTick)
     | DnsCheck pc \<Rightarrow>
         (case check_step env (st, pc) of Inl p \<Rightarrow> (st, DnsDead) | Inr (st', pc') \<Rightarrow> (st', DnsCheck pc'))
     | DnsTick \<Rightarrow> (st, DnsCheck CheckResolve)
     | DnsDead \<Rightarrow> (st, DnsDead))"

text \<open>
  \<open>DoctorNext\<close> is a pass of \<open>next_broken_ip_address\<close>; a pass that has to wait is made again
  when the wait is over.
\<close>

definition doctor_task_step ::
  "('t::linorder, 'ep, 'ch, 'ioe) pool_env \<Rightarrow> ('t, 'ch) pool \<times> ('t, 'ep, 'ch) doctor_task \<Rightarrow>
     ('t, 'ch) pool \<times> ('t, 'ep, 'ch) doctor_task"
where
  "doctor_task_step env = (\<lambda>(st, task). case task of
       DoctorNext \<Rightarrow>
         (case next_broken_pass (clock env) (env_now env 0) (broken_endpoints st) of
            Inl p \<Rightarrow> (st, DoctorDead)
          | Inr (Return entry, be) \<Rightarrow> (st\<lparr>broken_endpoints := be\<rparr>, DoctorRecheck (RecheckBuild entry))
          | Inr (_, be) \<Rightarrow> (st\<lparr>broken_endpoints := be\<rparr>, DoctorNext))
     | DoctorRecheck RecheckEnd \<Rightarrow> (st, DoctorNext)
     | DoctorRecheck pc \<Rightarrow>
         (case recheck_step env (st, pc) of
            Inl p \<Rightarrow> (st, DoctorDead)
          | Inr (st', pc') \<Rightarrow> (st', DoctorRecheck pc'))
     | DoctorDead \<Rightarrow> (st, DoctorDead))"

text \<open>Dropping what a client runs gives the lock back if the client holds it.\<close>

definition drop_client :: "nat \<Rightarrow> ('t, 'ep, 'ch) system \<Rightarrow> ('t, 'ep, 'ch) system" where
  "drop_client i s =
     s\<lparr>clients := (clients s)(i := Idle),
       sys_gate := (if holder (sys_gate s) = Some i then release (sys_gate s) else sys_gate s)\<rparr>"

text \<open>A step of client \<open>i\<close>'s call; a panic unwinds it.  \<open>None\<close>: there is nothing to do.\<close>

definition client_step ::
  "('t, 'ep, 'ch, 'ioe) pool_env \<Rightarrow> nat \<Rightarrow> nat \<Rightarrow> ('t, 'ep, 'ch) system \<Rightarrow> ('t, 'ep, 'ch) system option"
where
  "client_step env i k s =
     (case clients s i of
        Getting pc \<Rightarrow>
          (case get_step env i k (sys_pool s, sys_gate s, pc) of
             None \<Rightarrow> None
           | Some (Inl p) \<Rightarrow> Some (drop_client i s)
           | Some (Inr (st, g, pc')) \<Rightarrow>
               Some (s\<lparr>sys_pool := st, sys_gate := g, clients := (clients s)(i := Getting pc')\<rparr>))
      | Reporting pc \<Rightarrow>
          (case report_step env (sys_pool s, pc) of
             Inl p \<Rightarrow> Some (drop_client i s)
           | Inr (st, pc') \<Rightarrow> Some (s\<lparr>sys_pool := st, clients := (clients s)(i := Reporting pc')\<rparr>))
      | _ \<Rightarrow> None)"

inductive sys_step :: "('t::linorder, 'ep, 'ch, 'ioe) world \<Rightarrow> ('t, 'ep, 'ch) system \<Rightarrow> ('t, 'ep, 'ch) system \<Rightarrow> bool"
  for W
where
  time: "sys_now s \<le> t \<Longrightarrow> sys_step W s (s\<lparr>sys_now := t\<rparr>)"
| dns: "env_at W s env \<Longrightarrow> dns_task_step env (sys_pool s, dns_task s) = (st, task) \<Longrightarrow>
    sys_step W s (s\<lparr>sys_pool := st, dns_task := task\<rparr>)"
| doctor: "env_at W s env \<Longrightarrow> doctor_task_step env (sys_pool s, doctor_task s) = (st, task) \<Longrightarrow>
    sys_step W s (s\<lparr>sys_pool := st, doctor_task := task\<rparr>)"
| get: "clients s i = Idle \<Longrightarrow> sys_step W s (s\<lparr>clients := (clients s)(i := Getting GetAny)\<rparr>)"
| report: "clients s i = Idle \<Longrightarrow> sys_step W s (s\<lparr>clients := (clients s)(i := Reporting (ReportRemove a))\<rparr>)"
| call: "env_at W s env \<Longrightarrow> client_step env i k s = Some s' \<Longrightarrow> sys_step W s s'"
| drop: "sys_step W s (drop_client i s)"
| elsewhere: "clients s i = Idle \<Longrightarrow> holder (sys_gate s) = None \<Longrightarrow>
    sys_step W s (s\<lparr>clients := (clients s)(i := Elsewhere),
      sys_gate := \<lparr>last_recheck = sys_now s, holder = Some i\<rparr>\<rparr>)"

abbreviation reachable ::
  "('t::linorder, 'ep, 'ch, 'ioe) world \<Rightarrow> ('t, 'ep, 'ch) system \<Rightarrow> ('t, 'ep, 'ch) system \<Rightarrow> bool" where
  "reachable W \<equiv> (sys_step W)\<^sup>*\<^sup>*"

lemma env_atD:
  assumes "env_at W s env"
  shows "clock env = clock (base W)" "build_endpoint env = build_endpoint (base W)"
    "env_connect env 0 ep = Some ch \<Longrightarrow> connects W ep ch"
    "resolve_domain (to_socket_addrs env) d = Inr as \<Longrightarrow> resolutions W as"
  using assms by (auto simp: env_at_def)

section \<open>Where channels come from, and which entries there are\<close>

text \<open>
  The invariant of the shared collections and of every local copy: a channel paired with
  an address was made by connecting to the endpoint built for that address, and, if the
  resolver never returns an address twice, no list of broken entries has an address twice.
\<close>

definition made_for :: "('t, 'ep, 'ch, 'ioe) world \<Rightarrow> ip_addr \<Rightarrow> 'ch \<Rightarrow> bool" where
  "made_for W a ch \<longleftrightarrow> (\<exists>ep. build_endpoint (base W) a = Inr ep \<and> connects W ep ch)"

abbreviation all_made :: "('t, 'ep, 'ch, 'ioe) world \<Rightarrow> (ip_addr \<times> 'ch) list \<Rightarrow> bool" where
  "all_made W r \<equiv> (\<forall>(a, ch) \<in> set r. made_for W a ch)"

definition dns_distinct :: "('t, 'ep, 'ch, 'ioe) world \<Rightarrow> bool" where
  "dns_distinct W \<longleftrightarrow> (\<forall>as. resolutions W as \<longrightarrow> distinct as)"

definition pool_inv :: "('t, 'ep, 'ch, 'ioe) world \<Rightarrow> ('t, 'ch) pool \<Rightarrow> bool" where
  "pool_inv W st \<longleftrightarrow> all_made W (channels (ready_clients st)) \<and>
     (dns_distinct W \<longrightarrow> distinct (map da_address (addresses (broken_endpoints st))))"

fun check_inv :: "('t, 'ep, 'ch, 'ioe) world \<Rightarrow> ('t, 'ep, 'ch) check_pc \<Rightarrow> bool" where
  "check_inv W (CheckFind rest r b) \<longleftrightarrow> all_made W r \<and> (dns_distinct W \<longrightarrow> distinct (map da_address b @ rest))"
| "check_inv W (CheckGet a rest r b) \<longleftrightarrow>
     all_made W r \<and> (dns_distinct W \<longrightarrow> distinct (map da_address b @ a # rest))"
| "check_inv W (CheckConnect ep a rest r b) \<longleftrightarrow> build_endpoint (base W) a = Inr ep \<and>
     all_made W r \<and> (dns_distinct W \<longrightarrow> distinct (map da_address b @ a # rest))"
| "check_inv W (CheckStoreReady r b) \<longleftrightarrow> all_made W r \<and> (dns_distinct W \<longrightarrow> distinct (map da_address b))"
| "check_inv W (CheckStoreBroken b) \<longleftrightarrow> (dns_distinct W \<longrightarrow> distinct (map da_address b))"
| "check_inv W _ \<longleftrightarrow> True"

fun recheck_inv :: "('t, 'ep, 'ch, 'ioe) world \<Rightarrow> ('t, 'ep, 'ch) recheck_pc \<Rightarrow> bool" where
  "recheck_inv W (RecheckConnect ep d) \<longleftrightarrow> build_endpoint (base W) (da_address d) = Inr ep"
| "recheck_inv W (RecheckAdd a ch) \<longleftrightarrow> made_for W a ch"
| "recheck_inv W _ \<longleftrightarrow> True"

fun contender_inv :: "('t, 'ep, 'ch, 'ioe) world \<Rightarrow> ('t, 'ep, 'ch) contender \<Rightarrow> bool" where
  "contender_inv W (Checking pc) \<longleftrightarrow> check_inv W pc"
| "contender_inv W (Rechecking pc) \<longleftrightarrow> recheck_inv W pc"

fun get_inv :: "('t, 'ep, 'ch, 'ioe) world \<Rightarrow> ('t, 'ep, 'ch) get_pc \<Rightarrow> bool" where
  "get_inv W (GetRace futs) \<longleftrightarrow> (\<forall>c \<in> set futs. contender_inv W c)"
| "get_inv W (GetDone (Some (a, ch))) \<longleftrightarrow> made_for W a ch"
| "get_inv W _ \<longleftrightarrow> True"

definition client_inv :: "('t, 'ep, 'ch, 'ioe) world \<Rightarrow> ('t, 'ep, 'ch) client \<Rightarrow> bool" where
  "client_inv W c \<longleftrightarrow> (\<forall>pc. c = Getting pc \<longrightarrow> get_inv W pc)"

definition sys_inv :: "('t, 'ep, 'ch, 'ioe) world \<Rightarrow> ('t, 'ep, 'ch) system \<Rightarrow> bool" where
  "sys_inv W s \<longleftrightarrow> pool_inv W (sys_pool s) \<and>
     (\<forall>pc. dns_task s = DnsCheck pc \<longrightarrow> check_inv W pc) \<and>
     (\<forall>pc. doctor_task s = DoctorRecheck pc \<longrightarrow> recheck_inv W pc) \<and>
     (\<forall>i. client_inv W (clients s i))"

lemma delayed_from_ip_address: "delayed_from_ip C now a = Inr d \<Longrightarrow> da_address d = a"
  by (auto simp: delayed_from_ip_def)

lemma distinct_broken_insert:
  "distinct (map da_address (addresses be)) \<Longrightarrow> distinct (map da_address (addresses (broken_insert be d)))"
  by (auto intro: distinct_map_filter)

lemma add_fail_count_Inr:
  "add_address_with_current_fail_count C now be a n = Inr be' \<Longrightarrow>
     \<exists>d. be' = broken_insert be d \<and> da_address d = a"
  by (auto simp: add_address_with_current_fail_count_def)

lemma re_add_address_Inr:
  "re_add_address checks C now be d = Inr be' \<Longrightarrow> \<exists>e. be' = broken_insert be e"
  unfolding re_add_address_def bind_res_eq_Inr by (auto dest: add_fail_count_Inr)

lemma add_address_Inr: "add_address C now be a = Inr be' \<Longrightarrow> \<exists>e. be' = broken_insert be e"
  unfolding add_address_def by (auto dest: add_fail_count_Inr)

lemma pool_inv_find:
  "pool_inv W st \<Longrightarrow> ready_find (ready_clients st) a = Some ch \<Longrightarrow> made_for W a ch"
  by (auto simp: pool_inv_def ready_find_eq_map_of dest: map_of_SomeD)

lemma broken_get_address_key: "broken_get_address be a = Some d \<Longrightarrow> da_address d = a"
  using be.lookup_Some [of be a d] by simp

lemma check_step_inv:
  assumes env: "env_at W s env" and inv: "pool_inv W st" "check_inv W pc"
    and step: "check_step env (st, pc) = Inr (st', pc')"
  shows "pool_inv W st' \<and> check_inv W pc'"
proof (cases pc)
  case CheckResolve
  with step obtain d where "domain_name env = Inr d" by (auto simp: bind_res_eq_Inr)
  with CheckResolve step inv env_atD(4) [OF env, of d] show ?thesis
    by (cases "resolve_domain (to_socket_addrs env) d") (auto simp: dns_distinct_def)
next
  case (CheckFind rest r b)
  with step inv pool_inv_find [OF inv(1)] show ?thesis
    by (cases rest) (auto split: option.splits)
next
  case (CheckGet a rest r b)
  with step inv env_atD(2) [OF env] show ?thesis
    by (auto simp: heap_push_def split: option.splits dest: broken_get_address_key)
next
  case (CheckConnect ep a rest r b)
  with step inv env_atD(3) [OF env] show ?thesis
    by (auto simp: heap_push_def made_for_def split: option.splits dest: delayed_from_ip_address)
next
  case (CheckStoreReady r b)
  with step inv show ?thesis by (auto simp: pool_inv_def ready_replace_with_def)
next
  case (CheckStoreBroken b)
  with step inv show ?thesis by (auto simp: pool_inv_def)
qed (use step inv in auto)

lemma recheck_step_inv:
  assumes env: "env_at W s env" and inv: "pool_inv W st" "recheck_inv W pc"
    and step: "recheck_step env (st, pc) = Inr (st', pc')"
  shows "pool_inv W st' \<and> recheck_inv W pc'"
proof (cases pc)
  case (RecheckBuild d)
  with step inv env_atD(2) [OF env] show ?thesis by auto
next
  case (RecheckConnect ep d)
  with step inv env_atD(3) [OF env] show ?thesis by (auto simp: made_for_def split: option.splits)
next
  case (RecheckAdd a ch)
  with step inv show ?thesis by (auto simp: pool_inv_def ready_add_def)
next
  case (RecheckReAdd d)
  with step obtain e where "st' = st\<lparr>broken_endpoints := broken_insert (broken_endpoints st) e\<rparr>" "pc' = RecheckEnd"
    by (auto dest: re_add_address_Inr)
  with inv distinct_broken_insert [of "broken_endpoints st" e] show ?thesis
    by (simp add: pool_inv_def del: broken_insert_addresses)
qed (use step inv in auto)

lemma remove_subset_channels: "set (channels (ready_remove rc a)) \<subseteq> set (channels rc)"
  using rc.remove_subset [of rc a] by (metis set_mset_mono set_mset_mset)

lemma report_step_inv:
  assumes inv: "pool_inv W st" and step: "report_step env (st, pc) = Inr (st', pc')"
  shows "pool_inv W st'"
proof (cases pc)
  case (ReportRemove a)
  with step inv remove_subset_channels [of "ready_clients st" a] show ?thesis
    by (auto simp: pool_inv_def)
next
  case (ReportAdd a)
  with step obtain e where "st' = st\<lparr>broken_endpoints := broken_insert (broken_endpoints st) e\<rparr>"
    by (auto dest: add_address_Inr)
  with inv distinct_broken_insert [of "broken_endpoints st" e] show ?thesis
    by (simp add: pool_inv_def del: broken_insert_addresses)
qed (use step inv in auto)

lemma get_any_inv:
  assumes "pool_inv W st" "get_any_at st = (r, st')"
  shows "pool_inv W st' \<and> get_inv W (GetDone r)"
proof (cases "channels (ready_clients st) = []")
  case True
  with assms show ?thesis by (auto simp: get_any_at_empty)
next
  case False
  then obtain e n where "get_any_at st = (Some e, st\<lparr>ready_clients := (ready_clients st)\<lparr>index := n\<rparr>\<rparr>)"
    "e \<in> set (channels (ready_clients st))" by (rule get_any_at_Some)
  with assms show ?thesis by (cases e) (auto simp: pool_inv_def)
qed

lemma contender_step_inv:
  assumes "env_at W s env" "pool_inv W st" "contender_inv W c"
    and "contender_step env (st, c) = Inr (st', c')"
  shows "pool_inv W st' \<and> contender_inv W c'"
  using assms check_step_inv [OF assms(1,2)] recheck_step_inv [OF assms(1,2)]
  by (cases c) auto

lemma get_step_inv:
  assumes env: "env_at W s env" and inv: "pool_inv W st" "get_inv W pc"
    and step: "get_step env i k (st, g, pc) = Some (Inr (st', g', pc'))"
  shows "pool_inv W st' \<and> get_inv W pc'"
proof (cases pc)
  case (GetRace futs)
  show ?thesis
  proof (cases "contender_done (futs ! k)")
    case True
    with GetRace step inv show ?thesis
      by (auto split: prod.splits if_splits dest: get_any_inv)
  next
    case False
    with GetRace step obtain c where c: "contender_step env (st, futs ! k) = Inr (st', c)" "k < length futs"
      "pc' = GetRace (futs[k := c])"
      by (auto split: if_splits)
    with GetRace inv have "contender_inv W (futs ! k)" by simp
    with contender_step_inv [OF env inv(1) this c(1)] c(3) GetRace inv show ?thesis
      by (auto dest: set_update_subset_insert [THEN subsetD])
  qed
qed (use step inv in \<open>auto simp: list_all_iff split: prod.splits if_splits option.splits dest: get_any_inv\<close>)

lemma dns_task_inv:
  assumes env: "env_at W s env" and inv: "pool_inv W st" "\<And>pc. task = DnsCheck pc \<Longrightarrow> check_inv W pc"
    and step: "dns_task_step env (st, task) = (st', task')"
  shows "pool_inv W st' \<and> (\<forall>pc. task' = DnsCheck pc \<longrightarrow> check_inv W pc)"
proof (cases task)
  case (DnsCheck pc)
  show ?thesis
  proof (cases "pc = CheckEnd")
    case True
    with DnsCheck step inv show ?thesis by (auto simp: dns_task_step_def)
  next
    case False
    then have eq: "dns_task_step env (st, task) =
        (case check_step env (st, pc) of Inl p \<Rightarrow> (st, DnsDead) | Inr (st', pc') \<Rightarrow> (st', DnsCheck pc'))"
      by (simp add: dns_task_step_def DnsCheck split: check_pc.split)
    show ?thesis
    proof (cases "check_step env (st, pc)")
      case (Inl p)
      with eq step inv(1) show ?thesis by simp
    next
      case (Inr r)
      then obtain st2 pc2 where "check_step env (st, pc) = Inr (st2, pc2)" by (cases r) auto
      with eq step check_step_inv [OF env inv(1) inv(2) [OF DnsCheck], of st2 pc2] show ?thesis by simp
    qed
  qed
qed (use step inv(1) in \<open>auto simp: dns_task_step_def\<close>)

lemma next_broken_pass_subset:
  assumes "next_broken_pass C now be = Inr (pass, be')"
    and "distinct (map da_address (addresses be))"
  shows "distinct (map da_address (addresses be'))"
proof -
  have "be' = be \<or> (\<exists>d. addresses be' = remove1 d (addresses be))"
    using assms(1) by (auto simp: next_broken_pass_def heap_pop_eq Let_def bind_res_eq_Inr
        split: option.splits if_splits)
  with assms(2) show ?thesis
    by (auto simp: distinct_map inj_on_def dest: notin_set_remove1)
qed

lemma doctor_task_inv:
  assumes env: "env_at W s env" and inv: "pool_inv W st" "\<And>pc. task = DoctorRecheck pc \<Longrightarrow> recheck_inv W pc"
    and step: "doctor_task_step env (st, task) = (st', task')"
  shows "pool_inv W st' \<and> (\<forall>pc. task' = DoctorRecheck pc \<longrightarrow> recheck_inv W pc)"
proof (cases task)
  case DoctorNext
  show ?thesis
  proof (cases "next_broken_pass (clock env) (env_now env 0) (broken_endpoints st)")
    case (Inl p)
    with DoctorNext step inv(1) show ?thesis by (simp add: doctor_task_step_def)
  next
    case (Inr r)
    then obtain pass be where p: "next_broken_pass (clock env) (env_now env 0) (broken_endpoints st) = Inr (pass, be)"
      by (cases r) auto
    with inv(1) have "pool_inv W (st\<lparr>broken_endpoints := be\<rparr>)"
      by (auto simp: pool_inv_def dest: next_broken_pass_subset)
    with DoctorNext step p show ?thesis by (cases pass) (auto simp: doctor_task_step_def)
  qed
next
  case (DoctorRecheck pc)
  show ?thesis
  proof (cases "pc = RecheckEnd")
    case True
    with DoctorRecheck step inv show ?thesis by (auto simp: doctor_task_step_def)
  next
    case False
    then have eq: "doctor_task_step env (st, task) =
        (case recheck_step env (st, pc) of Inl p \<Rightarrow> (st, DoctorDead) | Inr (st', pc') \<Rightarrow> (st', DoctorRecheck pc'))"
      by (simp add: doctor_task_step_def DoctorRecheck split: recheck_pc.split)
    show ?thesis
    proof (cases "recheck_step env (st, pc)")
      case (Inl p)
      with eq step inv(1) show ?thesis by simp
    next
      case (Inr r)
      then obtain st2 pc2 where "recheck_step env (st, pc) = Inr (st2, pc2)" by (cases r) auto
      with eq step recheck_step_inv [OF env inv(1) inv(2) [OF DoctorRecheck], of st2 pc2] show ?thesis by simp
    qed
  qed
qed (use step inv(1) in \<open>auto simp: doctor_task_step_def\<close>)

section \<open>Steps of a client\<close>

text \<open>What a client step does, by the kind of step.\<close>

lemma client_step_cases:
  assumes "client_step env i k s = Some s'"
  obtains (get) pc st g pc' where "clients s i = Getting pc"
      "get_step env i k (sys_pool s, sys_gate s, pc) = Some (Inr (st, g, pc'))"
      "s' = s\<lparr>sys_pool := st, sys_gate := g, clients := (clients s)(i := Getting pc')\<rparr>"
  | (report) pc st pc' where "clients s i = Reporting pc" "report_step env (sys_pool s, pc) = Inr (st, pc')"
      "s' = s\<lparr>sys_pool := st, clients := (clients s)(i := Reporting pc')\<rparr>"
  | (panic) "s' = drop_client i s"
  using assms by (auto simp: client_step_def split: client.splits option.splits sum.splits prod.splits)

lemma drop_client_simps [simp]:
  "sys_pool (drop_client i s) = sys_pool s" "dns_task (drop_client i s) = dns_task s"
  "doctor_task (drop_client i s) = doctor_task s" "clients (drop_client i s) = (clients s)(i := Idle)"
  "sys_now (drop_client i s) = sys_now s"
  by (simp_all add: drop_client_def)

lemma client_inv_simps [simp]:
  "client_inv W Idle" "client_inv W (Reporting pc')" "client_inv W Elsewhere"
  "client_inv W (Getting pc) \<longleftrightarrow> get_inv W pc"
  by (simp_all add: client_inv_def)

lemma sys_step_inv:
  assumes "sys_step W s s'" "sys_inv W s"
  shows "sys_inv W s'"
  using assms
proof (cases rule: sys_step.cases)
  case (dns env st task)
  with assms(2) dns_task_inv [OF dns(2), of "sys_pool s" "dns_task s" st task] show ?thesis
    by (auto simp: sys_inv_def)
next
  case (doctor env st task)
  with assms(2) doctor_task_inv [OF doctor(2), of "sys_pool s" "doctor_task s" st task] show ?thesis
    by (auto simp: sys_inv_def)
next
  case (call env i k)
  show ?thesis
  proof (cases rule: client_step_cases [OF call(2), case_names get report panic])
    case (get pc st g pc')
    from assms(2) have "pool_inv W (sys_pool s)" "get_inv W pc"
      by (auto simp: sys_inv_def client_inv_def get(1) dest: spec [of _ i])
    with get_step_inv [OF call(1) this get(2)] get(3) assms(2) show ?thesis by (auto simp: sys_inv_def)
  next
    case (report pc st pc')
    with assms(2) report_step_inv [of W "sys_pool s" env pc st pc'] show ?thesis by (auto simp: sys_inv_def)
  qed (use assms(2) in \<open>auto simp: sys_inv_def\<close>)
qed (auto simp: sys_inv_def)

lemma sys_initial_inv: "sys_inv W (sys_initial never now)"
  by (simp add: sys_inv_def sys_initial_def pool_inv_def)

lemma reachable_inv: "reachable W (sys_initial never now) s \<Longrightarrow> sys_inv W s"
  by (induction rule: rtranclp_induct) (auto intro: sys_initial_inv sys_step_inv)

section \<open>The lock\<close>

fun holds_lock :: "('t, 'ep, 'ch) client \<Rightarrow> bool" where
  "holds_lock (Getting GetLocked) = True"
| "holds_lock (Getting GetStamp) = True"
| "holds_lock (Getting GetAddresses) = True"
| "holds_lock (Getting (GetRace _)) = True"
| "holds_lock Elsewhere = True"
| "holds_lock _ = False"

definition lock_inv :: "('t, 'ep, 'ch) system \<Rightarrow> bool" where
  "lock_inv s \<longleftrightarrow> (\<forall>i. holds_lock (clients s i) \<longleftrightarrow> holder (sys_gate s) = Some i)"

lemma get_step_lock:
  assumes "get_step env i k (st, g, pc) = Some (Inr (st', g', pc'))"
    and "holds_lock (Getting pc) \<longleftrightarrow> holder g = Some i"
  shows "(holder g' = Some i \<longleftrightarrow> holds_lock (Getting pc')) \<and>
    (\<forall>j. j \<noteq> i \<longrightarrow> (holder g' = Some j \<longleftrightarrow> holder g = Some j))"
  using assms
  by (cases pc) (auto simp: release_def split: prod.splits option.splits if_splits sum.splits)

lemma sys_step_lock:
  assumes "sys_step W s s'" "lock_inv s"
  shows "lock_inv s'"
  using assms
proof (cases rule: sys_step.cases)
  case (call env i k)
  show ?thesis
  proof (cases rule: client_step_cases [OF call(2), case_names get report panic])
    case (get pc st g pc')
    have "holds_lock (Getting pc) \<longleftrightarrow> holder (sys_gate s) = Some i"
      using assms(2) get(1) unfolding lock_inv_def by metis
    from get_step_lock [OF get(2) this] get(3) assms(2) show ?thesis by (auto simp: lock_inv_def)
  next
    case (report pc st pc')
    have "holder (sys_gate s) \<noteq> Some i"
      using assms(2) report(1) unfolding lock_inv_def by (metis holds_lock.simps)
    with report(3) assms(2) show ?thesis by (auto simp: lock_inv_def)
  next
    case panic
    with assms(2) show ?thesis by (auto simp: lock_inv_def drop_client_def release_def)
  qed
next
  case (get i)
  then have "holder (sys_gate s) \<noteq> Some i"
    using assms(2) unfolding lock_inv_def by (metis holds_lock.simps)
  with get assms(2) show ?thesis by (auto simp: lock_inv_def)
next
  case (report i a)
  then have "holder (sys_gate s) \<noteq> Some i"
    using assms(2) unfolding lock_inv_def by (metis holds_lock.simps)
  with report assms(2) show ?thesis by (auto simp: lock_inv_def)
next
  case (drop i)
  with assms(2) show ?thesis by (auto simp: lock_inv_def drop_client_def release_def)
qed (auto simp: lock_inv_def)

lemma reachable_lock: "reachable W (sys_initial never now) s \<Longrightarrow> lock_inv s"
proof (induction rule: rtranclp_induct)
  case base
  show ?case by (simp add: lock_inv_def sys_initial_def)
qed (auto intro: sys_step_lock)

section \<open>Runs of clients\<close>

text \<open>Client steps in a given order, all in one environment.\<close>

fun run_clients ::
  "('t, 'ep, 'ch, 'ioe) pool_env \<Rightarrow> (nat \<times> nat) list \<Rightarrow> ('t, 'ep, 'ch) system \<Rightarrow> ('t, 'ep, 'ch) system option"
where
  "run_clients env [] s = Some s"
| "run_clients env ((i, k) # rest) s =
     (case client_step env i k s of None \<Rightarrow> None | Some s' \<Rightarrow> run_clients env rest s')"

lemma client_step_now: "client_step env i k s = Some s' \<Longrightarrow> sys_now s' = sys_now s"
  by (erule client_step_cases) simp_all

lemma run_clients_reachable:
  assumes "env_at W s env" "run_clients env is s = Some s'"
  shows "reachable W s s' \<and> env_at W s' env"
  using assms
proof (induction env "is" s rule: run_clients.induct)
  case (2 env i k rest s)
  then obtain s1 where s1: "client_step env i k s = Some s1" "run_clients env rest s1 = Some s'"
    by (auto split: option.splits)
  have "env_at W s1 env" using 2(2) client_step_now [OF s1(1)] by (simp add: env_at_def)
  with 2 s1 have "reachable W s1 s' \<and> env_at W s' env" by blast
  with sys_step.call [OF 2(2) s1(1)] show ?case by (meson converse_rtranclp_into_rtranclp)
qed auto

text \<open>Steps of the DNS task, all in one environment.\<close>

fun run_dns :: "('t, 'ep, 'ch, 'ioe) pool_env \<Rightarrow> nat \<Rightarrow> ('t, 'ep, 'ch) system \<Rightarrow> ('t, 'ep, 'ch) system" where
  "run_dns env 0 s = s"
| "run_dns env (Suc n) s = run_dns env n
     (s\<lparr>sys_pool := fst (dns_task_step env (sys_pool s, dns_task s)),
        dns_task := snd (dns_task_step env (sys_pool s, dns_task s))\<rparr>)"

lemma run_dns_reachable: "env_at W s env \<Longrightarrow> reachable W s (run_dns env n s) \<and> env_at W (run_dns env n s) env"
proof (induction n arbitrary: s)
  case (Suc n)
  let ?s1 = "s\<lparr>sys_pool := fst (dns_task_step env (sys_pool s, dns_task s)),
        dns_task := snd (dns_task_step env (sys_pool s, dns_task s))\<rparr>"
  have "sys_step W s ?s1" by (rule sys_step.dns [OF Suc.prems]) simp
  moreover have "env_at W ?s1 env" using Suc.prems by (simp add: env_at_def)
  ultimately show ?case using Suc.IH [of ?s1] by (auto intro: converse_rtranclp_into_rtranclp)
qed simp

text \<open>A world for concrete runs: connecting to an address gives that address as the channel.\<close>

definition nanos_world :: "(int, ip_addr, ip_addr, unit) world" where
  "nanos_world = \<lparr>base = nanos_env 0 [] (\<lambda>_. True), connects = (=), resolutions = distinct\<rparr>"

lemma nanos_world_simps [simp]:
  "base nanos_world = nanos_env 0 [] (\<lambda>_. True)" "connects nanos_world = (=)"
  "resolutions nanos_world = distinct" "dns_distinct nanos_world"
  by (simp_all add: nanos_world_def dns_distinct_def)

lemma nanos_env_at [simp]: "distinct as \<Longrightarrow> env_at nanos_world (sys_initial never now) (nanos_env now as up)"
  by (auto simp: env_at_def sys_initial_def nanos_env_def resolve_domain_def comp_def)

text \<open>A system after its first DNS check of a name with one server, and a client's call.\<close>

lemma served_reachable:
  "\<exists>s. reachable nanos_world (sys_initial (- 1000000000) 0) s \<and>
     clients s = (\<lambda>_. Idle)(0 := Getting (GetDone (Some (V4 1, V4 1))))"
proof -
  let ?env = "nanos_env 0 [V4 1] (\<lambda>_. True)" and ?s0 = "sys_initial (- 1000000000) 0 :: (int, ip_addr, ip_addr) system"
  define s1 where "s1 = run_dns ?env 8 ?s0"
  have r1: "reachable nanos_world ?s0 s1" "env_at nanos_world s1 ?env"
    using run_dns_reachable [of nanos_world ?s0 ?env 8] by (simp_all add: s1_def)
  have s1: "s1 = ?s0\<lparr>sys_pool := check_dns_store ([(V4 1, V4 1)], []) pool_initial, dns_task := DnsTick\<rparr>"
    by (simp add: s1_def eval_nat_numeral dns_task_step_def sys_initial_def nanos_env_def resolve_domain_def
        check_dns_store_def Let_def)
  define s2 where "s2 = s1\<lparr>clients := (\<lambda>_. Idle)(0 := Getting GetAny)\<rparr>"
  have "sys_step nanos_world s1 s2"
    using sys_step.get [of s1 0 nanos_world] by (simp add: s1 s2_def sys_initial_def)
  with r1(1) have r2: "reachable nanos_world ?s0 s2" by (rule rtranclp.rtrancl_into_rtrancl)
  have "env_at nanos_world s2 ?env" using r1(2) by (simp add: s2_def env_at_def)
  moreover define s3 where "s3 = s2\<lparr>clients := (\<lambda>_. Idle)(0 := Getting (GetDone (Some (V4 1, V4 1)))),
        sys_pool := snd (get_any_at (sys_pool s2))\<rparr>"
  have "run_clients ?env [(0, 0)] s2 = Some s3"
    by (simp add: s3_def s2_def s1 client_step_def get_any_at_def ready_get_any_def)
  ultimately have "reachable nanos_world s2 s3" using run_clients_reachable by blast
  with r2 have "reachable nanos_world ?s0 s3" by (rule rtranclp_trans)
  moreover have "clients s3 = (\<lambda>_. Idle)(0 := Getting (GetDone (Some (V4 1, V4 1))))" by (simp add: s3_def)
  ultimately show ?thesis by blast
qed

text \<open>A system in which a client has reported a server.\<close>

lemma reported_reachable:
  "\<exists>s d. reachable nanos_world (sys_initial (- 1000000000) 0) s \<and>
     addresses (broken_endpoints (sys_pool s)) = [d] \<and> da_address d = V4 9"
proof -
  let ?env = "nanos_env 0 [] (\<lambda>_. True)" and ?s0 = "sys_initial (- 1000000000) 0 :: (int, ip_addr, ip_addr) system"
  define s1 where "s1 = ?s0\<lparr>clients := (\<lambda>_. Idle)(0 := Reporting (ReportRemove (V4 9)))\<rparr>"
  have "sys_step nanos_world ?s0 s1"
    using sys_step.report [of ?s0 0 nanos_world "V4 9"] by (simp add: s1_def sys_initial_def)
  moreover have e: "env_at nanos_world s1 ?env" using nanos_env_at [of "[]"] by (simp add: s1_def env_at_def)
  let ?be = "broken_default :: int broken_endpoints"
  obtain d where d: "add_address utc_nanos 0 ?be (V4 9) = Inr (broken_insert ?be d)"
    "da_address d = V4 9"
    using add_fail_count_spec [OF utc_nanos_laws, of 0 ?be "V4 9" 1]
    by (auto simp: add_address_def)
  have "\<exists>s2. run_clients ?env [(0, 0), (0, 0)] s1 = Some s2 \<and> addresses (broken_endpoints (sys_pool s2)) = [d]"
    using d by (simp add: s1_def sys_initial_def client_step_def pool_initial_def broken_default_def)
  ultimately show ?thesis
    using run_clients_reachable [OF e] d(2) by (meson converse_rtranclp_into_rtranclp)
qed

lemma unresolved_env_at:
  "env_at nanos_world (sys_initial never now) (nanos_env now [] up\<lparr>to_socket_addrs := \<lambda>_ _. Inl ()\<rparr>)"
  by (auto simp: env_at_def sys_initial_def nanos_env_def resolve_domain_def)

text \<open>A retest in a race, from its start to the return of the call.\<close>

lemma client_race_step:
  assumes "clients s i = Getting (GetRace futs)" "k < length futs" "\<not> contender_done (futs ! k)"
    and "contender_step env (sys_pool s, futs ! k) = Inr (st', c)"
  shows "client_step env i k s =
    Some (s\<lparr>sys_pool := st', clients := (clients s)(i := Getting (GetRace (futs[k := c])))\<rparr>)"
  using assms by (simp add: client_step_def)

lemma client_race_end:
  assumes "clients s i = Getting (GetRace futs)" "k < length futs" "contender_done (futs ! k)"
    and "get_any_at (sys_pool s) = (r, st')"
  shows "client_step env i k s =
    Some (s\<lparr>sys_pool := st', sys_gate := release (sys_gate s), clients := (clients s)(i := Getting (GetDone r))\<rparr>)"
  using assms by (simp add: client_step_def)

lemma race_recheck_run:
  assumes s: "clients s i = Getting (GetRace futs)" "k < length futs" "futs ! k = Rechecking (RecheckBuild d)"
    and up: "build_endpoint env (da_address d) = Inr ep" "env_connect env 0 ep = Some ch"
    and st: "st = (sys_pool s)\<lparr>ready_clients := ready_add (ready_clients (sys_pool s)) (da_address d) ch\<rparr>"
    and r: "get_any_at st = (r, st')"
  shows "run_clients env [(i, k), (i, k), (i, k), (i, k)] s =
    Some (s\<lparr>sys_pool := st', sys_gate := release (sys_gate s), clients := (clients s)(i := Getting (GetDone r))\<rparr>)"
proof -
  define s1 where "s1 = s\<lparr>clients := (clients s)(i := Getting (GetRace (futs[k := Rechecking (RecheckConnect ep d)])))\<rparr>"
  define s2 where "s2 = s\<lparr>clients := (clients s)(i := Getting (GetRace (futs[k := Rechecking (RecheckAdd (da_address d) ch)])))\<rparr>"
  define s3 where "s3 = s\<lparr>sys_pool := st, clients := (clients s)(i := Getting (GetRace (futs[k := Rechecking RecheckEnd])))\<rparr>"
  have "client_step env i k s = Some s1"
    using client_race_step [OF s(1,2), of env] s(3) up by (simp add: s1_def contender_done_def)
  moreover have "client_step env i k s1 = Some s2"
    using client_race_step [of s1 i _ k env] s(2) up by (simp add: s1_def s2_def contender_done_def)
  moreover have "client_step env i k s2 = Some s3"
    using client_race_step [of s2 i _ k env] s(2) by (simp add: s2_def s3_def contender_done_def st)
  moreover have "client_step env i k s3 =
      Some (s\<lparr>sys_pool := st', sys_gate := release (sys_gate s), clients := (clients s)(i := Getting (GetDone r))\<rparr>)"
    using client_race_end [of s3 i _ k r st' env] s(2) r by (simp add: s3_def contender_done_def)
  ultimately show ?thesis by simp
qed

section \<open>Properties\<close>

text \<open>
  C9: whatever the interleaving of the background tasks, the clients and the passing of
  time, a channel that \<open>get_channel\<close> returns for an address was made by connecting to the
  endpoint built for that very address, so what a client reports as broken is the server it
  talked to.
\<close>

theorem get_channel_matches_address:
  assumes "reachable W (sys_initial never now) s"
    and "clients s i = Getting (GetDone (Some (a, ch)))"
  shows "\<exists>ep. build_endpoint (base W) a = Inr ep \<and> connects W ep ch"
proof -
  have "client_inv W (clients s i)" using reachable_inv [OF assms(1)] by (simp add: sys_inv_def)
  with assms(2) show ?thesis by (simp add: made_for_def)
qed

theorem get_channel_matches_address_witness:
  "\<exists>s. reachable nanos_world (sys_initial (- 1000000000) 0) s \<and>
    clients s 0 = Getting (GetDone (Some (V4 1, V4 1))) \<and>
    (\<exists>ep. build_endpoint (base nanos_world) (V4 1) = Inr ep \<and> connects nanos_world ep (V4 1))"
proof -
  obtain s where s: "reachable nanos_world (sys_initial (- 1000000000) 0) s"
    "clients s 0 = Getting (GetDone (Some (V4 1, V4 1)))"
    using served_reachable by auto
  show ?thesis using s get_channel_matches_address [OF s] by blast
qed

text \<open>
  C11: whatever the interleaving, as long as the resolver never lists an address twice, the
  broken collection has at most one entry for an address.  (No such invariant holds of the
  ready channels.)
\<close>

theorem broken_never_duplicates:
  assumes "reachable W (sys_initial never now) s" "dns_distinct W"
  shows "distinct (map da_address (addresses (broken_endpoints (sys_pool s))))"
  using reachable_inv [OF assms(1)] assms(2) by (simp add: sys_inv_def pool_inv_def)

theorem broken_never_duplicates_witness:
  "\<exists>s. reachable nanos_world (sys_initial (- 1000000000) 0) s \<and>
    map da_address (addresses (broken_endpoints (sys_pool s))) = [V4 9] \<and>
    distinct (map da_address (addresses (broken_endpoints (sys_pool s))))"
proof -
  obtain s d where s: "reachable nanos_world (sys_initial (- 1000000000) 0) s"
    "addresses (broken_endpoints (sys_pool s)) = [d]" "da_address d = V4 9"
    using reported_reachable by blast
  show ?thesis using broken_never_duplicates [OF s(1)] s by (intro exI [of _ s]) simp
qed

text \<open>
  C10: at any time at most one client of the process is in a forced recheck, from the moment
  it has the lock until its call returns, is dropped or panics.
\<close>

theorem one_forced_recheck:
  assumes "reachable W (sys_initial never now) s" "holds_lock (clients s i)" "holds_lock (clients s j)"
  shows "i = j"
  using reachable_lock [OF assms(1)] assms(2,3) by (auto simp: lock_inv_def)

theorem one_forced_recheck_witness:
  "\<exists>s. reachable nanos_world (sys_initial (- 1000000000) 0) s \<and> holds_lock (clients s 0) \<and>
    \<not> holds_lock (clients s 1)"
proof -
  let ?s0 = "sys_initial (- 1000000000) 0 :: (int, ip_addr, ip_addr) system"
  define s where "s = ?s0\<lparr>clients := (clients ?s0)(0 := Elsewhere), sys_gate := \<lparr>last_recheck = sys_now ?s0, holder = Some 0\<rparr>\<rparr>"
  have "sys_step nanos_world ?s0 s"
    unfolding s_def by (rule sys_step.elsewhere) (simp_all add: sys_initial_def)
  then have r: "reachable nanos_world ?s0 s" by simp
  have h: "holds_lock (clients s 0)" by (simp add: s_def)
  from one_forced_recheck [OF r h, of 1] r h show ?thesis by auto
qed

text \<open>
  The calls that do not force a recheck.  With a ready channel, \<open>get_channel\<close> returns
  one in its first step, whoever holds the lock, and only the counter changes; without one,
  when nobody holds the lock and the last forced recheck began less than 500 milliseconds
  ago, it returns nothing and changes nothing.
\<close>

lemma get_channel_fast_paths:
  assumes "clients s i = Getting GetAny" "env_at W s env"
  shows "(channels (ready_clients (sys_pool s)) \<noteq> [] \<longrightarrow>
      (\<exists>s' e. client_step env i k s = Some s' \<and> clients s' i = Getting (GetDone (Some e)) \<and>
        e \<in> set (channels (ready_clients (sys_pool s))) \<and>
        channels (ready_clients (sys_pool s')) = channels (ready_clients (sys_pool s)) \<and>
        broken_endpoints (sys_pool s') = broken_endpoints (sys_pool s) \<and> sys_gate s' = sys_gate s)) \<and>
    (channels (ready_clients (sys_pool s)) = [] \<and> holder (sys_gate s) = None \<and>
      signed_duration_since (clock (base W)) (sys_now s) (last_recheck (sys_gate s)) < 500000000 \<longrightarrow>
      run_clients env [(i, k), (i, k)] s = Some (s\<lparr>clients := (clients s)(i := Getting (GetDone None))\<rparr>))"
proof -
  have c: "clock env = clock (base W)" "env_now env 0 = sys_now s" using assms(2) by (auto simp: env_at_def)
  have "MIN_INTERVAL = 500000000" by (simp add: MIN_INTERVAL_def duration_from_millis_def)
  with assms(1) c show ?thesis
    by (cases "channels (ready_clients (sys_pool s)) = []")
       (auto simp: client_step_def get_any_at_empty elim!: get_any_at_Some [of "sys_pool s"])
qed



text \<open>
  The forced recheck returns what the first of its futures to finish finds, and drops
  the others.  With a name that does not resolve and a broken address whose server is back,
  the same call can return nothing, leaving the address broken and nobody retesting it, or
  the channel, depending on which future is first; and in the second case the address is
  both ready and broken.
\<close>

lemma race_first_decides:
  fixes W :: "('t::linorder, 'ep, 'ch, 'ioe) world"
  assumes env: "env_at W s env" "domain_name env = Inr name"
    "resolve_domain (to_socket_addrs env) name = Inl e"
    and s: "clients s i = Getting GetAddresses" "channels (ready_clients (sys_pool s)) = []"
    and d: "n < length (addresses (broken_endpoints (sys_pool s)))"
      "a = da_address (addresses (broken_endpoints (sys_pool s)) ! n)"
      "build_endpoint env a = Inr ep" "env_connect env 0 ep = Some ch"
  shows "\<exists>s1 s2. reachable W s s1 \<and> clients s1 i = Getting (GetDone None) \<and>
      ready_keys (sys_pool s1) = {} \<and> a \<in> broken_keys (sys_pool s1) \<and>
    reachable W s s2 \<and> clients s2 i = Getting (GetDone (Some (a, ch))) \<and>
      a \<in> ready_keys (sys_pool s2) \<inter> broken_keys (sys_pool s2)"
proof -
  let ?ds = "addresses (broken_endpoints (sys_pool s))"
  let ?futs = "Checking CheckResolve # map (\<lambda>d. Rechecking (RecheckBuild d)) ?ds"
  define s1 where "s1 = s\<lparr>clients := (clients s)(i := Getting (GetDone None)), sys_gate := release (sys_gate s)\<rparr>"
  have "run_clients env [(i, 0), (i, 0), (i, 0)] s = Some s1"
    using env(2,3) s by (simp add: s1_def client_step_def contender_done_def get_any_at_empty)
  from run_clients_reachable [OF env(1) this] have "reachable W s s1" by simp
  moreover have "a \<in> broken_keys (sys_pool s)" using d(1,2) by (simp add: broken_keys_def)
  moreover define st where "st = (sys_pool s)\<lparr>ready_clients := ready_add (ready_clients (sys_pool s)) a ch\<rparr>"
  define s2 where "s2 = s\<lparr>sys_pool := snd (get_any_at st),
      clients := (clients s)(i := Getting (GetDone (Some (a, ch)))), sys_gate := release (sys_gate s)\<rparr>"
  have "get_any_at st = (Some (a, ch), snd (get_any_at st))"
    using s(2) by (simp add: st_def get_any_at_def ready_get_any_def ready_add_def)
  then have "run_clients env [(i, 0), (i, Suc n), (i, Suc n), (i, Suc n), (i, Suc n)] s = Some s2"
    using race_recheck_run [of "s\<lparr>clients := (clients s)(i := Getting (GetRace ?futs))\<rparr>" i ?futs "Suc n" "?ds ! n" env ep ch st "Some (a, ch)"]
      d s(1) by (simp add: s2_def st_def client_step_def [of env i 0])
  from run_clients_reachable [OF env(1) this] have "reachable W s s2" by simp
  moreover have "ready_keys (sys_pool s2) = {a}" "broken_keys (sys_pool s2) = broken_keys (sys_pool s)"
    using s(2) by (simp_all add: s2_def st_def get_any_at_def ready_get_any_def ready_add_def ready_keys_def broken_keys_def)
  ultimately show ?thesis
    using s(2) by (intro exI [of _ s1] exI [of _ s2]) (simp add: s1_def s2_def ready_keys_def broken_keys_def)
qed

end
