(* ===== verification/Pool_Progress.thy ===== *)
theory Pool_Progress
  imports Pool_System Get_Run
begin

text \<open>
  That calls of \<open>get_channel\<close> come to an end when other tasks and clients interfere: no
  reachable state is a deadlock, and on fair runs every call returns.
\<close>

section \<open>Steps of a call\<close>

text \<open>What a step of the system does to a call.\<close>

lemma sys_step_call:
  assumes "sys_step W s s'" "clients s i = Getting pc"
  obtains (same) "clients s' i = Getting pc" | (gone) "clients s' i = Idle"
  | (own) pc' where "clients s' i = Getting pc'" "(pc', pc) \<in> call_order"
  using assms
proof (cases rule: sys_step.cases)
  case (call env j k)
  show ?thesis
  proof (cases rule: client_step_cases [OF call(2), case_names get report panic])
    case (get pc1 st g pc2)
    with assms(2) get_step_decreases [OF get(2)] own same show ?thesis by (cases "i = j") auto
  next
    case (report pc1 st pc2)
    with assms(2) same show ?thesis by (cases "i = j") auto
  next
    case panic
    with assms(2) same gone show ?thesis by (cases "i = j") auto
  qed
next
  case (get j)
  with assms(2) same show ?thesis by (cases "i = j") auto
next
  case (report j a)
  with assms(2) same show ?thesis by (cases "i = j") auto
next
  case (drop j)
  with assms(2) same gone show ?thesis by (cases "i = j") auto
next
  case (elsewhere j)
  with assms(2) same show ?thesis by (cases "i = j") auto
qed (use assms(2) same in auto)

section \<open>No deadlock\<close>

text \<open>A call can make a step, if the world around answers.\<close>

definition call_can_step :: "('t, 'ep, 'ch, 'ioe) world \<Rightarrow> ('t, 'ep, 'ch) system \<Rightarrow> nat \<Rightarrow> bool" where
  "call_can_step W s i \<longleftrightarrow> (\<exists>pc env k s'. clients s i = Getting pc \<and> env_at W s env \<and> client_step env i k s = Some s')"

definition call_returned :: "('t, 'ep, 'ch) client \<Rightarrow> bool" where
  "call_returned c \<longleftrightarrow> (\<exists>r. c = Getting (GetDone r))"

definition races_inv :: "('t, 'ep, 'ch) system \<Rightarrow> bool" where
  "races_inv s \<longleftrightarrow> (\<forall>i futs. clients s i = Getting (GetRace futs) \<longrightarrow> futs \<noteq> [])"

lemma env_at_exists: "\<exists>env. env_at W s env"
proof
  show "env_at W s ((base W)\<lparr>env_now := \<lambda>_. sys_now s, env_connect := \<lambda>_ _. None, to_socket_addrs := \<lambda>_ _. Inl undefined\<rparr>)"
    by (simp add: env_at_def resolve_domain_def)
qed

lemma sys_step_races:
  assumes "sys_step W s s'" "races_inv s"
  shows "races_inv s'"
  using assms
proof (cases rule: sys_step.cases)
  case (call env i k)
  show ?thesis
  proof (cases rule: client_step_cases [OF call(2), case_names get report panic])
    case (get pc st g pc')
    have "pc' = GetRace futs \<Longrightarrow> futs \<noteq> []" for futs
      using get(1,2) assms(2) by (cases pc) (auto simp: races_inv_def split: prod.splits if_splits option.splits)
    with get(3) assms(2) show ?thesis by (auto simp: races_inv_def)
  qed (use assms(2) in \<open>auto simp: races_inv_def\<close>)
qed (auto simp: races_inv_def)

lemma reachable_races: "reachable W (sys_initial never now) s \<Longrightarrow> races_inv s"
proof (induction rule: rtranclp_induct)
  case base
  show ?case by (simp add: races_inv_def sys_initial_def)
qed (auto intro: sys_step_races)

text \<open>A call that cannot step waits for the lock.\<close>

lemma call_blocked:
  assumes "clients s i = Getting pc" "races_inv s" "\<not> call_can_step W s i" "\<not> call_returned (clients s i)"
  shows "(pc = GetWrite \<or> pc = GetWaitForOther) \<and> holder (sys_gate s) \<noteq> None"
proof -
  obtain env where env: "env_at W s env" using env_at_exists by blast
  have none: "get_step env i k (sys_pool s, sys_gate s, pc) = None" for k
  proof (rule ccontr)
    assume "get_step env i k (sys_pool s, sys_gate s, pc) \<noteq> None"
    then have "\<exists>s'. client_step env i k s = Some s'"
      using assms(1) by (auto simp: client_step_def split: sum.splits prod.splits)
    with env assms(1,3) show False unfolding call_can_step_def by blast
  qed
  show ?thesis
  proof (cases pc)
    case (GetRace futs)
    with assms(1,2) have "0 < length futs" by (auto simp: races_inv_def)
    with none [of 0] GetRace show ?thesis by (auto split: if_splits prod.splits)
  qed (use none [of 0] assms(1,4) in \<open>auto simp: call_returned_def split: if_splits prod.splits option.splits\<close>)
qed

text \<open>Who holds the lock is not waiting for it.\<close>

lemma lock_holder_steps:
  assumes "lock_inv s" "races_inv s" "holder (sys_gate s) = Some j"
  shows "clients s j = Elsewhere \<or> call_can_step W s j"
proof -
  have h: "holds_lock (clients s j)" using assms(1,3) by (simp add: lock_inv_def)
  show ?thesis
  proof (cases "clients s j")
    case (Getting pc)
    with h have "\<not> call_returned (clients s j)" "pc \<noteq> GetWrite" "pc \<noteq> GetWaitForOther"
      by (auto simp: call_returned_def)
    with call_blocked [OF Getting assms(2)] show ?thesis by blast
  qed (use h in simp_all)
qed

lemma call_never_deadlocked:
  assumes "lock_inv s" "races_inv s" "clients s i = Getting pc" "\<not> call_returned (clients s i)"
  shows "call_can_step W s i \<or>
    (\<exists>j. j \<noteq> i \<and> holder (sys_gate s) = Some j \<and> (clients s j = Elsewhere \<or> call_can_step W s j))"
proof (cases "call_can_step W s i")
  case False
  from call_blocked [OF assms(3,2) False assms(4)] obtain j where
    j: "holder (sys_gate s) = Some j" "pc = GetWrite \<or> pc = GetWaitForOther" by blast
  with assms(1,3) have "holds_lock (clients s j)" by (simp add: lock_inv_def)
  with j(2) assms(3) have "j \<noteq> i" by auto
  with lock_holder_steps [OF assms(1,2) j(1)] j(1) show ?thesis by blast
qed simp

section \<open>Fair runs\<close>

text \<open>
  An infinite run; staying as it is counts as a step, the one in which no time passes.
\<close>

definition sys_run :: "('t::linorder, 'ep, 'ch, 'ioe) world \<Rightarrow> (nat \<Rightarrow> ('t, 'ep, 'ch) system) \<Rightarrow> bool" where
  "sys_run W r \<longleftrightarrow> (\<forall>n. sys_step W (r n) (r (Suc n)))"

text \<open>
  A run is fair if a call that can step again and again does change again and again (what
  the queue of tokio's lock and a scheduler that starves nobody give, when connecting and
  resolving end), and if the clients of other pools give the lock back.
\<close>

definition fair_run :: "('t::linorder, 'ep, 'ch, 'ioe) world \<Rightarrow> (nat \<Rightarrow> ('t, 'ep, 'ch) system) \<Rightarrow> bool" where
  "fair_run W r \<longleftrightarrow>
     (\<forall>i. (\<forall>n. \<exists>m\<ge>n. call_can_step W (r m) i) \<longrightarrow> (\<forall>n. \<exists>m\<ge>n. clients (r (Suc m)) i \<noteq> clients (r m) i)) \<and>
     (\<forall>i n. clients (r n) i = Elsewhere \<longrightarrow> (\<exists>m\<ge>n. clients (r m) i \<noteq> Elsewhere))"

lemma sys_run_reachable: "sys_run W r \<Longrightarrow> reachable W (r 0) (r n)"
  by (induction n) (auto simp: sys_run_def intro: rtranclp.rtrancl_into_rtrancl)

text \<open>A call that is never over is at one await forever, from some point on.\<close>

lemma call_settles:
  assumes "sys_run W r" "\<And>m. n \<le> m \<Longrightarrow> \<exists>pc. clients (r m) i = Getting pc"
  shows "\<exists>N\<ge>n. \<exists>pc. \<forall>m\<ge>N. clients (r m) i = Getting pc"
proof -
  obtain pc where "clients (r n) i = Getting pc" using assms(2) [of n] by auto
  with wf_call_order assms(2) show ?thesis
  proof (induction pc arbitrary: n rule: wf_induct_rule)
    case (less pc)
    show ?case
    proof (cases "\<forall>m\<ge>n. clients (r m) i = Getting pc")
      case False
      then have ex: "\<exists>d. clients (r (n + d)) i \<noteq> Getting pc" by (metis le_add_diff_inverse)
      define d where "d = (LEAST d. clients (r (n + d)) i \<noteq> Getting pc)"
      have d: "clients (r (n + d)) i \<noteq> Getting pc" unfolding d_def using ex by (rule LeastI_ex)
      with less.prems(2) obtain d' where d': "d = Suc d'" by (cases d) auto
      then have before: "clients (r (n + d')) i = Getting pc"
        using not_less_Least [of d' "\<lambda>d. clients (r (n + d)) i \<noteq> Getting pc"] by (auto simp: d_def)
      have step: "sys_step W (r (n + d')) (r (n + d))" using assms(1) d' by (simp add: sys_run_def)
      obtain pc' where pc': "clients (r (n + d)) i = Getting pc'" "(pc', pc) \<in> call_order"
      proof (cases rule: sys_step_call [OF step before, case_names same gone own])
        case same
        with d show ?thesis by simp
      next
        case gone
        with less.prems(1) [of "n + d"] show ?thesis by auto
      next
        case (own pc')
        then show ?thesis by (rule that)
      qed
      from less.IH [OF pc'(2) _ pc'(1)] less.prems(1) obtain N where
        "n + d \<le> N" "\<exists>pc. \<forall>m\<ge>N. clients (r m) i = Getting pc" by (meson le_trans le_add1)
      then show ?thesis by (meson le_trans le_add1)
    qed auto
  qed
qed

text \<open>So on a fair run it cannot step any more.\<close>

lemma settled_call_blocked:
  assumes "fair_run W r" "\<And>m. N \<le> m \<Longrightarrow> clients (r m) i = Getting pc"
  shows "\<exists>M\<ge>N. \<forall>m\<ge>M. \<not> call_can_step W (r m) i"
proof (rule ccontr)
  assume "\<not> ?thesis"
  then have "\<exists>m\<ge>n. call_can_step W (r m) i" for n by (meson le_trans nat_le_linear)
  with assms(1) obtain m where "N \<le> m" "clients (r (Suc m)) i \<noteq> clients (r m) i"
    unfolding fair_run_def by blast
  with assms(2) [of m] assms(2) [of "Suc m"] show False by simp
qed

text \<open>The lock passes from one holder to the next only through being free.\<close>

lemma holder_step:
  assumes "sys_step W s s'" "lock_inv s" "holder (sys_gate s) = Some j" "holder (sys_gate s') \<noteq> None"
  shows "holder (sys_gate s') = Some j"
  using assms
proof (cases rule: sys_step.cases)
  case (call env i k)
  show ?thesis
  proof (cases rule: client_step_cases [OF call(2), case_names get report panic])
    case (get pc st g pc')
    have "holds_lock (Getting pc) \<longleftrightarrow> holder (sys_gate s) = Some i"
      using assms(2) get(1) unfolding lock_inv_def by metis
    from get_step_lock [OF get(2) this] get(3) assms(3,4) show ?thesis by (cases "i = j") auto
  qed (use assms(3,4) in \<open>auto simp: drop_client_def release_def split: if_splits\<close>)
qed (auto simp: drop_client_def release_def split: if_splits)

lemma lock_kept:
  assumes "sys_run W r" "lock_inv (r 0)" "\<And>m. M \<le> m \<Longrightarrow> holder (sys_gate (r m)) \<noteq> None"
  shows "\<exists>j. \<forall>m\<ge>M. holder (sys_gate (r m)) = Some j"
proof -
  have inv: "lock_inv (r n)" for n
    by (induction n) (use assms(1,2) in \<open>auto simp: sys_run_def intro: sys_step_lock\<close>)
  obtain j where j: "holder (sys_gate (r M)) = Some j" using assms(3) [of M] by auto
  have "holder (sys_gate (r (M + d))) = Some j" for d
  proof (induction d)
    case (Suc d)
    from assms(1) have "sys_step W (r (M + d)) (r (M + Suc d))" by (simp add: sys_run_def)
    from holder_step [OF this inv Suc] assms(3) show ?case by simp
  qed (simp add: j)
  then show ?thesis by (metis le_add_diff_inverse)
qed

text \<open>Nobody keeps the lock forever.\<close>

lemma lock_freed:
  assumes "sys_run W r" "fair_run W r" "lock_inv (r 0)" "races_inv (r 0)"
  shows "\<exists>m\<ge>M. holder (sys_gate (r m)) = None"
proof (rule ccontr)
  assume "\<not> ?thesis"
  then obtain j where j: "\<And>m. M \<le> m \<Longrightarrow> holder (sys_gate (r m)) = Some j"
    using lock_kept [OF assms(1,3), of M] by auto
  have inv: "lock_inv (r n)" "races_inv (r n)" for n
    by (induction n) (use assms in \<open>auto simp: sys_run_def intro: sys_step_lock sys_step_races\<close>)
  have holds: "holds_lock (clients (r m) j)" if "M \<le> m" for m
    using inv(1) [of m] j [OF that] by (simp add: lock_inv_def)
  obtain M' where M': "M \<le> M'" "clients (r M') j \<noteq> Elsewhere"
  proof (cases "clients (r M) j = Elsewhere")
    case True
    with assms(2) obtain m where "M \<le> m" "clients (r m) j \<noteq> Elsewhere" unfolding fair_run_def by blast
    then show ?thesis by (rule that)
  qed (rule that, simp_all)
  have getting: "\<exists>pc. clients (r (M' + d)) j = Getting pc" for d
  proof (induction d)
    case 0
    from holds [of M'] M' show ?case by (cases "clients (r M') j") simp_all
  next
    case (Suc d)
    then obtain pc where pc: "clients (r (M' + d)) j = Getting pc" by blast
    from assms(1) have "sys_step W (r (M' + d)) (r (M' + Suc d))" by (simp add: sys_run_def)
    then show ?case
      by (rule sys_step_call [OF _ pc]) (use holds [of "M' + Suc d"] M'(1) in auto)
  qed
  then have "\<exists>pc. clients (r m) j = Getting pc" if "M' \<le> m" for m
    using getting [of "m - M'"] that by simp
  from call_settles [OF assms(1) this] obtain N pc where
    N: "M' \<le> N" "\<And>m. N \<le> m \<Longrightarrow> clients (r m) j = Getting pc" by blast
  from settled_call_blocked [OF assms(2) N(2)] obtain m where
    m: "N \<le> m" "\<not> call_can_step W (r m) j" by blast
  have "clients (r m) j \<noteq> Elsewhere" using N(2) [OF m(1)] by simp
  moreover have "holder (sys_gate (r m)) = Some j" using M'(1) N(1) m(1) by (intro j) simp
  ultimately show False using lock_holder_steps [OF inv, of m j] m(2) by blast
qed

lemma call_returns_if_fair:
  assumes "sys_run W r" "fair_run W r" "lock_inv (r 0)" "races_inv (r 0)" "clients (r n) i = Getting pc"
  shows "\<exists>m\<ge>n. call_returned (clients (r m) i) \<or> clients (r m) i = Idle"
proof (rule ccontr)
  assume never: "\<not> ?thesis"
  have inv: "races_inv (r n)" for n
    by (induction n) (use assms in \<open>auto simp: sys_run_def intro: sys_step_races\<close>)
  have getting: "\<exists>pc. clients (r (n + d)) i = Getting pc" for d
  proof (induction d)
    case (Suc d)
    then obtain pc where pc: "clients (r (n + d)) i = Getting pc" by blast
    from assms(1) have "sys_step W (r (n + d)) (r (n + Suc d))" by (simp add: sys_run_def)
    then show ?case by (rule sys_step_call [OF _ pc]) (use never in auto)
  qed (use assms(5) in simp)
  then have "\<exists>pc. clients (r m) i = Getting pc" if "n \<le> m" for m
    using getting [of "m - n"] that by simp
  from call_settles [OF assms(1) this] obtain N pc where
    N: "n \<le> N" "\<And>m. N \<le> m \<Longrightarrow> clients (r m) i = Getting pc" by blast
  from settled_call_blocked [OF assms(2) N(2)] obtain M where
    M: "N \<le> M" "\<And>m. M \<le> m \<Longrightarrow> \<not> call_can_step W (r m) i" by blast
  have "holder (sys_gate (r m)) \<noteq> None" if "M \<le> m" for m
    using call_blocked [OF N(2) inv M(2) [OF that]] never N(1) M(1) that by (meson le_trans)
  with lock_freed [OF assms(1-4), of M] show False by blast
qed

text \<open>
  A concrete fair run: a client of another pool takes the lock, a call finds it held and
  waits, the other client gives it back, and the call returns.
\<close>

definition waiting_client :: "bool \<Rightarrow> (int, ip_addr, ip_addr) get_pc \<Rightarrow> (int, ip_addr, ip_addr) system" where
  "waiting_client held pc = (sys_initial (- 1000000000) 0)\<lparr>
     clients := (\<lambda>_. Idle)(0 := if held then Elsewhere else Idle, 1 := Getting pc),
     sys_gate := \<lparr>last_recheck = 0, holder = if held then Some 0 else None\<rparr>\<rparr>"

definition waiting_run :: "nat \<Rightarrow> (int, ip_addr, ip_addr) system" where
  "waiting_run n =
     (if n = 0 then sys_initial (- 1000000000) 0
      else if n = 1 then (sys_initial (- 1000000000) 0)\<lparr>clients := (\<lambda>_. Idle)(0 := Elsewhere),
        sys_gate := \<lparr>last_recheck = 0, holder = Some 0\<rparr>\<rparr>
      else if n = 2 then waiting_client True GetAny
      else if n = 3 then waiting_client True GetTryRead
      else if n = 4 then waiting_client True GetWaitForOther
      else if n = 5 then waiting_client False GetWaitForOther
      else if n = 6 then waiting_client False GetAfterOther
      else waiting_client False (GetDone None))"

lemma waiting_client_step:
  assumes "get_step (nanos_env 0 [] (\<lambda>_. True)) 1 0
      (sys_pool (waiting_client held pc), sys_gate (waiting_client held pc), pc) =
    Some (Inr (sys_pool (waiting_client held pc), sys_gate (waiting_client held pc), pc'))"
  shows "sys_step nanos_world (waiting_client held pc) (waiting_client held pc')"
proof (rule sys_step.call)
  show "env_at nanos_world (waiting_client held pc) (nanos_env 0 [] (\<lambda>_. True))"
    using nanos_env_at [of "[]"] by (simp add: env_at_def waiting_client_def sys_initial_def)
  show "client_step (nanos_env 0 [] (\<lambda>_. True)) 1 0 (waiting_client held pc) = Some (waiting_client held pc')"
    using assms by (simp add: client_step_def waiting_client_def fun_upd_twist)
qed

lemma waiting_run: "sys_run nanos_world waiting_run"
  unfolding sys_run_def
proof
  fix n :: nat
  let ?s = "sys_initial (- 1000000000) 0 :: (int, ip_addr, ip_addr) system"
  have empty: "channels (ready_clients (sys_pool (waiting_client held pc))) = []" for held pc
    by (simp add: waiting_client_def sys_initial_def pool_initial_def ready_default_def)
  consider "n = 0" | "n = 1" | "n = 2" | "n = 3" | "n = 4" | "n = 5" | "n = 6" | "7 \<le> n" by linarith
  then show "sys_step nanos_world (waiting_run n) (waiting_run (Suc n))"
  proof cases
    case 1
    then show ?thesis
      using sys_step.elsewhere [of ?s 0 nanos_world] by (simp add: waiting_run_def sys_initial_def)
  next
    case 2
    then show ?thesis
      using sys_step.get [of "waiting_run 1" 1 nanos_world]
      by (simp add: waiting_run_def waiting_client_def sys_initial_def)
  next
    case 3
    then show ?thesis
      using waiting_client_step [of True GetAny GetTryRead] by (simp add: waiting_run_def get_any_at_empty empty)
  next
    case 4
    then show ?thesis
      using waiting_client_step [of True GetTryRead GetWaitForOther] by (simp add: waiting_run_def waiting_client_def)
  next
    case 5
    have "drop_client 0 (waiting_client True GetWaitForOther) = waiting_client False GetWaitForOther"
      by (simp add: drop_client_def waiting_client_def release_def fun_upd_twist)
    with 5 sys_step.drop [of nanos_world "waiting_client True GetWaitForOther" 0] show ?thesis
      by (simp add: waiting_run_def)
  next
    case 6
    then show ?thesis
      using waiting_client_step [of False GetWaitForOther GetAfterOther] by (simp add: waiting_run_def waiting_client_def)
  next
    case 7
    then show ?thesis
      using waiting_client_step [of False GetAfterOther "GetDone None"] by (simp add: waiting_run_def get_any_at_empty empty)
  next
    case 8
    with sys_step.time [of "waiting_run n" "sys_now (waiting_run n)" nanos_world] show ?thesis
      by (simp add: waiting_run_def)
  qed
qed

lemma waiting_run_fair: "fair_run nanos_world waiting_run"
proof -
  have last: "clients (waiting_run m) = (\<lambda>_. Idle)(1 := Getting (GetDone None))" if "7 \<le> m" for m
    using that by (auto simp: waiting_run_def waiting_client_def)
  have "\<not> call_can_step nanos_world (waiting_run m) i" if "7 \<le> m" for m i
    by (auto simp: call_can_step_def client_step_def last [OF that] split: if_splits)
  moreover have "\<exists>m\<ge>n. clients (waiting_run m) i \<noteq> Elsewhere" for n i
    by (intro exI [of _ "n + 7"]) (simp add: last)
  ultimately show ?thesis unfolding fair_run_def by blast
qed

section \<open>Properties\<close>

text \<open>
  C13: the clients of a pool never deadlock: in every reachable state a call of
  \<open>get_channel\<close> that has not returned can make a step, or it waits for the lock while
  another client holds it that can make a step itself or uses another pool.
\<close>

theorem get_channel_never_deadlocks:
  assumes "reachable W (sys_initial never now) s" "clients s i = Getting pc" "\<not> call_returned (Getting pc)"
  shows "call_can_step W s i \<or>
    (\<exists>j. j \<noteq> i \<and> holder (sys_gate s) = Some j \<and> (clients s j = Elsewhere \<or> call_can_step W s j))"
  using call_never_deadlocked [OF reachable_lock reachable_races, OF assms(1,1,2)] assms(2,3) by simp

theorem get_channel_never_deadlocks_witness:
  "reachable nanos_world (sys_initial (- 1000000000) 0) (waiting_run 4) \<and>
    clients (waiting_run 4) 1 = Getting GetWaitForOther \<and>
    (call_can_step nanos_world (waiting_run 4) 1 \<or>
     (\<exists>j. j \<noteq> 1 \<and> holder (sys_gate (waiting_run 4)) = Some j \<and>
       (clients (waiting_run 4) j = Elsewhere \<or> call_can_step nanos_world (waiting_run 4) j)))"
proof -
  have r: "reachable nanos_world (sys_initial (- 1000000000) 0) (waiting_run 4)"
    using sys_run_reachable [OF waiting_run, of 4] by (simp add: waiting_run_def)
  have c: "clients (waiting_run 4) 1 = Getting GetWaitForOther"
    by (simp add: waiting_run_def waiting_client_def)
  from get_channel_never_deadlocks [OF r c] r c show ?thesis by (simp add: call_returned_def)
qed

text \<open>
  C12: on every fair run every call of \<open>get_channel\<close> ends: it returns, unless its caller
  drops it or it panics before.  No bound on the number of addresses, of broken entries, of
  clients or of the steps in between is assumed.
\<close>

theorem get_channel_returns:
  assumes "reachable W (sys_initial never now) (r 0)" "sys_run W r" "fair_run W r"
    and "clients (r n) i = Getting pc"
  shows "\<exists>m\<ge>n. call_returned (clients (r m) i) \<or> clients (r m) i = Idle"
  by (rule call_returns_if_fair [OF assms(2,3) reachable_lock reachable_races, OF assms(1,1,4)])

theorem get_channel_returns_witness:
  "\<exists>m\<ge>2. call_returned (clients (waiting_run m) 1) \<or> clients (waiting_run m) 1 = Idle"
proof (rule get_channel_returns [OF _ waiting_run waiting_run_fair])
  show "reachable nanos_world (sys_initial (- 1000000000) 0) (waiting_run 0)" by (simp add: waiting_run_def)
  show "clients (waiting_run 2) 1 = Getting GetAny" by (simp add: waiting_run_def waiting_client_def)
qed

end
