(* ===== verification/Mock_Pool.thy ===== *)
theory Mock_Pool
  imports Channel_Pool
begin

text \<open>
  \<open>soda-pool/src/mock.rs\<close>: the pool for unit tests, which always hands out the channel it
  was made with, under the IPv4 loopback address, and ignores reports.
\<close>

record 'ch mock_channel_pool =
  mock_channel :: 'ch

definition mock_pool_new :: "'ch \<Rightarrow> 'ch mock_channel_pool" where
  "mock_pool_new channel = \<lparr>mock_channel = channel\<rparr>"

definition mock_get_channel ::
  "'ch mock_channel_pool \<Rightarrow> ((ip_addr \<times> 'ch) option \<times> 'ch mock_channel_pool) may_panic" where
  "mock_get_channel self = Inr (Some (LOCALHOST_V4, mock_channel self), self)"

definition mock_report_broken :: "ip_addr \<Rightarrow> 'ch mock_channel_pool \<Rightarrow> 'ch mock_channel_pool may_panic" where
  "mock_report_broken ip_address self = Inr self"

interpretation mock: channel_pool mock_get_channel mock_report_broken "\<lambda>_. True"
  by unfold_locales (simp_all add: mock_get_channel_def mock_report_broken_def)

end
