(* ===== verification/Retry.thy ===== *)
theory Retry
  imports Prelude
begin

text \<open>
  \<open>soda-pool/src/retry.rs\<close>: what a retry policy answers, and the two policies of the
  repository.  A policy is a function of tonic's \<open>Status\<close>, the type parameter \<open>'status\<close>,
  and of the number of attempts so far, a \<open>u8\<close>.
\<close>

datatype server_status = Alive | Dead

datatype retry_time = DoNotRetry | Immediately | After duration

type_synonym retry_policy_result = "server_status \<times> retry_time"

type_synonym 'status retry_policy = "'status \<Rightarrow> u8 \<Rightarrow> retry_policy_result"

text \<open>\<open>has_source err\<close> is \<open>Error::source(err).is_some()\<close> of tonic's status.\<close>

definition default_retry_policy :: "('status \<Rightarrow> bool) \<Rightarrow> 'status retry_policy" where
  "default_retry_policy has_source err tries =
     (if has_source err then (Dead, Immediately) else (Alive, DoNotRetry))"

text \<open>The policy of \<open>example/client\<close>.\<close>

definition always_retry :: "'status retry_policy" where
  "always_retry err tries = (Dead, Immediately)"

end
