(* ===== verification/Client.thy ===== *)
theory Client
  imports Managed_Pool Mock_Pool Retry
begin

text \<open>
  The client method that \<open>soda-pool-build\<close> generates for every RPC (\<open>generator.rs\<close>), which
  the macro \<open>define_method!\<close> of \<open>soda-pool/src/macros.rs\<close> and the checked-in
  \<open>health_pool.rs\<close> spell out too: call the server behind a pooled channel, and on an error
  let the retry policy decide.

  Tonic's client and its \<open>Status\<close> are parameters: \<open>rpc c i ch req\<close> is the outcome of the
  \<open>i\<close>-th call, \<open>unavailable\<close> is \<open>Status::unavailable\<close>.
\<close>

section \<open>The method\<close>

record ('p, 'ch, 'status, 'req, 'resp) client =
  pool_get :: "'p \<Rightarrow> ((ip_addr \<times> 'ch) option \<times> 'p) may_panic"
  pool_report :: "ip_addr \<Rightarrow> 'p \<Rightarrow> 'p may_panic"
  retry_policy_of :: "'status retry_policy"
  rpc :: "nat \<Rightarrow> 'ch \<Rightarrow> 'req \<Rightarrow> 'status + 'resp"
  unavailable :: "string \<Rightarrow> 'status"
  client_overflow_checks :: bool

text \<open>
  The loop from attempt \<open>i\<close> on, with the counter \<open>tries\<close> as it stands before it; the result
  has the durations slept.  \<open>None\<close> means that \<open>fuel\<close> attempts were not enough.
\<close>

fun retry_loop ::
  "('p, 'ch, 'status, 'req, 'resp) client \<Rightarrow> nat \<Rightarrow> nat \<Rightarrow> u8 \<Rightarrow> duration list \<Rightarrow> 'req \<Rightarrow> 'p \<Rightarrow>
     (('status + 'resp) \<times> duration list \<times> 'p) may_panic option"
where
  "retry_loop c 0 i tries slept request pool = None"
| "retry_loop c (Suc fuel) i tries slept request pool =
     (case u8_add (client_overflow_checks c) tries 1 of
        Inl panic \<Rightarrow> Some (Inl panic)
      | Inr tries \<Rightarrow>
     (case pool_get c pool of
        Inl panic \<Rightarrow> Some (Inl panic)
      | Inr (None, pool) \<Rightarrow> Some (Inr (Inl (unavailable c ''No ready channels''), slept, pool))
      | Inr (Some (ip_address, channel), pool) \<Rightarrow>
     (case rpc c i channel request of
        Inr response \<Rightarrow> Some (Inr (Inr response, slept, pool))
      | Inl e \<Rightarrow>
     (case retry_policy_of c e tries of (server_status, retry_time) \<Rightarrow>
     (case (if server_status = Dead then pool_report c ip_address pool else Inr pool) of
        Inl panic \<Rightarrow> Some (Inl panic)
      | Inr pool \<Rightarrow>
     (case retry_time of
        DoNotRetry \<Rightarrow> Some (Inr (Inl e, slept, pool))
      | Immediately \<Rightarrow> retry_loop c fuel (Suc i) tries slept request pool
      | After duration \<Rightarrow> retry_loop c fuel (Suc i) tries (slept @ [duration]) request pool))))))"

definition call_with_retry ::
  "('p, 'ch, 'status, 'req, 'resp) client \<Rightarrow> nat \<Rightarrow> 'req \<Rightarrow> 'p \<Rightarrow>
     (('status + 'resp) \<times> duration list \<times> 'p) may_panic option"
where
  "call_with_retry c fuel request pool = retry_loop c fuel 0 0 [] request pool"

text \<open>The method without \<open>_with_retry\<close> uses the default policy.\<close>

definition call ::
  "('status \<Rightarrow> bool) \<Rightarrow> ('p, 'ch, 'status, 'req, 'resp) client \<Rightarrow> nat \<Rightarrow> 'req \<Rightarrow> 'p \<Rightarrow>
     (('status + 'resp) \<times> duration list \<times> 'p) may_panic option"
where
  "call has_source c fuel request pool =
     call_with_retry (c\<lparr>retry_policy_of := default_retry_policy has_source\<rparr>) fuel request pool"

section \<open>Clients of any pool\<close>

text \<open>
  A policy that retries only on servers it declares dead, as both policies of the
  repository do.
\<close>

definition retries_dead_only :: "'status retry_policy \<Rightarrow> bool" where
  "retries_dead_only pol \<longleftrightarrow> (\<forall>e t. snd (pol e t) \<noteq> DoNotRetry \<longrightarrow> fst (pol e t) = Dead)"

lemma repository_policies: "retries_dead_only (default_retry_policy hs)" "retries_dead_only always_retry"
  by (simp_all add: retries_dead_only_def default_retry_policy_def always_retry_def)

text \<open>What a call can return: a response, an error the policy does not retry, or no channel.\<close>

definition outcome :: "('p, 'ch, 'status, 'req, 'resp) client \<Rightarrow> 'req \<Rightarrow> 'status + 'resp \<Rightarrow> bool" where
  "outcome c request r \<longleftrightarrow>
     (case r of
        Inr response \<Rightarrow> \<exists>i ch. rpc c i ch request = Inr response
      | Inl e \<Rightarrow> e = unavailable c ''No ready channels'' \<or>
          (\<exists>i ch t. rpc c i ch request = Inl e \<and> snd (retry_policy_of c e t) = DoNotRetry))"

context channel_pool begin

text \<open>With a pool that keeps its contract, a call that returns has one of these outcomes.\<close>

lemma retry_loop_outcome:
  assumes "pool_get c = get" "pool_report c = report"
  shows "inv p \<Longrightarrow> retry_loop c fuel i tries slept request p = Some (Inr (r, slept', p')) \<Longrightarrow>
    outcome c request r \<and> inv p'"
proof (induction fuel arbitrary: i tries slept p)
  case (Suc fuel)
  from Suc.prems(2) obtain n where n: "u8_add (client_overflow_checks c) tries 1 = Inr n"
    by (auto split: sum.splits)
  obtain g p1 where g: "get p = Inr (g, p1)" "inv p1" using get_returns [OF Suc.prems(1)] by blast
  show ?case
  proof (cases g)
    case None
    with Suc.prems n g assms show ?thesis by (auto simp: outcome_def)
  next
    case (Some ac)
    obtain a ch where ac: "g = Some (a, ch)" using Some by (cases ac) auto
    show ?thesis
    proof (cases "rpc c i ch request")
      case (Inr response)
      with Suc.prems n g ac assms have "r = Inr response" "inv p'" by auto
      with Inr show ?thesis by (auto simp: outcome_def)
    next
      case (Inl e)
      obtain s t where pol: "retry_policy_of c e n = (s, t)" by fastforce
      obtain p2 where p2: "report a p1 = Inr p2" "inv p2" using report_returns [OF g(2)] by blast
      define p3 where "p3 = (if s = Dead then p2 else p1)"
      have p3: "(if s = Dead then pool_report c a p1 else Inr p1) = Inr p3" "inv p3"
        using p2 g(2) by (simp_all add: p3_def assms)
      have "pool_get c p = Inr (Some (a, ch), p1)" using g(1) ac by (simp add: assms)
      note step = Suc.prems(2) n this Inl pol p3(1)
      show ?thesis
      proof (cases t)
        case DoNotRetry
        with step have "r = Inl e" "p' = p3" by auto
        with Inl pol DoNotRetry p3(2) show ?thesis by (auto simp: outcome_def) (metis snd_conv)
      next
        case Immediately
        with step have "retry_loop c fuel (Suc i) n slept request p3 = Some (Inr (r, slept', p'))" by simp
        with Suc.IH [OF p3(2)] show ?thesis by blast
      next
        case (After d)
        with step have "retry_loop c fuel (Suc i) n (slept @ [d]) request p3 = Some (Inr (r, slept', p'))" by simp
        with Suc.IH [OF p3(2)] show ?thesis by blast
      qed
    qed
  qed
qed simp

end

context draining_pool begin

text \<open>
  With a pool that drains, a policy that retries only on dead servers makes at most one
  attempt more than there are channels.
\<close>

lemma retry_loop_returns:
  assumes "pool_get c = get" "pool_report c = report" "retries_dead_only (retry_policy_of c)"
  shows "inv p \<Longrightarrow> stock p < fuel \<Longrightarrow> \<not> client_overflow_checks c \<or> unat tries + stock p < 255 \<Longrightarrow>
    \<exists>r slept' p'. retry_loop c fuel i tries slept request p = Some (Inr (r, slept', p')) \<and>
      inv p' \<and> stock p' \<le> stock p"
proof (induction fuel arbitrary: i tries slept p)
  case (Suc fuel)
  then have n: "u8_add (client_overflow_checks c) tries 1 = Inr (tries + 1)"
    by (auto simp: u8_add_def)
  have n': "\<not> client_overflow_checks c \<or> unat (tries + 1) = unat tries + 1"
    using Suc.prems(3) unat_u8_add [of tries 1] by auto
  obtain g p1 where g: "get p = Inr (g, p1)" "inv p1" using get_returns [OF Suc.prems(1)] by blast
  have p1: "stock p1 \<le> stock p" by (rule get_stock [OF Suc.prems(1) g(1)])
  show ?case
  proof (cases g)
    case None
    with n g p1 assms show ?thesis by simp
  next
    case (Some ac)
    obtain a ch where ac: "g = Some (a, ch)" using Some by (cases ac) auto
    obtain p2 where p2: "report a p1 = Inr p2" "inv p2" using report_returns [OF g(2)] by blast
    have less: "stock p2 < stock p"
      using g p2 ac Suc.prems(1) by (intro report_stock [of p a ch p1]) auto
    have IH: "\<exists>r slept' p'. retry_loop c fuel j (tries + 1) sl request p2 = Some (Inr (r, slept', p')) \<and>
        inv p' \<and> stock p' \<le> stock p" for j sl
    proof -
      have "stock p2 < fuel" "\<not> client_overflow_checks c \<or> unat (tries + 1) + stock p2 < 255"
        using Suc.prems n' less by auto
      from Suc.IH [OF p2(2) this, of j sl] less show ?thesis by fastforce
    qed
    show ?thesis
    proof (cases "rpc c i ch request")
      case (Inr response)
      with n g ac p1 assms show ?thesis by simp
    next
      case (Inl e)
      obtain s t where pol: "retry_policy_of c e (tries + 1) = (s, t)" by fastforce
      with assms(3) have "t \<noteq> DoNotRetry \<Longrightarrow> s = Dead"
        unfolding retries_dead_only_def by (metis fst_conv snd_conv)
      with n g ac Inl pol p2 p1 less assms IH show ?thesis
        by (cases t; cases s) simp_all
    qed
  qed
qed simp

end

section \<open>Clients of a pool that never drains\<close>

text \<open>With the mock pool, \<open>n\<close> failing attempts that are retried at once only count up.\<close>

lemma mock_attempts:
  assumes "pool_get c = mock_get_channel" "pool_report c = mock_report_broken"
    and "\<And>e t. snd (retry_policy_of c e t) = Immediately" "\<And>i ch. rpc c i ch request = Inl (err i)"
  shows "\<not> client_overflow_checks c \<or> unat tries + n \<le> 255 \<Longrightarrow>
    retry_loop c (n + fuel) i tries slept request p = retry_loop c fuel (i + n) (tries + of_nat n) slept request p"
proof (induction n arbitrary: i tries)
  case (Suc n)
  then have s: "u8_add (client_overflow_checks c) tries 1 = Inr (tries + 1)"
    by (auto simp: u8_add_def)
  have n: "\<not> client_overflow_checks c \<or> unat (tries + 1) + n \<le> 255"
    using Suc.prems unat_u8_add [of tries 1] by auto
  obtain d where "retry_policy_of c (err i) (tries + 1) = (d, Immediately)"
    using assms(3) by (metis prod.exhaust_sel)
  with s Suc.IH [OF n, of "Suc i"] show ?case
    by (simp add: assms mock_get_channel_def mock_report_broken_def add.assoc)
qed simp

section \<open>Properties\<close>


text \<open>
  A client of a concrete pool: every call fails with the given status, the name resolves to
  \<open>as\<close>, and the clock stands still.
\<close>

definition failing_client ::
  "ip_addr list \<Rightarrow> (string \<times> bool) \<Rightarrow> ((int, ip_addr) managed, ip_addr, string \<times> bool, unit, unit) client" where
  "failing_client as e =
     \<lparr>pool_get = managed_get (\<lambda>_. nanos_env 0 as (\<lambda>_. True)) (\<lambda>_. in_order),
      pool_report = managed_report (\<lambda>_. nanos_env 0 as (\<lambda>_. True)),
      retry_policy_of = default_retry_policy snd, rpc = (\<lambda>_ _ _. Inl e),
      unavailable = (\<lambda>m. (m, False)), client_overflow_checks = True\<rparr>"

lemma nanos_env_brief: "length as \<le> m \<Longrightarrow> brief (\<lambda>t. t) m (\<lambda>_. nanos_env 0 as up)"
  by (simp add: brief_def resolved_addresses_def nanos_env_def [of 0 as] resolve_domain_def utc_nanos_def
      MIN_INTERVAL_def duration_from_millis_def) (simp add: nanos_env_def [symmetric] utc_nanos_def [symmetric])


text \<open>
  C21: the counter \<open>tries\<close> is a \<open>u8\<close> although the number of attempts has no limit.  With a
  policy that always retries and a pool that keeps handing out a channel, a build with
  overflow checks panics at attempt 256, and without them the call never returns and the
  policy sees the counter start over from zero.
\<close>

theorem tries_overflow:
  assumes "pool_get c = mock_get_channel" "pool_report c = mock_report_broken"
    and "\<And>e t. snd (retry_policy_of c e t) = Immediately" "\<And>i ch. rpc c i ch request = Inl (err i)"
  shows "if client_overflow_checks c
    then call_with_retry c (256 + fuel) request p = Some (Inl AddOverflow)
    else call_with_retry c fuel request p = None \<and>
      call_with_retry c (256 + fuel) request p = retry_loop c fuel 256 0 [] request p"
proof (cases "client_overflow_checks c")
  case True
  have "(- 1 :: u8) = 255" "u8_add True 255 1 = Inl AddOverflow" by (simp_all add: u8_add_def)
  with mock_attempts [OF assms, where i = 0 and tries = 0 and n = 255 and fuel = "Suc fuel" and slept = "[]" and p = p] True show ?thesis
    by (simp add: call_with_retry_def)
next
  case False
  have "(256 :: u8) = 0" by simp
  with mock_attempts [OF assms, where i = 0 and tries = 0 and n = 256 and fuel = fuel and slept = "[]" and p = p]
    mock_attempts [OF assms, where i = 0 and tries = 0 and n = fuel and fuel = 0 and slept = "[]" and p = p] False
  show ?thesis by (simp add: call_with_retry_def)
qed

theorem tries_overflow_witness:
  "call_with_retry \<lparr>pool_get = mock_get_channel, pool_report = mock_report_broken,
      retry_policy_of = always_retry, rpc = (\<lambda>_ _ _. Inl ''busy'' :: string + unit),
      unavailable = id, client_overflow_checks = True\<rparr> 256 () (mock_pool_new ''channel'') = Some (Inl AddOverflow)"
  using tries_overflow [of "\<lparr>pool_get = mock_get_channel, pool_report = mock_report_broken,
      retry_policy_of = always_retry, rpc = (\<lambda>_ _ _. Inl ''busy'' :: string + unit),
      unavailable = id, client_overflow_checks = True\<rparr>" "()" "\<lambda>_. ''busy''" 0 "mock_pool_new ''channel''"]
  by (simp add: always_retry_def)



end
