(* ===== verification/Shared_Gate.thy ===== *)
theory Shared_Gate
  imports Client
begin

text \<open>
  Several pools of one process.  The lock \<open>RECHECK_BROKEN_ENDPOINTS\<close> of \<open>get_channel\<close>
  (\<open>soda-pool/src/pool.rs\<close>) is a static, so there is one for all pools: a pool that has just
  been built connects in its first call, unless a forced recheck of any other pool was less
  than 500 milliseconds ago.
\<close>

section \<open>The first call on a pool\<close>

text \<open>The channel to the first resolved address that accepts a connection.\<close>

definition first_reachable ::
  "('t, 'ep, 'ch, 'ioe) pool_env \<Rightarrow> ip_addr list \<Rightarrow> (ip_addr \<times> 'ch) option" where
  "first_reachable env as =
     find_map (\<lambda>a. case build_endpoint env a of
         Inl _ \<Rightarrow> None
       | Inr ep \<Rightarrow> map_option (Pair a) (env_connect env 0 ep)) as"

lemma steady_connect: "steady env \<Longrightarrow> env_connect env i = env_connect env 0"
  unfolding steady_def by blast

text \<open>\<open>scan_good\<close> for a pool without channels, in an environment that does not change.\<close>

lemma scan_fresh:
  fixes env :: "('t, 'ep, 'ch, 'ioe) pool_env"
  assumes "steady env"
  defines "reach \<equiv> scan_channel env (\<lambda>_. ready_default) (\<lambda>_. broken_default)"
  shows "first_reachable env as =
    (case filter (\<lambda>x. reach x \<noteq> None) (enumerate n as) of [] \<Rightarrow> None | x # _ \<Rightarrow> Some (snd x, the (reach x)))"
proof (induction as arbitrary: n)
  case Nil
  then show ?case by (simp add: first_reachable_def)
next
  case (Cons a as)
  have "reach (n, a) = (case build_endpoint env a of Inl _ \<Rightarrow> None | Inr ep \<Rightarrow> env_connect env 0 ep)"
    using steady_connect [OF assms(1), of n]
    by (simp add: reach_def scan_channel_def ready_find_def ready_default_def broken_get_address_def broken_default_def
        split: sum.split)
  with Cons [of "Suc n"] show ?case
    by (cases "reach (n, a)") (auto simp: first_reachable_def split: sum.splits option.splits)
qed

lemma get_any_fresh:
  assumes "steady env" "st = pool_initial"
  shows "fst (get_any_at (check_dns_store
      (scan_good env (\<lambda>_. ready_clients st) (\<lambda>_. broken_endpoints st) as, bad) st)) = first_reachable env as"
  using scan_fresh [OF assms(1), of as 0]
  by (auto simp: assms(2) get_any_at_def ready_get_any_def pool_initial_def check_dns_store_def ready_replace_with_def
      scan_good_def Let_def ready_default_def split: list.splits)

lemma fresh_call:
  assumes "env_ok ts env" "steady env" "resolves_to env as"
    and "holder g = None" "\<not> within_interval env g" "st = pool_initial"
  obtains st' where "get_run env in_order (steps_needed env st) (st, g, GetAny) =
    Some (Inr (first_reachable env as, st', \<lparr>last_recheck = env_now env 0, holder = None\<rparr>))"
proof -
  obtain bad where "check_dns env st = Inr (check_dns_store
      (scan_good env (\<lambda>_. ready_clients st) (\<lambda>_. broken_endpoints st) as, bad) st)"
      "scan_bad ts env (\<lambda>_. ready_clients st) (\<lambda>_. broken_endpoints st) as bad"
    by (rule check_dns_run [OF assms(1,3), of st])
  then show thesis
    using forced_recheck_in_order [OF assms(2) _ assms(4,5), of st] get_any_fresh [OF assms(2,6), of as bad]
    by (intro that) (simp add: assms(6))
qed

section \<open>Pools that share the lock\<close>

text \<open>
  The pools of a process by number, the lock, and the number of calls so far; call \<open>i\<close> sees
  the clock, the network and the resolver of \<open>envs i\<close>.  What client \<open>k\<close> calls changes pool
  \<open>k\<close> and the lock.
\<close>

type_synonym ('t, 'ch) process = "(nat \<Rightarrow> ('t, 'ch) pool) \<times> 't gate \<times> nat"

definition process_get ::
  "(nat \<Rightarrow> ('t, 'ep, 'ch, 'ioe) pool_env) \<Rightarrow> (nat \<Rightarrow> ('t, 'ep, 'ch) contender list \<Rightarrow> nat) \<Rightarrow> nat \<Rightarrow>
     ('t, 'ch) process \<Rightarrow> ((ip_addr \<times> 'ch) option \<times> ('t, 'ch) process) may_panic" where
  "process_get envs picks k = (\<lambda>(pools, g, i).
     map_ok (\<lambda>(r, st, g, i). (r, (pools(k := st), g, i))) (managed_get envs picks (pools k, g, i)))"

definition process_report ::
  "(nat \<Rightarrow> ('t, 'ep, 'ch, 'ioe) pool_env) \<Rightarrow> nat \<Rightarrow> ip_addr \<Rightarrow> ('t, 'ch) process \<Rightarrow> ('t, 'ch) process may_panic" where
  "process_report envs k a = (\<lambda>(pools, g, i).
     map_ok (\<lambda>(st, g, i). (pools(k := st), g, i)) (managed_report envs a (pools k, g, i)))"

lemma process_get_refused:
  assumes "channels (ready_clients (pools k)) = []" "holder g = None" "within_interval (envs i) g"
  shows "process_get envs picks k (pools, g, i) = Inr (None, (pools, g, Suc i))"
  using get_run_quiet [of "pools k" g "envs i" "steps_needed (envs i) (pools k)" "picks i"] assms
  by (simp add: process_get_def managed_get_def steps_needed_def get_any_at_empty)

lemma process_get_fresh:
  assumes "env_ok ts (envs i)" "steady (envs i)" "resolves_to (envs i) as"
    and "holder g = None" "\<not> within_interval (envs i) g" "pools k = pool_initial" "picks i = in_order"
  obtains st where "process_get envs picks k (pools, g, i) =
    Inr (first_reachable (envs i) as, (pools(k := st), \<lparr>last_recheck = env_now (envs i) 0, holder = None\<rparr>, Suc i))"
proof -
  obtain st where "get_run (envs i) in_order (steps_needed (envs i) (pools k)) (pools k, g, GetAny) =
      Some (Inr (first_reachable (envs i) as, st, \<lparr>last_recheck = env_now (envs i) 0, holder = None\<rparr>))"
    by (rule fresh_call [OF assms(1-6)])
  with assms(7) show thesis by (intro that [of st]) (simp add: process_get_def managed_get_def)
qed

text \<open>What a client makes of its first call to the pool.\<close>

lemma first_attempt:
  assumes "pool_get c p = Inr (r, p')"
  shows "r = None \<Longrightarrow> call_with_retry c (Suc fuel) request p =
      Some (Inr (Inl (unavailable c ''No ready channels''), [], p'))"
    and "r = Some (a, ch) \<Longrightarrow> rpc c 0 ch request = Inr response \<Longrightarrow>
      call_with_retry c (Suc fuel) request p = Some (Inr (Inr response, [], p'))"
  using assms by (simp_all add: call_with_retry_def u8_add_def)

section \<open>Properties\<close>

text \<open>
  C4: the first call of \<open>get_channel\<close> on a pool that has just been built, before any of its
  tasks has run, looks the name up and returns the channel of the first address that
  accepts a connection, or no channel if none does, and releases the lock with the time of
  the recheck; this if no forced recheck was made in the 500 milliseconds before.
\<close>

theorem fresh_pool_connects:
  assumes "env_ok ts env" "steady env" "resolves_to env as"
    and "holder g = None" "\<not> within_interval env g"
  shows "\<exists>st. get_run env in_order (steps_needed env pool_initial) (pool_initial, g, GetAny) =
    Some (Inr (first_reachable env as, st, \<lparr>last_recheck = env_now env 0, holder = None\<rparr>))"
  using fresh_call [OF assms refl] by blast

theorem fresh_pool_connects_witness:
  "\<exists>st. get_run (nanos_env 1000000000 [V4 1, V4 2] (\<lambda>a. a = V4 2)) in_order 17
      (pool_initial, \<lparr>last_recheck = 0, holder = None\<rparr>, GetAny) =
    Some (Inr (Some (V4 2, V4 2), st, \<lparr>last_recheck = 1000000000, holder = None\<rparr>))"
proof -
  let ?env = "nanos_env 1000000000 [V4 1, V4 2] (\<lambda>a. a = V4 2)" and ?g = "\<lparr>last_recheck = 0, holder = None\<rparr>"
  have "steps_needed ?env pool_initial = 17"
    by (simp add: steps_needed_def resolved_addresses_def nanos_env_def resolve_domain_def)
  moreover have "\<not> within_interval ?env ?g"
    by (simp add: within_interval_def MIN_INTERVAL_def duration_from_millis_def utc_nanos_def)
  moreover have "first_reachable ?env [V4 1, V4 2] = Some (V4 2, V4 2)" by (simp add: first_reachable_def)
  ultimately show ?thesis
    using fresh_pool_connects [of "\<lambda>t. t" ?env "[V4 1, V4 2]" ?g] by simp
qed

text \<open>
  C5: the pools of a process stand in each other's way.  Of two clients, each with its own
  pool just built, the first gets a response; when the second calls within 500 milliseconds
  it fails for want of a channel, without a lookup or a connection and whatever its servers
  and its retry policy: the recheck of the other pool counts as its own.
\<close>

theorem second_client_refused:
  assumes "pool_get c = process_get envs picks j" "pool_get d = process_get envs picks k" "j \<noteq> k"
    and "pools j = pool_initial" "pools k = pool_initial" "holder g = None" "\<not> within_interval (envs 0) g"
    and "env_ok ts (envs 0)" "steady (envs 0)" "resolves_to (envs 0) as" "picks 0 = in_order"
    and "first_reachable (envs 0) as = Some (a, ch)" "rpc c 0 ch request = Inr response"
    and "signed_duration_since (clock (envs 1)) (env_now (envs 1) 0) (env_now (envs 0) 0) < MIN_INTERVAL"
  shows "\<exists>p g'. call_with_retry c (Suc fuel) request (pools, g, 0) = Some (Inr (Inr response, [], (p, g', 1))) \<and>
    call_with_retry d (Suc fuel') request' (p, g', 1) =
      Some (Inr (Inl (unavailable d ''No ready channels''), [], (p, g', 2)))"
proof -
  let ?g = "\<lparr>last_recheck = env_now (envs 0) 0, holder = None\<rparr>"
  obtain st where c: "process_get envs picks j (pools, g, 0) = Inr (first_reachable (envs 0) as, (pools(j := st), ?g, Suc 0))"
    by (rule process_get_fresh [of ts envs 0 as g pools j picks]) (use assms in simp_all)
  have "process_get envs picks k (pools(j := st), ?g, Suc 0) = Inr (None, (pools(j := st), ?g, Suc (Suc 0)))"
    by (rule process_get_refused) (use assms in \<open>simp_all add: within_interval_def\<close>)
  with c show ?thesis
    using first_attempt(2) [of c "(pools, g, 0)"] first_attempt(1) [of d] assms(1,2,12,13)
    by (auto simp: numeral_2_eq_2)
qed

text \<open>
  Two clients of a process, \<open>health\<close> and \<open>echo\<close>, whose calls always succeed, 100 milliseconds
  apart.
\<close>

definition sample_envs :: "nat \<Rightarrow> (int, ip_addr, ip_addr, unit) pool_env" where
  "sample_envs i = nanos_env (int i * 100000000) [V4 1] (\<lambda>_. True)"

definition process_client :: "nat \<Rightarrow> ((int, ip_addr) process, ip_addr, string, unit, string) client" where
  "process_client k =
     \<lparr>pool_get = process_get sample_envs (\<lambda>_. in_order) k, pool_report = process_report sample_envs k,
      retry_policy_of = always_retry, rpc = (\<lambda>_ _ _. Inr ''hello''), unavailable = id, client_overflow_checks = True\<rparr>"

theorem second_client_refused_witness:
  "\<exists>p g'. call_with_retry (process_client 0) 1 () (\<lambda>_. pool_initial, \<lparr>last_recheck = - 1000000000, holder = None\<rparr>, 0) =
      Some (Inr (Inr ''hello'', [], (p, g', 1))) \<and>
    call_with_retry (process_client 1) 5 () (p, g', 1) = Some (Inr (Inl ''No ready channels'', [], (p, g', 2)))"
proof -
  have "\<not> within_interval (sample_envs 0) \<lparr>last_recheck = - 1000000000, holder = None\<rparr>"
    "signed_duration_since (clock (sample_envs 1)) (env_now (sample_envs 1) 0) (env_now (sample_envs 0) 0) < MIN_INTERVAL"
    by (simp_all add: sample_envs_def within_interval_def MIN_INTERVAL_def duration_from_millis_def utc_nanos_def)
  moreover have "first_reachable (sample_envs 0) [V4 1] = Some (V4 1, V4 1)"
    by (simp add: sample_envs_def first_reachable_def)
  ultimately show ?thesis
    using second_client_refused [of "process_client 0" sample_envs "\<lambda>_. in_order" 0 "process_client 1" 1
        "\<lambda>_. pool_initial" "\<lparr>last_recheck = - 1000000000, holder = None\<rparr>" "\<lambda>t. t" "[V4 1]" "V4 1" "V4 1" "()" "''hello''" 0 4 "()"]
    by (simp add: process_client_def) (simp add: sample_envs_def)
qed

end
