(* ===== verification/Health_Service.thy ===== *)
theory Health_Service
  imports Net_Types
begin

text \<open>
  \<open>example/protobuf.gen/src/health.rs\<close>: the messages, clients and servers that tonic-build
  writes for the services \<open>health.Health\<close> and \<open>health.Echo\<close>.

  Tonic's runtime is a parameter: \<open>grpc_client_lib\<close> has \<open>tonic::client::Grpc\<close> (its state is
  \<open>'g\<close>, its transport \<open>'t\<close>), \<open>encodings_lib\<close> the set of compression encodings of a server; the
  functions that send a request (\<open>unary\<close>, \<open>streaming\<close>) and those that serve one are
  arguments of the methods that call them, at the types of their messages.  \<open>usize\<close> has 64
  bits.
\<close>

section \<open>Messages\<close>

record is_alive_response =
  alive_message :: string

record echo_request =
  request_message :: string

record echo_response =
  response_message :: string

text \<open>
  Tonic's \<open>Request\<close>: what the methods see of it are the message and, among the extensions,
  the \<open>GrpcMethod\<close>.
\<close>

record ('md, 'ext, 'a) request =
  metadata :: 'md
  grpc_method :: "(string \<times> string) option"
  extensions :: 'ext
  message :: 'a

section \<open>Clients\<close>

record ('g, 't, 'uri, 'enc, 'status) grpc_client_lib =
  grpc_new :: "'t \<Rightarrow> 'g"
  grpc_with_origin :: "'t \<Rightarrow> 'uri \<Rightarrow> 'g"
  grpc_send_compressed :: "'g \<Rightarrow> 'enc \<Rightarrow> 'g"
  grpc_accept_compressed :: "'g \<Rightarrow> 'enc \<Rightarrow> 'g"
  grpc_max_decoding_message_size :: "'g \<Rightarrow> 64 word \<Rightarrow> 'g"
  grpc_max_encoding_message_size :: "'g \<Rightarrow> 64 word \<Rightarrow> 'g"
  grpc_ready :: "'g \<Rightarrow> (string + unit) \<times> 'g"
  status_unknown :: "string \<Rightarrow> 'status"

text \<open>The start of every method: \<open>self.inner.ready()\<close>, and the request with its method.\<close>

definition when_ready ::
  "('g, 't, 'uri, 'enc, 'status) grpc_client_lib \<Rightarrow> 'g \<Rightarrow> ('g \<Rightarrow> ('status + 'resp) \<times> 'g) \<Rightarrow> ('status + 'resp) \<times> 'g" where
  "when_ready L inner call =
     (case grpc_ready L inner of
        (Inl e, inner) \<Rightarrow> (Inl (status_unknown L (''Service was not ready: '' @ e)), inner)
      | (Inr _, inner) \<Rightarrow> call inner)"

subsection \<open>\<open>health_client\<close>\<close>

record 'g health_client =
  health_inner :: 'g

definition health_client_new :: "('g, 't, 'uri, 'enc, 'status) grpc_client_lib \<Rightarrow> 't \<Rightarrow> 'g health_client" where
  "health_client_new L inner = \<lparr>health_inner = grpc_new L inner\<rparr>"

definition health_client_connect ::
  "('g, 't, 'uri, 'enc, 'status) grpc_client_lib \<Rightarrow> ('d \<Rightarrow> 'e + 'ep) \<Rightarrow> ('ep \<Rightarrow> 'e + 't) \<Rightarrow> 'd \<Rightarrow> 'e + 'g health_client" where
  "health_client_connect L endpoint_new connect dst =
     bind_res (endpoint_new dst) (\<lambda>endpoint. map_ok (health_client_new L) (connect endpoint))"

definition health_client_with_origin ::
  "('g, 't, 'uri, 'enc, 'status) grpc_client_lib \<Rightarrow> 't \<Rightarrow> 'uri \<Rightarrow> 'g health_client" where
  "health_client_with_origin L inner origin = \<lparr>health_inner = grpc_with_origin L inner origin\<rparr>"

text \<open>\<open>intercepted\<close> is \<open>InterceptedService::new\<close>.\<close>

definition health_client_with_interceptor ::
  "('g, 'i, 'uri, 'enc, 'status) grpc_client_lib \<Rightarrow> ('t \<Rightarrow> 'f \<Rightarrow> 'i) \<Rightarrow> 't \<Rightarrow> 'f \<Rightarrow> 'g health_client" where
  "health_client_with_interceptor L intercepted inner interceptor =
     health_client_new L (intercepted inner interceptor)"

definition health_client_send_compressed ::
  "('g, 't, 'uri, 'enc, 'status) grpc_client_lib \<Rightarrow> 'enc \<Rightarrow> 'g health_client \<Rightarrow> 'g health_client" where
  "health_client_send_compressed L encoding self =
     self\<lparr>health_inner := grpc_send_compressed L (health_inner self) encoding\<rparr>"

definition health_client_accept_compressed ::
  "('g, 't, 'uri, 'enc, 'status) grpc_client_lib \<Rightarrow> 'enc \<Rightarrow> 'g health_client \<Rightarrow> 'g health_client" where
  "health_client_accept_compressed L encoding self =
     self\<lparr>health_inner := grpc_accept_compressed L (health_inner self) encoding\<rparr>"

definition health_client_max_decoding_message_size ::
  "('g, 't, 'uri, 'enc, 'status) grpc_client_lib \<Rightarrow> 64 word \<Rightarrow> 'g health_client \<Rightarrow> 'g health_client" where
  "health_client_max_decoding_message_size L limit self =
     self\<lparr>health_inner := grpc_max_decoding_message_size L (health_inner self) limit\<rparr>"

definition health_client_max_encoding_message_size ::
  "('g, 't, 'uri, 'enc, 'status) grpc_client_lib \<Rightarrow> 64 word \<Rightarrow> 'g health_client \<Rightarrow> 'g health_client" where
  "health_client_max_encoding_message_size L limit self =
     self\<lparr>health_inner := grpc_max_encoding_message_size L (health_inner self) limit\<rparr>"

definition health_client_is_alive ::
  "('g, 't, 'uri, 'enc, 'status) grpc_client_lib \<Rightarrow>
     ('g \<Rightarrow> ('md, 'ext, unit) request \<Rightarrow> string \<Rightarrow> ('status + is_alive_response) \<times> 'g) \<Rightarrow>
     ('md, 'ext, unit) request \<Rightarrow> 'g health_client \<Rightarrow> ('status + is_alive_response) \<times> 'g health_client" where
  "health_client_is_alive L unary request self =
     (let path = ''/health.Health/IsAlive'';
          req = request\<lparr>grpc_method := Some (''health.Health'', ''IsAlive'')\<rparr>;
          (r, inner) = when_ready L (health_inner self) (\<lambda>inner. unary inner req path)
      in (r, self\<lparr>health_inner := inner\<rparr>))"

subsection \<open>\<open>echo_client\<close>\<close>

record 'g echo_client =
  echo_inner :: 'g

definition echo_client_new :: "('g, 't, 'uri, 'enc, 'status) grpc_client_lib \<Rightarrow> 't \<Rightarrow> 'g echo_client" where
  "echo_client_new L inner = \<lparr>echo_inner = grpc_new L inner\<rparr>"

definition echo_client_connect ::
  "('g, 't, 'uri, 'enc, 'status) grpc_client_lib \<Rightarrow> ('d \<Rightarrow> 'e + 'ep) \<Rightarrow> ('ep \<Rightarrow> 'e + 't) \<Rightarrow> 'd \<Rightarrow> 'e + 'g echo_client" where
  "echo_client_connect L endpoint_new connect dst =
     bind_res (endpoint_new dst) (\<lambda>endpoint. map_ok (echo_client_new L) (connect endpoint))"

definition echo_client_with_origin ::
  "('g, 't, 'uri, 'enc, 'status) grpc_client_lib \<Rightarrow> 't \<Rightarrow> 'uri \<Rightarrow> 'g echo_client" where
  "echo_client_with_origin L inner origin = \<lparr>echo_inner = grpc_with_origin L inner origin\<rparr>"

definition echo_client_with_interceptor ::
  "('g, 'i, 'uri, 'enc, 'status) grpc_client_lib \<Rightarrow> ('t \<Rightarrow> 'f \<Rightarrow> 'i) \<Rightarrow> 't \<Rightarrow> 'f \<Rightarrow> 'g echo_client" where
  "echo_client_with_interceptor L intercepted inner interceptor =
     echo_client_new L (intercepted inner interceptor)"

definition echo_client_send_compressed ::
  "('g, 't, 'uri, 'enc, 'status) grpc_client_lib \<Rightarrow> 'enc \<Rightarrow> 'g echo_client \<Rightarrow> 'g echo_client" where
  "echo_client_send_compressed L encoding self =
     self\<lparr>echo_inner := grpc_send_compressed L (echo_inner self) encoding\<rparr>"

definition echo_client_accept_compressed ::
  "('g, 't, 'uri, 'enc, 'status) grpc_client_lib \<Rightarrow> 'enc \<Rightarrow> 'g echo_client \<Rightarrow> 'g echo_client" where
  "echo_client_accept_compressed L encoding self =
     self\<lparr>echo_inner := grpc_accept_compressed L (echo_inner self) encoding\<rparr>"

definition echo_client_max_decoding_message_size ::
  "('g, 't, 'uri, 'enc, 'status) grpc_client_lib \<Rightarrow> 64 word \<Rightarrow> 'g echo_client \<Rightarrow> 'g echo_client" where
  "echo_client_max_decoding_message_size L limit self =
     self\<lparr>echo_inner := grpc_max_decoding_message_size L (echo_inner self) limit\<rparr>"

definition echo_client_max_encoding_message_size ::
  "('g, 't, 'uri, 'enc, 'status) grpc_client_lib \<Rightarrow> 64 word \<Rightarrow> 'g echo_client \<Rightarrow> 'g echo_client" where
  "echo_client_max_encoding_message_size L limit self =
     self\<lparr>echo_inner := grpc_max_encoding_message_size L (echo_inner self) limit\<rparr>"

definition echo_client_echo_message ::
  "('g, 't, 'uri, 'enc, 'status) grpc_client_lib \<Rightarrow>
     ('g \<Rightarrow> ('md, 'ext, echo_request) request \<Rightarrow> string \<Rightarrow> ('status + echo_response) \<times> 'g) \<Rightarrow>
     ('md, 'ext, echo_request) request \<Rightarrow> 'g echo_client \<Rightarrow> ('status + echo_response) \<times> 'g echo_client" where
  "echo_client_echo_message L unary request self =
     (let path = ''/health.Echo/EchoMessage'';
          req = request\<lparr>grpc_method := Some (''health.Echo'', ''EchoMessage'')\<rparr>;
          (r, inner) = when_ready L (echo_inner self) (\<lambda>inner. unary inner req path)
      in (r, self\<lparr>echo_inner := inner\<rparr>))"

text \<open>\<open>'s\<close> and \<open>'r\<close> are the streams of messages.\<close>

definition echo_client_echo_stream ::
  "('g, 't, 'uri, 'enc, 'status) grpc_client_lib \<Rightarrow>
     ('g \<Rightarrow> ('md, 'ext, 's) request \<Rightarrow> string \<Rightarrow> ('status + 'r) \<times> 'g) \<Rightarrow>
     ('md, 'ext, 's) request \<Rightarrow> 'g echo_client \<Rightarrow> ('status + 'r) \<times> 'g echo_client" where
  "echo_client_echo_stream L streaming request self =
     (let path = ''/health.Echo/EchoStream'';
          req = request\<lparr>grpc_method := Some (''health.Echo'', ''EchoStream'')\<rparr>;
          (r, inner) = when_ready L (echo_inner self) (\<lambda>inner. streaming inner req path)
      in (r, self\<lparr>echo_inner := inner\<rparr>))"

section \<open>Servers\<close>

text \<open>What the servers read of a request and write into a response of the http crate.\<close>

record 'b http_request =
  uri_path :: string
  request_body :: 'b

record 'b http_response =
  headers :: "string \<rightharpoonup> string"
  response_body :: 'b

record ('encs, 'enc) encodings_lib =
  encodings_default :: 'encs
  encodings_enable :: "'encs \<Rightarrow> 'enc \<Rightarrow> 'encs"

text \<open>
  Tonic's \<open>Grpc::new(codec).apply_compression_config(..).apply_max_message_size_config(..)\<close>
  with \<open>unary\<close> or \<open>streaming\<close>: the encodings accepted and sent, the two size limits, the
  method and the request.
\<close>

type_synonym ('encs, 'm, 'b) serve =
  "'encs \<Rightarrow> 'encs \<Rightarrow> 64 word option \<Rightarrow> 64 word option \<Rightarrow> 'm \<Rightarrow> 'b http_request \<Rightarrow> 'b http_response may_panic"

text \<open>
  The answer to every path a server does not know; \<open>''12''\<close> is \<open>Code::Unimplemented\<close>.
\<close>

definition unimplemented_response :: "'b \<Rightarrow> 'b http_response" where
  "unimplemented_response no_body =
     \<lparr>headers = [''grpc-status'' \<mapsto> ''12'', ''content-type'' \<mapsto> ''application/grpc''], response_body = no_body\<rparr>"

subsection \<open>\<open>health_server\<close>\<close>

text \<open>The trait \<open>Health\<close>: an implementation is its method.\<close>

record ('md, 'ext, 'status) health =
  trait_is_alive :: "('md, 'ext, unit) request \<Rightarrow> ('status + is_alive_response) may_panic"

record ('i, 'encs) health_server =
  hs_inner :: 'i
  hs_accept_compression_encodings :: 'encs
  hs_send_compression_encodings :: 'encs
  hs_max_decoding_message_size :: "64 word option"
  hs_max_encoding_message_size :: "64 word option"

definition health_server_from_arc :: "('encs, 'enc) encodings_lib \<Rightarrow> 'i \<Rightarrow> ('i, 'encs) health_server" where
  "health_server_from_arc E inner =
     \<lparr>hs_inner = inner,
      hs_accept_compression_encodings = encodings_default E,
      hs_send_compression_encodings = encodings_default E,
      hs_max_decoding_message_size = None,
      hs_max_encoding_message_size = None\<rparr>"

definition health_server_new :: "('encs, 'enc) encodings_lib \<Rightarrow> 'i \<Rightarrow> ('i, 'encs) health_server" where
  "health_server_new E inner = health_server_from_arc E inner"

definition health_server_with_interceptor ::
  "('encs, 'enc) encodings_lib \<Rightarrow> (('i, 'encs) health_server \<Rightarrow> 'f \<Rightarrow> 's) \<Rightarrow> 'i \<Rightarrow> 'f \<Rightarrow> 's" where
  "health_server_with_interceptor E intercepted inner interceptor =
     intercepted (health_server_new E inner) interceptor"

definition health_server_accept_compressed ::
  "('encs, 'enc) encodings_lib \<Rightarrow> 'enc \<Rightarrow> ('i, 'encs) health_server \<Rightarrow> ('i, 'encs) health_server" where
  "health_server_accept_compressed E encoding self =
     self\<lparr>hs_accept_compression_encodings := encodings_enable E (hs_accept_compression_encodings self) encoding\<rparr>"

definition health_server_send_compressed ::
  "('encs, 'enc) encodings_lib \<Rightarrow> 'enc \<Rightarrow> ('i, 'encs) health_server \<Rightarrow> ('i, 'encs) health_server" where
  "health_server_send_compressed E encoding self =
     self\<lparr>hs_send_compression_encodings := encodings_enable E (hs_send_compression_encodings self) encoding\<rparr>"

definition health_server_max_decoding_message_size ::
  "64 word \<Rightarrow> ('i, 'encs) health_server \<Rightarrow> ('i, 'encs) health_server" where
  "health_server_max_decoding_message_size limit self = self\<lparr>hs_max_decoding_message_size := Some limit\<rparr>"

definition health_server_max_encoding_message_size ::
  "64 word \<Rightarrow> ('i, 'encs) health_server \<Rightarrow> ('i, 'encs) health_server" where
  "health_server_max_encoding_message_size limit self = self\<lparr>hs_max_encoding_message_size := Some limit\<rparr>"

definition health_server_call ::
  "('encs, ('md, 'ext, unit) request \<Rightarrow> ('status + is_alive_response) may_panic, 'b) serve \<Rightarrow> 'b \<Rightarrow>
     (('md, 'ext, 'status) health, 'encs) health_server \<Rightarrow> 'b http_request \<Rightarrow> 'b http_response may_panic" where
  "health_server_call unary no_body self req =
     (if uri_path req = ''/health.Health/IsAlive''
      then unary (hs_accept_compression_encodings self) (hs_send_compression_encodings self)
        (hs_max_decoding_message_size self) (hs_max_encoding_message_size self)
        (trait_is_alive (hs_inner self)) req
      else Inr (unimplemented_response no_body))"

definition health_server_clone :: "('i, 'encs) health_server \<Rightarrow> ('i, 'encs) health_server" where
  "health_server_clone self =
     \<lparr>hs_inner = hs_inner self,
      hs_accept_compression_encodings = hs_accept_compression_encodings self,
      hs_send_compression_encodings = hs_send_compression_encodings self,
      hs_max_decoding_message_size = hs_max_decoding_message_size self,
      hs_max_encoding_message_size = hs_max_encoding_message_size self\<rparr>"

definition HEALTH_SERVICE_NAME :: string where
  "HEALTH_SERVICE_NAME = ''health.Health''"

subsection \<open>\<open>echo_server\<close>\<close>

record ('md, 'ext, 's, 'r, 'status) echo =
  trait_echo_message :: "('md, 'ext, echo_request) request \<Rightarrow> ('status + echo_response) may_panic"
  trait_echo_stream :: "('md, 'ext, 's) request \<Rightarrow> ('status + 'r) may_panic"

record ('i, 'encs) echo_server =
  es_inner :: 'i
  es_accept_compression_encodings :: 'encs
  es_send_compression_encodings :: 'encs
  es_max_decoding_message_size :: "64 word option"
  es_max_encoding_message_size :: "64 word option"

definition echo_server_from_arc :: "('encs, 'enc) encodings_lib \<Rightarrow> 'i \<Rightarrow> ('i, 'encs) echo_server" where
  "echo_server_from_arc E inner =
     \<lparr>es_inner = inner,
      es_accept_compression_encodings = encodings_default E,
      es_send_compression_encodings = encodings_default E,
      es_max_decoding_message_size = None,
      es_max_encoding_message_size = None\<rparr>"

definition echo_server_new :: "('encs, 'enc) encodings_lib \<Rightarrow> 'i \<Rightarrow> ('i, 'encs) echo_server" where
  "echo_server_new E inner = echo_server_from_arc E inner"

definition echo_server_with_interceptor ::
  "('encs, 'enc) encodings_lib \<Rightarrow> (('i, 'encs) echo_server \<Rightarrow> 'f \<Rightarrow> 's) \<Rightarrow> 'i \<Rightarrow> 'f \<Rightarrow> 's" where
  "echo_server_with_interceptor E intercepted inner interceptor =
     intercepted (echo_server_new E inner) interceptor"

definition echo_server_accept_compressed ::
  "('encs, 'enc) encodings_lib \<Rightarrow> 'enc \<Rightarrow> ('i, 'encs) echo_server \<Rightarrow> ('i, 'encs) echo_server" where
  "echo_server_accept_compressed E encoding self =
     self\<lparr>es_accept_compression_encodings := encodings_enable E (es_accept_compression_encodings self) encoding\<rparr>"

definition echo_server_send_compressed ::
  "('encs, 'enc) encodings_lib \<Rightarrow> 'enc \<Rightarrow> ('i, 'encs) echo_server \<Rightarrow> ('i, 'encs) echo_server" where
  "echo_server_send_compressed E encoding self =
     self\<lparr>es_send_compression_encodings := encodings_enable E (es_send_compression_encodings self) encoding\<rparr>"

definition echo_server_max_decoding_message_size ::
  "64 word \<Rightarrow> ('i, 'encs) echo_server \<Rightarrow> ('i, 'encs) echo_server" where
  "echo_server_max_decoding_message_size limit self = self\<lparr>es_max_decoding_message_size := Some limit\<rparr>"

definition echo_server_max_encoding_message_size ::
  "64 word \<Rightarrow> ('i, 'encs) echo_server \<Rightarrow> ('i, 'encs) echo_server" where
  "echo_server_max_encoding_message_size limit self = self\<lparr>es_max_encoding_message_size := Some limit\<rparr>"

definition echo_server_call ::
  "('encs, ('md, 'ext, echo_request) request \<Rightarrow> ('status + echo_response) may_panic, 'b) serve \<Rightarrow>
     ('encs, ('md, 'ext, 's) request \<Rightarrow> ('status + 'r) may_panic, 'b) serve \<Rightarrow> 'b \<Rightarrow>
     (('md, 'ext, 's, 'r, 'status) echo, 'encs) echo_server \<Rightarrow> 'b http_request \<Rightarrow> 'b http_response may_panic" where
  "echo_server_call unary streaming no_body self req =
     (if uri_path req = ''/health.Echo/EchoMessage''
      then unary (es_accept_compression_encodings self) (es_send_compression_encodings self)
        (es_max_decoding_message_size self) (es_max_encoding_message_size self)
        (trait_echo_message (es_inner self)) req
      else if uri_path req = ''/health.Echo/EchoStream''
      then streaming (es_accept_compression_encodings self) (es_send_compression_encodings self)
        (es_max_decoding_message_size self) (es_max_encoding_message_size self)
        (trait_echo_stream (es_inner self)) req
      else Inr (unimplemented_response no_body))"

definition echo_server_clone :: "('i, 'encs) echo_server \<Rightarrow> ('i, 'encs) echo_server" where
  "echo_server_clone self =
     \<lparr>es_inner = es_inner self,
      es_accept_compression_encodings = es_accept_compression_encodings self,
      es_send_compression_encodings = es_send_compression_encodings self,
      es_max_decoding_message_size = es_max_decoding_message_size self,
      es_max_encoding_message_size = es_max_encoding_message_size self\<rparr>"

definition ECHO_SERVICE_NAME :: string where
  "ECHO_SERVICE_NAME = ''health.Echo''"

end
