(* ===== verification/Example_Server.thy ===== *)
theory Example_Server
  imports Health_Service "HOL-Library.Product_Lexorder"
begin

text \<open>
  \<open>example/server/src/main.rs\<close>: the console that starts and stops servers on the two
  localhost addresses and changes their settings, and the two services of a server.

  Parameters are what the standard library does with floating point numbers (\<open>'f\<close> is
  \<open>f64\<close>) and addresses, the order in which a hash map is read, whether a spawned task has
  finished, and the random numbers.  Tonic's server is seen as far as the console acts on
  it: a task is spawned with its settings, and it is told to stop when the sender of its
  channel is used or dropped.
\<close>

section \<open>Strings\<close>

definition is_whitespace :: "char \<Rightarrow> bool" where
  "is_whitespace c \<longleftrightarrow> (let n = of_char c :: nat in n = 32 \<or> 9 \<le> n \<and> n \<le> 13)"

text \<open>On ASCII input.\<close>

definition trim :: "string \<Rightarrow> string" where
  "trim s = rev (dropWhile is_whitespace (rev (dropWhile is_whitespace s)))"

definition starts_with :: "string \<Rightarrow> string \<Rightarrow> bool" where
  "starts_with s p \<longleftrightarrow> take (length p) s = p"

fun split_once :: "char \<Rightarrow> string \<Rightarrow> (string \<times> string) option" where
  "split_once c [] = None"
| "split_once c (x # xs) =
     (if x = c then Some ([], xs) else map_option (\<lambda>(a, b). (x # a, b)) (split_once c xs))"

definition digit_of :: "char \<Rightarrow> nat option" where
  "digit_of c = (let n = of_char c :: nat in if 48 \<le> n \<and> n \<le> 57 then Some (n - 48) else None)"

fun digits_value :: "nat \<Rightarrow> string \<Rightarrow> nat option" where
  "digits_value acc [] = Some acc"
| "digits_value acc (c # cs) =
     (case digit_of c of None \<Rightarrow> None | Some d \<Rightarrow> digits_value (10 * acc + d) cs)"

definition parse_u64 :: "string \<Rightarrow> u64 option" where
  "parse_u64 s =
     (let ds = (case s of c # cs \<Rightarrow> if c = CHR ''+'' then cs else s | [] \<Rightarrow> [])
      in if ds = [] then None
         else (case digits_value 0 ds of
                 None \<Rightarrow> None
               | Some n \<Rightarrow> if n < 2 ^ 64 then Some (of_nat n) else None))"

fun show_nat :: "nat \<Rightarrow> string" where
  "show_nat n = (if n < 10 then [char_of (48 + n)] else show_nat (n div 10) @ [char_of (48 + n mod 10)])"

definition as_millis :: "duration \<Rightarrow> nat" where
  "as_millis d = d div 1000000"

section \<open>The console\<close>

definition PORT :: "16 word" where
  "PORT = 50001"

definition v4_address :: socket_addr where
  "v4_address = \<lparr>sa_ip = V4 0x7F000001, sa_port = PORT\<rparr>"

definition v6_address :: socket_addr where
  "v6_address = \<lparr>sa_ip = V6 1, sa_port = PORT\<rparr>"

record 'f health_impl =
  hi_address :: socket_addr
  hi_reliability :: 'f
  hi_avg_wait :: duration

record 'f console_env =
  parse_f64 :: "string \<Rightarrow> 'f option"
  display_f64 :: "'f \<Rightarrow> string"
  initial_reliability :: 'f
  display_addr :: "socket_addr \<Rightarrow> string"
  map_keys :: "(socket_addr \<rightharpoonup> nat) \<Rightarrow> socket_addr list"
  is_finished :: "nat \<Rightarrow> nat \<Rightarrow> bool"

text \<open>
  \<open>spawned\<close> are the settings of all servers started so far; \<open>server_tasks\<close>, the program's
  \<open>tasks\<close>, has the number of the task and its sender; \<open>signalled\<close> are the tasks that have
  been told to stop.  \<open>is_finished env n i\<close> is the answer of task \<open>i\<close> when \<open>n\<close> lines have
  been printed.
\<close>

record 'f console =
  server_tasks :: "socket_addr \<rightharpoonup> nat"
  reliability :: 'f
  avg_wait :: duration
  spawned :: "'f health_impl list"
  signalled :: "nat set"
  printed :: "string list"
  sleeps :: "duration list"

definition println :: "string \<Rightarrow> 'f console \<Rightarrow> 'f console" where
  "println line s = s\<lparr>printed := printed s @ [line]\<rparr>"

definition start_server :: "'f console_env \<Rightarrow> socket_addr \<Rightarrow> 'f console \<Rightarrow> 'f console" where
  "start_server env address s =
     println (''Started server on '' @ display_addr env address)
       (s\<lparr>spawned := spawned s @
            [\<lparr>hi_address = address, hi_reliability = reliability s, hi_avg_wait = avg_wait s\<rparr>],
          server_tasks := (server_tasks s)(address \<mapsto> length (spawned s)),
          signalled := (case server_tasks s address of None \<Rightarrow> signalled s | Some old \<Rightarrow> insert old (signalled s))\<rparr>)"

definition try_start_server :: "'f console_env \<Rightarrow> socket_addr \<Rightarrow> 'f console \<Rightarrow> 'f console" where
  "try_start_server env address s =
     (if server_tasks s address \<noteq> None
      then println (''Server on '' @ display_addr env address @ '' already started'') s
      else start_server env address s)"

definition stop_server :: "'f console_env \<Rightarrow> socket_addr \<Rightarrow> 'f console \<Rightarrow> 'f console" where
  "stop_server env address s =
     (case server_tasks s address of
        None \<Rightarrow> s
      | Some task \<Rightarrow>
          (let s = s\<lparr>server_tasks := (server_tasks s)(address := None), signalled := insert task (signalled s)\<rparr>;
               s = println (''Server on '' @ display_addr env address @ '' scheduled to stop'') s
           in s\<lparr>sleeps := sleeps s @ [duration_from_millis 250]\<rparr>))"

definition restart_servers :: "'f console_env \<Rightarrow> 'f console \<Rightarrow> 'f console" where
  "restart_servers env s =
     fold (\<lambda>address s. start_server env address (stop_server env address s))
       (map_keys env (server_tasks s)) s"

definition list_servers :: "'f console_env \<Rightarrow> 'f console \<Rightarrow> 'f console" where
  "list_servers env s =
     (let s = println (''Reliability: '' @ display_f64 env (reliability s)) s;
          s = println (''Average wait: '' @ show_nat (as_millis (avg_wait s)) @ '' ms'') s;
          s = fold (\<lambda>address s.
                println (''Server on socket '' @ display_addr env address @ '' is running: '' @
                  (if is_finished env (length (printed s)) (the (server_tasks s address)) then ''false'' else ''true'')) s)
                (map_keys env (server_tasks s)) s
      in if server_tasks s = Map.empty then println ''No servers running'' s else s)"

definition help_lines :: "string list" where
  "help_lines =
     [''Available commands:'',
      ''  start v4               Start server on IPv4 localhost'',
      ''  start v6               Start server on IPv6 localhost'',
      ''  stop v4                Stop server on IPv4 localhost'',
      ''  stop v6                Stop server on IPv6 localhost'',
      ''  reliability <value>    Set server reliability (0.0-1.0)'',
      ''  avg_wait <value>       Set average wait time in milliseconds'',
      ''  list                   List running servers'',
      ''  help                   Display this help message'',
      ''  exit                   Exit the program'']"

text \<open>What follows a command: the next one, the end, or the loop that never ends.\<close>

datatype flow = Next | Break | LoopsForever

definition set_reliability :: "'f console_env \<Rightarrow> string \<Rightarrow> 'f console \<Rightarrow> 'f console" where
  "set_reliability env arg s =
     (case parse_f64 env arg of
        Some v \<Rightarrow>
          restart_servers env
            (println (''Reliability set to '' @ display_f64 env v @ ''. Restarting servers (if there are any)...'')
              (s\<lparr>reliability := v\<rparr>))
      | None \<Rightarrow> println ''Invalid reliability value'' s)"

definition set_avg_wait :: "'f console_env \<Rightarrow> string \<Rightarrow> 'f console \<Rightarrow> 'f console" where
  "set_avg_wait env arg s =
     (case parse_u64 arg of
        Some v \<Rightarrow>
          restart_servers env
            (println (''Average wait set to '' @ show_nat (as_millis (duration_from_millis v)) @
                ''. Restarting servers (if there are any)...'')
              (s\<lparr>avg_wait := duration_from_millis v\<rparr>))
      | None \<Rightarrow> println ''Invalid average wait value'' s)"

definition exec_command :: "'f console_env \<Rightarrow> string \<Rightarrow> 'f console \<Rightarrow> ('f console \<times> flow) may_panic" where
  "exec_command env cmd s =
     (if cmd = ''exit'' then Inr (s, Break)
      else if cmd = ''start v4'' then Inr (try_start_server env v4_address s, Next)
      else if cmd = ''start v6'' then Inr (try_start_server env v6_address s, Next)
      else if cmd = ''stop v4'' then Inr (stop_server env v4_address s, Next)
      else if cmd = ''stop v6'' then Inr (stop_server env v6_address s, Next)
      else if cmd = ''list'' then Inr (list_servers env s, Next)
      else if cmd = ''loop'' then Inr (println ''Looping...'' s, LoopsForever)
      else if cmd = ''help'' then Inr (fold println help_lines s, Next)
      else if starts_with cmd ''reliability '' then
        bind_res (expect ''called `Option::unwrap()` on a `None` value'' (split_once CHR '' '' cmd))
          (\<lambda>(_, arg). Inr (set_reliability env arg s, Next))
      else if starts_with cmd ''avg_wait '' then
        bind_res (expect ''called `Option::unwrap()` on a `None` value'' (split_once CHR '' '' cmd))
          (\<lambda>(_, arg). Inr (set_avg_wait env arg s, Next))
      else Inr (println (''Unknown command: '' @ cmd) s, Next))"

text \<open>
  The loop over the lines of the input; an empty one is the end of the input (a line has
  at least its newline), which an error of the reading counts as.
\<close>

fun console_loop :: "'f console_env \<Rightarrow> string list \<Rightarrow> 'f console \<Rightarrow> ('f console \<times> flow) may_panic" where
  "console_loop env [] s = Inr (s, Next)"
| "console_loop env (line # lines) s =
     (if line = [] then Inr (s, Break)
      else bind_res (exec_command env (trim line) s) (\<lambda>(s, flow).
        if flow = Next then console_loop env lines s else Inr (s, flow)))"

definition console_start :: "'f console_env \<Rightarrow> 'f console" where
  "console_start env =
     \<lparr>server_tasks = Map.empty, reliability = initial_reliability env, avg_wait = duration_from_millis 500,
      spawned = [], signalled = {}, printed = [''Type 'help' for a list of available commands''], sleeps = []\<rparr>"

section \<open>The services\<close>

text \<open>
  \<open>random_range lo hi\<close> and \<open>random_bool p\<close> are \<open>rand\<close>'s; \<open>'status\<close> is tonic's \<open>Status\<close>.  The
  result of \<open>is_alive\<close> has the time it waited.
\<close>

record ('f, 'status) service_env =
  random_range :: "duration \<Rightarrow> duration \<Rightarrow> duration may_panic"
  random_bool :: "'f \<Rightarrow> bool may_panic"
  debug_addr :: "socket_addr \<Rightarrow> string"
  internal :: "string \<Rightarrow> 'status"

text \<open>Multiplying a \<open>Duration\<close> panics when the seconds exceed \<open>u64::MAX\<close>.\<close>

definition duration_mul :: "duration \<Rightarrow> nat \<Rightarrow> duration may_panic" where
  "duration_mul d n = expect ''overflow when multiplying duration by scalar''
     (if d * n < 2 ^ 64 * 1000000000 then Some (d * n) else None)"

definition is_alive ::
  "('f, 'status) service_env \<Rightarrow> 'f health_impl \<Rightarrow> ('md, 'ext, unit) request \<Rightarrow>
     (duration \<times> ('status + is_alive_response)) may_panic" where
  "is_alive env self request =
     bind_res (if hi_avg_wait self \<noteq> 0
               then bind_res (duration_mul (hi_avg_wait self) 2) (random_range env (hi_avg_wait self div 2))
               else Inr 0) (\<lambda>waited.
     bind_res (random_bool env (hi_reliability self)) (\<lambda>ok.
       Inr (waited,
         if ok then Inr \<lparr>alive_message = ''I'm alive! (from: '' @ debug_addr env (hi_address self) @ '')''\<rparr>
         else Inl (internal env ''Server internal error''))))"

definition echo_message :: "('md, 'ext, echo_request) request \<Rightarrow> 'status + echo_response" where
  "echo_message request = Inr \<lparr>response_message = request_message (message request)\<rparr>"

definition echo_stream :: "('md, 'ext, 's) request \<Rightarrow> ('status + 'r) may_panic" where
  "echo_stream request = Inl (Panicked ''not yet implemented: Implement Echo::echo_stream'')"

text \<open>The two implementations of the generated traits, and the services of a server.\<close>

definition health_impl_trait :: "('f, 'status) service_env \<Rightarrow> 'f health_impl \<Rightarrow> ('md, 'ext, 'status) health" where
  "health_impl_trait env self = \<lparr>trait_is_alive = (\<lambda>request. map_ok snd (is_alive env self request))\<rparr>"

definition echo_impl_trait :: "('md, 'ext, 's, 'r, 'status) echo" where
  "echo_impl_trait = \<lparr>trait_echo_message = (\<lambda>request. Inr (echo_message request)), trait_echo_stream = echo_stream\<rparr>"

definition server_services ::
  "('f, 'status) service_env \<Rightarrow> ('encs, 'enc) encodings_lib \<Rightarrow>
     ('encs, ('md, 'ext, unit) request \<Rightarrow> ('status + is_alive_response) may_panic, 'b) serve \<Rightarrow>
     ('encs, ('md, 'ext, echo_request) request \<Rightarrow> ('status + echo_response) may_panic, 'b) serve \<Rightarrow>
     ('encs, ('md, 'ext, 's) request \<Rightarrow> ('status + 'r) may_panic, 'b) serve \<Rightarrow> 'b \<Rightarrow>
     'f health_impl \<Rightarrow> (string \<times> ('b http_request \<Rightarrow> 'b http_response may_panic)) list" where
  "server_services env E alive_unary echo_unary echo_streaming no_body settings =
     [(HEALTH_SERVICE_NAME,
       health_server_call alive_unary no_body (health_server_new E (health_impl_trait env settings))),
      (ECHO_SERVICE_NAME,
       echo_server_call echo_unary echo_streaming no_body (echo_server_new E echo_impl_trait))]"

section \<open>Every running server has the current settings\<close>

text \<open>The keys of a hash map come in some order, each once.\<close>

definition lists_keys :: "'f console_env \<Rightarrow> bool" where
  "lists_keys env \<longleftrightarrow> (\<forall>m. finite (dom m) \<longrightarrow> distinct (map_keys env m) \<and> set (map_keys env m) = dom m)"

text \<open>
  The map knows exactly the servers that have not been told to stop, by their addresses;
  every server in the map whose address is not in \<open>old\<close> has the current settings.
\<close>

definition console_inv :: "socket_addr set \<Rightarrow> 'f console \<Rightarrow> bool" where
  "console_inv old s \<longleftrightarrow>
     (\<forall>a i. server_tasks s a = Some i \<longleftrightarrow> i < length (spawned s) \<and> i \<notin> signalled s \<and> hi_address (spawned s ! i) = a) \<and>
     (\<forall>a i. server_tasks s a = Some i \<longrightarrow> a \<notin> old \<longrightarrow>
        spawned s ! i = \<lparr>hi_address = a, hi_reliability = reliability s, hi_avg_wait = avg_wait s\<rparr>) \<and>
     dom (server_tasks s) \<subseteq> {v4_address, v6_address} \<and> (\<forall>i \<in> signalled s. i < length (spawned s)) \<and>
     avg_wait s < 2 ^ 64 * 1000000"

lemma console_invD:
  assumes "console_inv old s"
  shows "server_tasks s a = Some i \<longleftrightarrow> i < length (spawned s) \<and> i \<notin> signalled s \<and> hi_address (spawned s ! i) = a"
    and "server_tasks s a = Some i \<Longrightarrow> a \<notin> old \<Longrightarrow>
        spawned s ! i = \<lparr>hi_address = a, hi_reliability = reliability s, hi_avg_wait = avg_wait s\<rparr>"
    and "dom (server_tasks s) \<subseteq> {v4_address, v6_address}" "i \<in> signalled s \<Longrightarrow> i < length (spawned s)"
    and "avg_wait s < 2 ^ 64 * 1000000"
  using assms unfolding console_inv_def by blast+

lemma console_invI:
  assumes "\<And>a i. server_tasks s a = Some i \<longleftrightarrow> i < length (spawned s) \<and> i \<notin> signalled s \<and> hi_address (spawned s ! i) = a"
    and "\<And>a i. server_tasks s a = Some i \<Longrightarrow> a \<notin> old \<Longrightarrow>
        spawned s ! i = \<lparr>hi_address = a, hi_reliability = reliability s, hi_avg_wait = avg_wait s\<rparr>"
    and "dom (server_tasks s) \<subseteq> {v4_address, v6_address}" "\<And>i. i \<in> signalled s \<Longrightarrow> i < length (spawned s)"
    and "avg_wait s < 2 ^ 64 * 1000000"
  shows "console_inv old s"
  using assms unfolding console_inv_def by blast

lemma println_simps [simp]:
  "server_tasks (println l s) = server_tasks s" "reliability (println l s) = reliability s"
  "avg_wait (println l s) = avg_wait s" "spawned (println l s) = spawned s" "signalled (println l s) = signalled s"
  by (simp_all add: println_def)

lemma console_inv_println [simp]: "console_inv old (println l s) = console_inv old s"
  by (simp add: console_inv_def)

lemma console_inv_sleeps [simp]: "console_inv old (s\<lparr>sleeps := ds\<rparr>) = console_inv old s"
  by (simp add: console_inv_def)

lemma console_inv_stop:
  assumes "console_inv old s"
  shows "console_inv (old - {a}) (stop_server env a s)" "server_tasks (stop_server env a s) = (server_tasks s)(a := None)"
    "reliability (stop_server env a s) = reliability s" "avg_wait (stop_server env a s) = avg_wait s"
proof -
  note inv = console_invD [OF assms]
  show "console_inv (old - {a}) (stop_server env a s)"
  proof (cases "server_tasks s a")
    case None
    have "console_inv (old - {a}) s"
    proof (rule console_invI)
      fix b i assume "server_tasks s b = Some i" "b \<notin> old - {a}"
      with None show "spawned s ! i = \<lparr>hi_address = b, hi_reliability = reliability s, hi_avg_wait = avg_wait s\<rparr>"
        using inv(2) [of b i] by fastforce
    qed (use inv in \<open>simp_all only:\<close>)
    with None show ?thesis by (simp add: stop_server_def)
  next
    case (Some i)
    have other: "server_tasks s b = Some i \<longleftrightarrow> b = a" for b using inv(1) Some by metis
    let ?s = "s\<lparr>server_tasks := (server_tasks s)(a := None), signalled := insert i (signalled s)\<rparr>"
    have "console_inv (old - {a}) ?s"
    proof (rule console_invI)
      fix b k
      show "server_tasks ?s b = Some k \<longleftrightarrow>
        k < length (spawned ?s) \<and> k \<notin> signalled ?s \<and> hi_address (spawned ?s ! k) = b"
        using inv(1) [of b k] inv(1) [of a k] other [of b] Some by auto
    qed (use inv Some in \<open>auto split: if_splits\<close>)
    with Some show ?thesis by (simp add: stop_server_def Let_def)
  qed
  show "server_tasks (stop_server env a s) = (server_tasks s)(a := None)"
    "reliability (stop_server env a s) = reliability s" "avg_wait (stop_server env a s) = avg_wait s"
    by (auto simp: stop_server_def Let_def fun_upd_idem split: option.split)
qed

lemma console_inv_start:
  assumes "console_inv old s" "a \<in> {v4_address, v6_address}" "server_tasks s a = None"
  shows "console_inv old (start_server env a s)" "dom (server_tasks (start_server env a s)) = insert a (dom (server_tasks s))"
proof -
  note inv = console_invD [OF assms(1)]
  have len: "i < length (spawned s)" if "server_tasks s b = Some i" for b i using inv(1) that by blast
  let ?new = "\<lparr>hi_address = a, hi_reliability = reliability s, hi_avg_wait = avg_wait s\<rparr>"
  let ?s = "s\<lparr>spawned := spawned s @ [?new], server_tasks := (server_tasks s)(a \<mapsto> length (spawned s))\<rparr>"
  have "console_inv old ?s"
  proof (rule console_invI)
    fix b i
    show "server_tasks ?s b = Some i \<longleftrightarrow> i < length (spawned ?s) \<and> i \<notin> signalled ?s \<and> hi_address (spawned ?s ! i) = b"
    proof (cases "i = length (spawned s)")
      case True
      then show ?thesis using inv(4) [of i] len [of b i] by auto
    next
      case False
      then show ?thesis using inv(1) [of b i] assms(3) by (auto simp: nth_append)
    qed
  next
    fix b i assume "server_tasks ?s b = Some i" "b \<notin> old"
    then show "spawned ?s ! i = \<lparr>hi_address = b, hi_reliability = reliability ?s, hi_avg_wait = avg_wait ?s\<rparr>"
      using inv(2) [of b i] len [of b i] by (auto simp: nth_append split: if_splits)
  next
    show "dom (server_tasks ?s) \<subseteq> {v4_address, v6_address}" using inv(3) assms(2) by simp
  next
    fix i assume "i \<in> signalled ?s"
    then show "i < length (spawned ?s)" using inv(4) [of i] by simp
  qed (use inv(5) in simp)
  then show "console_inv old (start_server env a s)" using assms(3) by (simp add: start_server_def)
  show "dom (server_tasks (start_server env a s)) = insert a (dom (server_tasks s))"
    by (simp add: start_server_def)
qed

text \<open>A restart gives every server the settings it is made with.\<close>

lemma console_inv_restart_one:
  assumes "console_inv old s" "a \<in> dom (server_tasks s)"
  shows "console_inv (old - {a}) (start_server env a (stop_server env a s))"
    "dom (server_tasks (start_server env a (stop_server env a s))) = dom (server_tasks s)"
proof -
  note stop = console_inv_stop [OF assms(1), where a = a and env = env]
  have a: "a \<in> {v4_address, v6_address}" using console_invD(3) [OF assms(1)] assms(2) by blast
  have "server_tasks (stop_server env a s) a = None" using stop(2) by simp
  note start = console_inv_start [OF stop(1) a this, where env = env]
  show "console_inv (old - {a}) (start_server env a (stop_server env a s))" by (rule start(1))
  show "dom (server_tasks (start_server env a (stop_server env a s))) = dom (server_tasks s)"
    using start(2) stop(2) assms(2) by auto
qed

lemma console_inv_restart:
  assumes "console_inv (dom (server_tasks s)) s" "lists_keys env"
  shows "console_inv {} (restart_servers env s)"
proof -
  have fold: "console_inv (old - set as)
      (fold (\<lambda>address s. start_server env address (stop_server env address s)) as s)"
    if "console_inv old s" "set as \<subseteq> dom (server_tasks s)" for as old s
    using that
  proof (induction as arbitrary: s old)
    case (Cons a as)
    note one = console_inv_restart_one [OF Cons.prems(1), where a = a and env = env]
    have "console_inv (old - {a} - set as) (fold (\<lambda>address s. start_server env address (stop_server env address s)) as
        (start_server env a (stop_server env a s)))"
      using Cons.prems(2) one by (intro Cons.IH) auto
    moreover have "old - {a} - set as = old - set (a # as)" by auto
    ultimately show ?case by (simp only: fold.simps comp_apply)
  qed simp
  have "finite (dom (server_tasks s))" using console_invD(3) [OF assms(1)] by (rule finite_subset) simp
  then have "set (map_keys env (server_tasks s)) = dom (server_tasks s)"
    using assms(2) by (simp add: lists_keys_def)
  with fold [OF assms(1), of "map_keys env (server_tasks s)"] show ?thesis by (simp add: restart_servers_def)
qed

lemma console_inv_set_reliability:
  assumes "console_inv {} s" "lists_keys env"
  shows "console_inv {} (set_reliability env arg s)"
proof -
  have "console_inv (dom (server_tasks s)) (s\<lparr>reliability := v\<rparr>)" for v
    using console_invD [OF assms(1)] by (intro console_invI) auto
  then show ?thesis
    using console_inv_restart [of "println l (s\<lparr>reliability := v\<rparr>)" env for l v] assms
    by (auto simp: set_reliability_def split: option.split)
qed

lemma console_inv_set_avg_wait:
  assumes "console_inv {} s" "lists_keys env"
  shows "console_inv {} (set_avg_wait env arg s)"
proof -
  have "duration_from_millis v < 2 ^ 64 * 1000000" for v
    using unsigned_less [of v, where 'a = nat] by (simp add: duration_from_millis_def)
  then have "console_inv (dom (server_tasks s)) (s\<lparr>avg_wait := duration_from_millis v\<rparr>)" for v
    using console_invD [OF assms(1)] by (intro console_invI) auto
  then show ?thesis
    using console_inv_restart [of "println l (s\<lparr>avg_wait := duration_from_millis v\<rparr>)" env for l v] assms
    by (auto simp: set_avg_wait_def split: option.split)
qed

lemma fold_println_inv [simp]: "console_inv old (fold (\<lambda>x s. println (f x s) s) xs s) = console_inv old s"
  by (induction xs arbitrary: s) simp_all

lemma list_servers_inv [simp]: "console_inv old (list_servers env s) = console_inv old s"
  by (simp add: list_servers_def Let_def)

lemma help_inv [simp]: "console_inv old (fold println help_lines s) = console_inv old s"
  using fold_println_inv [of old "\<lambda>x s. x"] by simp

lemma split_once_some: "c \<in> set s \<Longrightarrow> \<exists>p. split_once c s = Some p"
  by (induction s) auto

lemma starts_with_in: "starts_with s p \<Longrightarrow> c \<in> set p \<Longrightarrow> c \<in> set s"
  unfolding starts_with_def by (metis in_set_takeD)

text \<open>No command panics, and every command keeps the invariant.\<close>

lemma exec_command_inv:
  assumes "console_inv {} s" "lists_keys env"
  shows "\<exists>s' flow. exec_command env cmd s = Inr (s', flow) \<and> console_inv {} s'"
proof -
  have start: "console_inv {} (try_start_server env a s)" if "a \<in> {v4_address, v6_address}" for a
    using console_inv_start(1) [OF assms(1) that] assms(1) by (auto simp: try_start_server_def)
  have stop: "console_inv {} (stop_server env a s)" for a
    using console_inv_stop(1) [OF assms(1)] by simp
  have split: "\<exists>p. split_once CHR '' '' cmd = Some p"
    if "starts_with cmd ''reliability '' \<or> starts_with cmd ''avg_wait ''"
    using that by (intro split_once_some) (auto dest: starts_with_in [where c = "CHR '' ''"])
  show ?thesis
    using assms start stop split console_inv_set_reliability [OF assms] console_inv_set_avg_wait [OF assms]
    by (auto simp: exec_command_def)
qed

lemma console_start_inv: "console_inv {} (console_start env)"
  by (simp add: console_inv_def console_start_def duration_from_millis_def)

lemma console_loop_inv:
  assumes "lists_keys env"
  shows "console_inv {} s \<Longrightarrow> \<exists>s' flow. console_loop env lines s = Inr (s', flow) \<and> console_inv {} s'"
proof (induction lines arbitrary: s)
  case (Cons line lines)
  obtain s' flow where "exec_command env (trim line) s = Inr (s', flow)" "console_inv {} s'"
    using exec_command_inv [OF Cons.prems assms] by blast
  with Cons show ?case by auto
qed simp

section \<open>Properties\<close>

text \<open>
  C36: after any input the console has not panicked, its map knows exactly the servers that
  have not been told to stop (at most one per address, on the two localhost addresses), and
  each of them runs with the reliability and the average wait that are set.
\<close>

theorem servers_have_current_settings:
  assumes "lists_keys env"
  shows "\<exists>s flow. console_loop env lines (console_start env) = Inr (s, flow) \<and>
    (\<forall>a i. server_tasks s a = Some i \<longleftrightarrow>
      i < length (spawned s) \<and> i \<notin> signalled s \<and> hi_address (spawned s ! i) = a) \<and>
    dom (server_tasks s) \<subseteq> {v4_address, v6_address} \<and>
    (\<forall>a i. server_tasks s a = Some i \<longrightarrow>
      spawned s ! i = \<lparr>hi_address = a, hi_reliability = reliability s, hi_avg_wait = avg_wait s\<rparr>)"
proof -
  obtain s flow where s: "console_loop env lines (console_start env) = Inr (s, flow)" "console_inv {} s"
    using console_loop_inv [OF assms console_start_inv] by blast
  with console_invD [OF s(2)] show ?thesis by blast
qed

text \<open>
  What \<open>rand\<close> documents: a number from a range that is not empty, and a panic for a
  probability that is none.
\<close>

definition rand_laws :: "('f \<Rightarrow> bool) \<Rightarrow> ('f, 'status) service_env \<Rightarrow> bool" where
  "rand_laws probability rnd \<longleftrightarrow>
     (\<forall>lo hi. lo < hi \<longrightarrow> (\<exists>d. random_range rnd lo hi = Inr d \<and> lo \<le> d \<and> d < hi)) \<and>
     (\<forall>p. probability p \<longrightarrow> (\<exists>b. random_bool rnd p = Inr b)) \<and>
     (\<forall>p. \<not> probability p \<longrightarrow> (\<exists>e. random_bool rnd p = Inl e))"

lemma is_alive_panics_iff:
  assumes "rand_laws probability rnd" "hi_avg_wait h < 2 ^ 64 * 1000000"
  shows "(\<exists>e. is_alive rnd h request = Inl e) \<longleftrightarrow> \<not> probability (hi_reliability h)"
proof -
  have "\<exists>d. (if hi_avg_wait h \<noteq> 0 then bind_res (duration_mul (hi_avg_wait h) 2) (random_range rnd (hi_avg_wait h div 2))
               else Inr 0) = Inr d"
  proof (cases "hi_avg_wait h = 0")
    case False
    then have "hi_avg_wait h div 2 < hi_avg_wait h * 2" by linarith
    moreover have "duration_mul (hi_avg_wait h) 2 = Inr (hi_avg_wait h * 2)"
      using assms(2) by (simp add: duration_mul_def)
    ultimately show ?thesis using assms(1) False unfolding rand_laws_def by fastforce
  qed simp
  then show ?thesis
    using assms(1) unfolding rand_laws_def is_alive_def
    by (cases "probability (hi_reliability h)") (auto simp: bind_res_eq_Inl)
qed

lemma restart_settings:
  "reliability (restart_servers env s) = reliability s"
proof -
  have "reliability (fold (\<lambda>address s. start_server env address (stop_server env address s)) as s) = reliability s" for as
    by (induction as arbitrary: s) (simp_all add: start_server_def stop_server_def Let_def split: option.split)
  then show ?thesis by (simp add: restart_servers_def)
qed

lemma restart_keeps_addresses:
  assumes "lists_keys env" "finite (dom (server_tasks s))"
  shows "dom (server_tasks (restart_servers env s)) = dom (server_tasks s)"
proof -
  have one: "dom (server_tasks (start_server env a (stop_server env a s))) = insert a (dom (server_tasks s))" for a s
    by (auto simp: start_server_def stop_server_def Let_def split: option.split)
  have "dom (server_tasks (fold (\<lambda>address s. start_server env address (stop_server env address s)) as s)) =
      set as \<union> dom (server_tasks s)" for as
    by (induction as arbitrary: s) (auto simp: one)
  then show ?thesis using assms by (simp add: restart_servers_def lists_keys_def)
qed

lemma console_loop_append:
  "console_loop env (xs @ ys) s = bind_res (console_loop env xs s) (\<lambda>(s, flow).
     if flow = Next then console_loop env ys s else Inr (s, flow))"
proof (induction xs arbitrary: s)
  case (Cons line xs)
  then show ?case by (cases "exec_command env (trim line) s") auto
qed simp

text \<open>
  C37: the console takes every number for the reliability, but a server whose reliability is
  not a probability panics in every call of \<open>is_alive\<close>: after \<open>reliability <value>\<close> with a
  value that parses, all running servers (the same addresses as before) do so if the value
  is not between zero and one, and none does if it is, whatever the average wait is.
\<close>

theorem reliability_is_not_checked:
  assumes "lists_keys env" "rand_laws probability rnd"
    and "console_loop env lines (console_start env) = Inr (s, Next)"
    and "trim (''reliability '' @ arg @ [CHR 0x0A]) = ''reliability '' @ arg" "parse_f64 env arg = Some v"
  shows "\<exists>s'. console_loop env (lines @ [''reliability '' @ arg @ [CHR 0x0A]]) (console_start env) = Inr (s', Next) \<and>
    dom (server_tasks s') = dom (server_tasks s) \<and>
    (\<forall>a i. server_tasks s' a = Some i \<longrightarrow>
      ((\<exists>e. is_alive rnd (spawned s' ! i) request = Inl e) \<longleftrightarrow> \<not> probability v))"
proof -
  have s: "console_inv {} s"
    using console_loop_inv [OF assms(1) console_start_inv [of env], of lines] assms(3) by auto
  let ?s' = "set_reliability env arg s"
  have "exec_command env (''reliability '' @ arg) s = Inr (?s', Next)"
    by (simp add: exec_command_def starts_with_def)
  with assms(3,4) have loop: "console_loop env (lines @ [''reliability '' @ arg @ [CHR 0x0A]]) (console_start env) =
      Inr (?s', Next)"
    by (simp add: console_loop_append)
  have fin: "finite (dom (server_tasks s))" using console_invD(3) [OF s] by (rule finite_subset) simp
  have inv: "console_inv {} ?s'" by (rule console_inv_set_reliability [OF s assms(1)])
  have v: "reliability ?s' = v" "dom (server_tasks ?s') = dom (server_tasks s)"
    using assms(5) restart_keeps_addresses [OF assms(1)] fin by (simp_all add: set_reliability_def restart_settings)
  have "(\<exists>e. is_alive rnd (spawned ?s' ! i) request = Inl e) \<longleftrightarrow> \<not> probability v" if "server_tasks ?s' a = Some i" for a i
    using is_alive_panics_iff [OF assms(2), of "spawned ?s' ! i"] console_invD(2) [OF inv that] console_invD(5) [OF inv] v(1)
    by simp
  with loop v(2) show ?thesis by blast
qed

text \<open>Concrete parameters: numbers are percentages, and the addresses are listed in order.\<close>

definition sample_console :: "int console_env" where
  "sample_console =
     \<lparr>parse_f64 = (\<lambda>s. if s = ''0.5'' then Some 50 else if s = ''2'' then Some 200 else None),
      display_f64 = (\<lambda>f. show_nat (nat f) @ ''%''), initial_reliability = 90,
      display_addr = (\<lambda>a. if a = v4_address then ''127.0.0.1:50001'' else ''[::1]:50001''),
      map_keys = (\<lambda>m. map (\<lambda>(ip, port). \<lparr>sa_ip = ip, sa_port = port\<rparr>)
        (sorted_list_of_set ((\<lambda>a. (sa_ip a, sa_port a)) ` dom m))),
      is_finished = (\<lambda>_ _. False)\<rparr>"

definition sample_request :: "(unit, unit, unit) request" where
  "sample_request = \<lparr>metadata = (), grpc_method = None, extensions = (), message = ()\<rparr>"

definition sample_rand :: "(int, string) service_env" where
  "sample_rand =
     \<lparr>random_range = (\<lambda>lo hi. if lo < hi then Inr lo else Inl (Panicked ''cannot sample empty range'')),
      random_bool = (\<lambda>p. if 0 \<le> p \<and> p \<le> 100 then Inr (50 \<le> p) else Inl (Panicked ''p is outside range'')),
      debug_addr = display_addr sample_console, internal = id\<rparr>"

lemma sample_console_keys: "lists_keys sample_console"
proof -
  have [simp]: "\<lparr>sa_ip = sa_ip a, sa_port = sa_port a\<rparr> = a" for a :: socket_addr by (cases a) simp
  show ?thesis
    unfolding lists_keys_def sample_console_def by (auto simp: distinct_map inj_on_def image_image)
qed

lemma sample_rand_laws: "rand_laws (\<lambda>p. 0 \<le> p \<and> p \<le> 100) sample_rand"
  by (auto simp: rand_laws_def sample_rand_def)

theorem servers_have_current_settings_witness:
  "\<exists>s flow. console_loop sample_console [''start v4 '', ''start v6'', ''avg_wait 20''] (console_start sample_console) =
      Inr (s, flow) \<and>
    dom (server_tasks s) \<subseteq> {v4_address, v6_address}"
  using servers_have_current_settings [OF sample_console_keys, of "[''start v4 '', ''start v6'', ''avg_wait 20'']"]
  by blast

lemma sample_started:
  "\<exists>s. console_loop sample_console [''start v4''] (console_start sample_console) = Inr (s, Next) \<and>
     server_tasks s v4_address = Some 0"
  by (simp add: exec_command_def try_start_server_def start_server_def console_start_def trim_def is_whitespace_def)

theorem reliability_is_not_checked_witness:
  "\<exists>s' e. console_loop sample_console [''start v4'', ''reliability 2'' @ [CHR 0x0A]] (console_start sample_console) =
      Inr (s', Next) \<and>
    (\<exists>i. server_tasks s' v4_address = Some i \<and> is_alive sample_rand (spawned s' ! i) sample_request = Inl e)"
proof -
  obtain s where s: "console_loop sample_console [''start v4''] (console_start sample_console) = Inr (s, Next)"
      "server_tasks s v4_address = Some 0"
    using sample_started by blast
  have "trim (''reliability '' @ ''2'' @ [CHR 0x0A]) = ''reliability '' @ ''2''" by code_simp
  moreover have "parse_f64 sample_console ''2'' = Some 200" by (simp add: sample_console_def)
  ultimately have "\<exists>s'. console_loop sample_console ([''start v4''] @ [''reliability '' @ ''2'' @ [CHR 0x0A]])
        (console_start sample_console) = Inr (s', Next) \<and> dom (server_tasks s') = dom (server_tasks s) \<and>
      (\<forall>a i. server_tasks s' a = Some i \<longrightarrow>
        ((\<exists>e. is_alive sample_rand (spawned s' ! i) sample_request = Inl e) \<longleftrightarrow> \<not> (0 \<le> (200 :: int) \<and> (200 :: int) \<le> 100)))"
    by (rule reliability_is_not_checked [OF sample_console_keys sample_rand_laws s(1)])
  then obtain s' where s': "console_loop sample_console ([''start v4''] @ [''reliability '' @ ''2'' @ [CHR 0x0A]])
        (console_start sample_console) = Inr (s', Next)"
      "dom (server_tasks s') = dom (server_tasks s)"
      "\<And>a i. server_tasks s' a = Some i \<Longrightarrow> \<exists>e. is_alive sample_rand (spawned s' ! i) sample_request = Inl e"
    by auto
  obtain i where "server_tasks s' v4_address = Some i" using s(2) s'(2) by blast
  with s'(1) s'(3) [OF this] show ?thesis by auto
qed

end
