(* ===== verification/Pooled_Client.thy ===== *)
theory Pooled_Client
  imports Client
begin

text \<open>
  The structures around the generated methods: the one that \<open>soda-pool-build\<close> generates,
  which keeps a pool behind an \<open>Arc\<close> that its clones share, and the one of the macro
  \<open>define_client!\<close>, which keeps the pool itself.  Either way the background tasks of the pool
  run exactly as long as a client lives.
\<close>

section \<open>The generated structure\<close>

text \<open>
  \<open>strong\<close> is the count of the \<open>Arc\<close> around the pool; the last client that is dropped
  drops the pool.
\<close>

record 'et client_pool =
  strong :: nat
  inner_pool :: "'et managed_channel_pool"

definition client_pool_new_from_endpoint :: "'et \<Rightarrow> runtime \<Rightarrow> 'et client_pool \<times> runtime" where
  "client_pool_new_from_endpoint endpoint rt =
     (let (pool, rt) = pool_build (builder_new endpoint) rt in (\<lparr>strong = 1, inner_pool = pool\<rparr>, rt))"

definition client_pool_clone :: "'et client_pool \<Rightarrow> 'et client_pool" where
  "client_pool_clone self = self\<lparr>strong := Suc (strong self)\<rparr>"

definition client_pool_drop :: "'et client_pool \<Rightarrow> runtime \<Rightarrow> 'et client_pool \<times> runtime" where
  "client_pool_drop self rt =
     (self\<lparr>strong := strong self - 1\<rparr>, if strong self = 1 then pool_drop (inner_pool self) rt else rt)"

fun client_pool_ops :: "handle_op list \<Rightarrow> 'et client_pool \<times> runtime \<Rightarrow> 'et client_pool \<times> runtime" where
  "client_pool_ops [] s = s"
| "client_pool_ops (oper # rest) (self, rt) =
     (if strong self = 0 then (self, rt)
      else client_pool_ops rest
        (case oper of CloneHandle \<Rightarrow> (client_pool_clone self, rt) | DropHandle \<Rightarrow> client_pool_drop self rt))"

text \<open>The clients act on the pool like one handle that is dropped when the count reaches zero.\<close>

lemma client_pool_ops_pool:
  "0 < strong self \<Longrightarrow> client_pool_ops ops (self, rt) = (self', rt') \<Longrightarrow>
    inner_pool self' = inner_pool self \<and>
    rt' = (if strong self' = 0 then pool_drop (inner_pool self) rt else rt)"
proof (induction ops arbitrary: self)
  case (Cons oper ops)
  show ?case
  proof (cases oper)
    case CloneHandle
    with Cons.prems have "client_pool_ops ops (client_pool_clone self, rt) = (self', rt')" by simp
    from Cons.IH [OF _ this] show ?thesis by (simp add: client_pool_clone_def)
  next
    case DropHandle
    show ?thesis
    proof (cases "strong self = 1")
      case True
      then have "client_pool_ops ops (client_pool_drop self rt) = client_pool_drop self rt"
        by (cases ops) (simp_all add: client_pool_drop_def)
      with True DropHandle Cons.prems show ?thesis by (auto simp: client_pool_drop_def)
    next
      case False
      with DropHandle Cons.prems have "client_pool_ops ops (self\<lparr>strong := strong self - 1\<rparr>, rt) = (self', rt')"
        by (simp add: client_pool_drop_def)
      from Cons.IH [OF _ this] False Cons.prems(1) show ?thesis by simp
    qed
  qed
qed auto

lemma tasks_live_with_generated_clients:
  assumes "\<And>t. t \<in> tasks rt \<Longrightarrow> t < fresh rt"
    and "client_pool_new_from_endpoint endpoint rt = (self, rt1)" "client_pool_ops ops (self, rt1) = (self', rt2)"
  shows "tasks rt2 = tasks rt \<union> (if strong self' = 0 then {} else {fresh rt, fresh rt + 1})"
proof -
  have b: "pool_build (builder_new endpoint) rt = (inner_pool self, rt1)" "strong self = 1"
    using assms(2) by (auto simp: client_pool_new_from_endpoint_def split: prod.splits)
  have rt2: "rt2 = (if strong self' = 0 then pool_drop (inner_pool self) rt1 else rt1)"
    using client_pool_ops_pool [OF _ assms(3)] b(2) by simp
  have "handle_ops (inner_pool self) [DropHandle] (1, rt1) = (0, pool_drop (inner_pool self) rt1)"
    "handle_ops (inner_pool self) [] (1, rt1) = (1, rt1)" by simp_all
  from tasks_of_handles [OF assms(1) b(1) this(1)] tasks_of_handles [OF assms(1) b(1) this(2)] rt2
  show ?thesis by simp
qed

section \<open>The structure of the macro\<close>

record 'et macro_client =
  macro_pool :: "'et managed_channel_pool"

definition macro_client_new :: "'et \<Rightarrow> runtime \<Rightarrow> 'et macro_client \<times> runtime" where
  "macro_client_new endpoint rt =
     (let (pool, rt) = pool_build (builder_new endpoint) rt in (\<lparr>macro_pool = pool\<rparr>, rt))"

definition macro_client_from :: "'et managed_channel_pool \<Rightarrow> 'et macro_client" where
  "macro_client_from pool = \<lparr>macro_pool = pool\<rparr>"

text \<open>Clones and drops of such clients are clones and drops of handles of the pool.\<close>

definition macro_client_clone :: "'et macro_client \<Rightarrow> runtime \<Rightarrow> 'et macro_client \<times> runtime" where
  "macro_client_clone self rt = (case pool_clone (macro_pool self) rt of (pool, rt) \<Rightarrow> (\<lparr>macro_pool = pool\<rparr>, rt))"

lemma tasks_live_with_macro_clients:
  assumes "\<And>t. t \<in> tasks rt \<Longrightarrow> t < fresh rt"
    and "macro_client_new endpoint rt = (self, rt1)" "handle_ops (macro_pool self) ops (1, rt1) = (live, rt2)"
  shows "tasks rt2 = tasks rt \<union> (if live = 0 then {} else {fresh rt, fresh rt + 1})"
proof -
  have "pool_build (builder_new endpoint) rt = (macro_pool self, rt1)"
    using assms(2) by (auto simp: macro_client_new_def split: prod.splits)
  from tasks_of_handles [OF assms(1) this assms(3)] show ?thesis .
qed

end
