(* ===== verification/Example_System.thy ===== *)
theory Example_System
  imports Example_Server Pooled_Client
begin

text \<open>
  The example as a whole: the clients of \<open>health.rs\<close> on connections to the servers of
  \<open>example/server\<close>, the pooled client on top of them, and the program \<open>example/client\<close>.
\<close>

section \<open>Tonic between a client and a server\<close>

text \<open>
  What tonic documents of a unary call, with the transport of a client as a function from
  HTTP requests to responses: the request goes out under the path of the method; the server
  side hands the same message to the method and answers with what the method returns, and
  the client returns just that, for requests and results that keep within the size limits
  of a client and a server on which none are set (\<open>fits_in\<close> and \<open>fits_out\<close>).
\<close>

definition carries_unary ::
  "('a \<Rightarrow> bool) \<Rightarrow> ('status + 'c \<Rightarrow> bool) \<Rightarrow>
     ('g \<Rightarrow> 'b http_request \<Rightarrow> 'b http_response may_panic) \<Rightarrow>
     (('md, 'ext, 'a) request \<Rightarrow> string \<Rightarrow> 'b http_request) \<Rightarrow>
     (('md, 'ext, 'a) request \<Rightarrow> ('md, 'ext, 'a) request) \<Rightarrow>
     ('status + 'c \<Rightarrow> 'b http_response) \<Rightarrow> ('b http_response \<Rightarrow> 'status + 'c) \<Rightarrow>
     ('g \<Rightarrow> ('md, 'ext, 'a) request \<Rightarrow> string \<Rightarrow> ('status + 'c) \<times> 'g) \<Rightarrow>
     ('encs, ('md, 'ext, 'a) request \<Rightarrow> ('status + 'c) may_panic, 'b) serve \<Rightarrow> bool" where
  "carries_unary fits_in fits_out transport pack deliver reply read unary serve \<longleftrightarrow>
     (\<forall>req path. uri_path (pack req path) = path) \<and>
     (\<forall>req. message (deliver req) = message req) \<and>
     (\<forall>r. fits_out r \<longrightarrow> read (reply r) = r) \<and>
     (\<forall>g req path resp. transport g (pack req path) = Inr resp \<longrightarrow> fst (unary g req path) = read resp) \<and>
     (\<forall>as bs m req path. fits_in (message req) \<longrightarrow> serve as bs None None m (pack req path) = map_ok reply (m (deliver req)))"

lemma carries_unary_call:
  assumes "carries_unary fits_in fits_out transport pack deliver reply read unary serve"
    and "\<And>http. uri_path http = path \<Longrightarrow> transport g http = serve as bs None None m http"
    and "m (deliver req) = Inr r" "fits_in (message req)" "fits_out r"
  shows "fst (unary g req path) = r"
proof -
  have "transport g (pack req path) = Inr (reply r)"
    using assms by (simp add: carries_unary_def)
  with assms(1,5) show ?thesis by (simp add: carries_unary_def)
qed

text \<open>Tonic's router finds a service by the first segment of the path, which is its name.\<close>

definition routes_by_name ::
  "((string \<times> ('b http_request \<Rightarrow> 'b http_response may_panic)) list \<Rightarrow>
     'b http_request \<Rightarrow> 'b http_response may_panic) \<Rightarrow> bool" where
  "routes_by_name route \<longleftrightarrow>
     (\<forall>services name service req rpc_name. distinct (map fst services) \<longrightarrow>
        list_all (\<lambda>n. CHR ''/'' \<notin> set n) (map fst services) \<longrightarrow> (name, service) \<in> set services \<longrightarrow>
        uri_path req = ''/'' @ name @ ''/'' @ rpc_name \<longrightarrow> route services req = service req)"

text \<open>A connection that is ready and leads to a server with the given settings.\<close>

definition connected_to ::
  "('g, 't, 'uri, 'enc, 'status) grpc_client_lib \<Rightarrow> ('g \<Rightarrow> 'b http_request \<Rightarrow> 'b http_response may_panic) \<Rightarrow>
     ((string \<times> ('b http_request \<Rightarrow> 'b http_response may_panic)) list \<Rightarrow> 'b http_request \<Rightarrow> 'b http_response may_panic) \<Rightarrow>
     (string \<times> ('b http_request \<Rightarrow> 'b http_response may_panic)) list \<Rightarrow> 'g \<Rightarrow> bool" where
  "connected_to L transport route services g \<longleftrightarrow>
     fst (grpc_ready L g) = Inr () \<and> transport (snd (grpc_ready L g)) = route services"

lemma when_ready_connected:
  "connected_to L transport route services g \<Longrightarrow> when_ready L g f = f (snd (grpc_ready L g))"
  by (cases "grpc_ready L g") (simp add: connected_to_def when_ready_def)

lemma server_routes:
  assumes "routes_by_name route"
  shows "uri_path req = ''/health.Health/'' @ m \<Longrightarrow>
      route (server_services env E alive_unary echo_unary echo_streaming no_body settings) req =
      health_server_call alive_unary no_body (health_server_new E (health_impl_trait env settings)) req"
    "uri_path req = ''/health.Echo/'' @ m \<Longrightarrow>
      route (server_services env E alive_unary echo_unary echo_streaming no_body settings) req =
      echo_server_call echo_unary echo_streaming no_body (echo_server_new E echo_impl_trait) req"
proof -
  let ?services = "server_services env E alive_unary echo_unary echo_streaming no_body settings"
  have d: "distinct (map fst ?services)" "list_all (\<lambda>n. CHR ''/'' \<notin> set n) (map fst ?services)"
    by (simp_all add: server_services_def HEALTH_SERVICE_NAME_def ECHO_SERVICE_NAME_def)
  note route = assms [unfolded routes_by_name_def, rule_format, OF d]
  show "uri_path req = ''/health.Health/'' @ m \<Longrightarrow> route ?services req =
      health_server_call alive_unary no_body (health_server_new E (health_impl_trait env settings)) req"
    by (rule route [of HEALTH_SERVICE_NAME _ req m]) (simp_all add: server_services_def HEALTH_SERVICE_NAME_def)
  show "uri_path req = ''/health.Echo/'' @ m \<Longrightarrow> route ?services req =
      echo_server_call echo_unary echo_streaming no_body (echo_server_new E echo_impl_trait) req"
    by (rule route [of ECHO_SERVICE_NAME _ req m]) (simp_all add: server_services_def ECHO_SERVICE_NAME_def)
qed

lemma is_alive_reaches_server:
  assumes "routes_by_name route" "carries_unary fits_in fits_out transport pack deliver reply read unary alive_unary"
    and "connected_to L transport route (server_services env E alive_unary echo_unary echo_streaming no_body settings) g"
    and "is_alive env settings (deliver (request\<lparr>grpc_method := Some (''health.Health'', ''IsAlive'')\<rparr>)) = Inr (waited, r)"
    and "fits_in (message request)" "fits_out r"
  shows "fst (health_client_is_alive L unary request \<lparr>health_inner = g\<rparr>) = r"
proof -
  let ?g = "snd (grpc_ready L g)" and ?h = "health_server_new E (health_impl_trait env settings)"
  have "fst (unary ?g (request\<lparr>grpc_method := Some (''health.Health'', ''IsAlive'')\<rparr>) ''/health.Health/IsAlive'') = r"
  proof (rule carries_unary_call [OF assms(2)])
    show "transport ?g http = alive_unary (encodings_default E) (encodings_default E) None None
        (trait_is_alive (health_impl_trait env settings)) http" if "uri_path http = ''/health.Health/IsAlive''" for http
      using assms(3) server_routes(1) [OF assms(1), of http "''IsAlive''"] that
      by (simp add: connected_to_def health_server_call_def health_server_new_def health_server_from_arc_def)
    show "trait_is_alive (health_impl_trait env settings)
        (deliver (request\<lparr>grpc_method := Some (''health.Health'', ''IsAlive'')\<rparr>)) = Inr r"
      using assms(4) by (simp add: health_impl_trait_def)
  qed (use assms(5,6) in simp_all)
  then show ?thesis
    by (simp add: health_client_is_alive_def when_ready_connected [OF assms(3)] Let_def case_prod_beta)
qed

lemma echo_message_reaches_server:
  fixes echo_streaming :: "('encs, ('md, 'ext, 's) request \<Rightarrow> ('status + 'r) may_panic, 'b) serve"
  assumes "routes_by_name route" "carries_unary fits_in fits_out transport pack deliver reply read unary echo_unary"
    and "connected_to L transport route (server_services env E alive_unary echo_unary echo_streaming no_body settings) g"
    and "fits_in (message request)" "fits_out (Inr \<lparr>response_message = request_message (message request)\<rparr>)"
  shows "fst (echo_client_echo_message L unary request \<lparr>echo_inner = g\<rparr>) =
    Inr \<lparr>response_message = request_message (message request)\<rparr>"
proof -
  let ?g = "snd (grpc_ready L g)" and ?req = "request\<lparr>grpc_method := Some (''health.Echo'', ''EchoMessage'')\<rparr>"
    and ?m = "trait_echo_message (echo_impl_trait :: ('md, 'ext, 's, 'r, 'status) echo)"
  have "fst (unary ?g ?req ''/health.Echo/EchoMessage'') = Inr \<lparr>response_message = request_message (message request)\<rparr>"
  proof (rule carries_unary_call [OF assms(2)])
    show "transport ?g http = echo_unary (encodings_default E) (encodings_default E) None None
        ?m http" if "uri_path http = ''/health.Echo/EchoMessage''" for http
      using assms(3) server_routes(2) [OF assms(1), of http "''EchoMessage''"] that
      by (simp add: connected_to_def echo_server_call_def echo_server_new_def echo_server_from_arc_def)
    have "message (deliver ?req) = message ?req" using assms(2) unfolding carries_unary_def by blast
    then show "?m (deliver ?req) =
        Inr (Inr \<lparr>response_message = request_message (message request)\<rparr>)"
      by (simp add: echo_impl_trait_def echo_message_def)
  qed (use assms(4,5) in simp_all)
  then show ?thesis
    by (simp add: echo_client_echo_message_def when_ready_connected [OF assms(3)] Let_def case_prod_beta)
qed

section \<open>The pooled clients of the example\<close>

text \<open>
  The methods \<open>is_alive\<close> and \<open>echo_message\<close> of the clients in \<open>health_pool.rs\<close> (and of
  \<open>WrappedClient\<close>, which the macro makes from the same client): \<open>unary i\<close> is tonic's \<open>unary\<close>
  in attempt \<open>i\<close>.
\<close>

definition health_client_pool ::
  "('g, 'ch, 'uri, 'enc, 'status) grpc_client_lib \<Rightarrow>
     (nat \<Rightarrow> 'g \<Rightarrow> ('md, 'ext, unit) request \<Rightarrow> string \<Rightarrow> ('status + is_alive_response) \<times> 'g) \<Rightarrow>
     ('p \<Rightarrow> ((ip_addr \<times> 'ch) option \<times> 'p) may_panic) \<Rightarrow> (ip_addr \<Rightarrow> 'p \<Rightarrow> 'p may_panic) \<Rightarrow>
     'status retry_policy \<Rightarrow> (string \<Rightarrow> 'status) \<Rightarrow> bool \<Rightarrow>
     ('p, 'ch, 'status, ('md, 'ext, unit) request, is_alive_response) client" where
  "health_client_pool L unary get report policy status_unavailable checks =
     \<lparr>pool_get = get, pool_report = report, retry_policy_of = policy,
      rpc = (\<lambda>i channel request. fst (health_client_is_alive L (unary i) request (health_client_new L channel))),
      unavailable = status_unavailable, client_overflow_checks = checks\<rparr>"

definition echo_client_pool ::
  "('g, 'ch, 'uri, 'enc, 'status) grpc_client_lib \<Rightarrow>
     (nat \<Rightarrow> 'g \<Rightarrow> ('md, 'ext, echo_request) request \<Rightarrow> string \<Rightarrow> ('status + echo_response) \<times> 'g) \<Rightarrow>
     ('p \<Rightarrow> ((ip_addr \<times> 'ch) option \<times> 'p) may_panic) \<Rightarrow> (ip_addr \<Rightarrow> 'p \<Rightarrow> 'p may_panic) \<Rightarrow>
     'status retry_policy \<Rightarrow> (string \<Rightarrow> 'status) \<Rightarrow> bool \<Rightarrow>
     ('p, 'ch, 'status, ('md, 'ext, echo_request) request, echo_response) client" where
  "echo_client_pool L unary get report policy status_unavailable checks =
     \<lparr>pool_get = get, pool_report = report, retry_policy_of = policy,
      rpc = (\<lambda>i channel request. fst (echo_client_echo_message L (unary i) request (echo_client_new L channel))),
      unavailable = status_unavailable, client_overflow_checks = checks\<rparr>"

section \<open>The program \<open>example/client\<close>\<close>

text \<open>
  The client is made from a template and cloned for each of four tasks.  A task calls
  \<open>is_alive\<close> at every tick of its interval and logs the result; \<open>ticks\<close> is the number of
  ticks looked at, \<open>fuel\<close> the attempts a call may take, and \<open>debug_message\<close> and
  \<open>debug_status\<close> are the \<open>Debug\<close> implementations of strings and of tonic's status.
\<close>

definition example_clients :: "'et \<Rightarrow> runtime \<Rightarrow> 'et client_pool \<times> runtime" where
  "example_clients endpoint rt =
     client_pool_ops (replicate 4 CloneHandle) (client_pool_new_from_endpoint endpoint rt)"

definition log_line :: "(string \<Rightarrow> string) \<Rightarrow> ('status \<Rightarrow> string) \<Rightarrow> 'status + is_alive_response \<Rightarrow> string" where
  "log_line debug_message debug_status response =
     (case response of
        Inr r \<Rightarrow> ''Request successful: '' @ debug_message (alive_message r)
      | Inl e \<Rightarrow> ''Request failed: '' @ debug_status e)"

fun client_task ::
  "('p, 'ch, 'status, ('md, 'ext, unit) request, is_alive_response) client \<Rightarrow> (string \<Rightarrow> string) \<Rightarrow> ('status \<Rightarrow> string) \<Rightarrow>
     nat \<Rightarrow> ('md, 'ext, unit) request \<Rightarrow> nat \<Rightarrow> string list \<Rightarrow> 'p \<Rightarrow> (string list \<times> 'p) may_panic option" where
  "client_task c debug_message debug_status fuel request 0 log p = Some (Inr (log, p))"
| "client_task c debug_message debug_status fuel request (Suc ticks) log p =
     (case call_with_retry (c\<lparr>retry_policy_of := always_retry\<rparr>) fuel request p of
        None \<Rightarrow> None
      | Some (Inl panic) \<Rightarrow> Some (Inl panic)
      | Some (Inr (response, _, p)) \<Rightarrow>
          client_task c debug_message debug_status fuel request ticks (log @ [log_line debug_message debug_status response]) p)"

text \<open>
  Whatever the pool does, a call that always retries ends with a response a server gave or
  for want of a channel.
\<close>

lemma retry_loop_always:
  assumes "\<And>e t. snd (retry_policy_of c e t) = Immediately"
  shows "retry_loop c fuel i tries slept request p = Some (Inr (r, slept', p')) \<Longrightarrow>
    r = Inl (unavailable c ''No ready channels'') \<or> (\<exists>j ch resp. r = Inr resp \<and> rpc c j ch request = Inr resp)"
proof (induction fuel arbitrary: i tries slept p)
  case (Suc fuel)
  from Suc.prems obtain n where n: "u8_add (client_overflow_checks c) tries 1 = Inr n"
    by (auto split: sum.splits)
  from Suc.prems n obtain g p1 where g: "pool_get c p = Inr (g, p1)"
    by (auto split: sum.splits)
  show ?case
  proof (cases g)
    case None
    with Suc.prems n g show ?thesis by simp
  next
    case (Some ac)
    obtain a ch where ac: "g = Some (a, ch)" using Some by (cases ac) auto
    show ?thesis
    proof (cases "rpc c i ch request")
      case (Inr response)
      with Suc.prems n g ac have "r = Inr response" by simp
      with Inr show ?thesis by blast
    next
      case (Inl e)
      obtain st where pol: "retry_policy_of c e n = (st, Immediately)"
        using assms by (metis prod.exhaust_sel)
      with Suc.prems n g ac Inl obtain p2 where "retry_loop c fuel (Suc i) n slept request p2 = Some (Inr (r, slept', p'))"
        by (auto split: sum.splits)
      with Suc.IH show ?thesis by blast
    qed
  qed
qed simp

lemma client_task_log:
  assumes "\<And>i ch resp. rpc c i ch request = Inr resp \<Longrightarrow> Q resp"
  shows "client_task c debug_message debug_status fuel request ticks log p = Some (Inr (log', p')) \<Longrightarrow>
    \<exists>new. log' = log @ new \<and> length new = ticks \<and>
      (\<forall>line \<in> set new. line = log_line debug_message debug_status (Inl (unavailable c ''No ready channels'')) \<or>
        (\<exists>resp. Q resp \<and> line = log_line debug_message debug_status (Inr resp)))"
proof (induction ticks arbitrary: log p)
  case (Suc ticks)
  let ?c = "c\<lparr>retry_policy_of := always_retry\<rparr>"
  from Suc.prems obtain r slept p1 where run: "call_with_retry ?c fuel request p = Some (Inr (r, slept, p1))"
    and rest: "client_task c debug_message debug_status fuel request ticks
      (log @ [log_line debug_message debug_status r]) p1 = Some (Inr (log', p'))"
    by (auto split: option.splits sum.splits)
  have "r = Inl (unavailable ?c ''No ready channels'') \<or> (\<exists>j ch resp. r = Inr resp \<and> rpc ?c j ch request = Inr resp)"
    using run unfolding call_with_retry_def
    by (rule retry_loop_always [rotated]) (simp add: always_retry_def)
  with assms have r: "r = Inl (unavailable c ''No ready channels'') \<or> (\<exists>resp. r = Inr resp \<and> Q resp)" by auto
  from Suc.IH [OF rest] obtain new where new: "log' = (log @ [log_line debug_message debug_status r]) @ new"
      "length new = ticks"
      "\<forall>line \<in> set new. line = log_line debug_message debug_status (Inl (unavailable c ''No ready channels'')) \<or>
        (\<exists>resp. Q resp \<and> line = log_line debug_message debug_status (Inr resp))" by blast
  with r show ?case by (intro exI [of _ "log_line debug_message debug_status r # new"]) auto
qed simp

context draining_pool begin

text \<open>With a pool that drains, and fuel for its channels, all ticks return.\<close>

lemma client_task_returns:
  assumes "pool_get c = get" "pool_report c = report" "\<not> client_overflow_checks c \<or> stock p < 255"
  shows "inv p \<Longrightarrow> stock p < fuel \<Longrightarrow>
    \<exists>log' p'. client_task c debug_message debug_status fuel request ticks log p = Some (Inr (log', p'))"
  using assms(3)
proof (induction ticks arbitrary: log p)
  case (Suc ticks)
  let ?c = "c\<lparr>retry_policy_of := always_retry\<rparr>"
  from retry_loop_returns [of ?c p fuel 0 0 "[]" request] Suc.prems assms(1,2) repository_policies(2)
  obtain r slept p1 where run: "call_with_retry ?c fuel request p = Some (Inr (r, slept, p1))"
      "inv p1" "stock p1 \<le> stock p"
    by (auto simp: call_with_retry_def)
  with Suc.prems have "stock p1 < fuel" "\<not> client_overflow_checks c \<or> stock p1 < 255" by auto
  from Suc.IH [OF run(2) this] run(1) show ?case by simp
qed simp

end

section \<open>Properties\<close>

text \<open>
  A concrete tonic: a connection is to the server with the settings of its address, a
  message is its own encoding, and a status travels in the header \<open>grpc-status\<close>.
\<close>

definition sample_settings :: "ip_addr \<Rightarrow> int health_impl" where
  "sample_settings a = \<lparr>hi_address = \<lparr>sa_ip = a, sa_port = PORT\<rparr>, hi_reliability = 100, hi_avg_wait = 0\<rparr>"

definition sample_lib :: "(ip_addr, ip_addr, unit, unit, string) grpc_client_lib" where
  "sample_lib =
     \<lparr>grpc_new = id, grpc_with_origin = (\<lambda>a _. a), grpc_send_compressed = (\<lambda>a _. a),
      grpc_accept_compressed = (\<lambda>a _. a), grpc_max_decoding_message_size = (\<lambda>a _. a),
      grpc_max_encoding_message_size = (\<lambda>a _. a), grpc_ready = (\<lambda>a. (Inr (), a)), status_unknown = id\<rparr>"

definition sample_route ::
  "(string \<times> (string http_request \<Rightarrow> string http_response may_panic)) list \<Rightarrow>
     string http_request \<Rightarrow> string http_response may_panic" where
  "sample_route services req =
     (case find (\<lambda>(name, service). take (length name + 2) (uri_path req) = ''/'' @ name @ ''/'') services of
        None \<Rightarrow> Inr (unimplemented_response [])
      | Some (name, service) \<Rightarrow> service req)"

definition sample_pack :: "('a \<Rightarrow> string) \<Rightarrow> (unit, unit, 'a) request \<Rightarrow> string \<Rightarrow> string http_request" where
  "sample_pack encode req path = \<lparr>uri_path = path, request_body = encode (message req)\<rparr>"

definition sample_deliver :: "(unit, unit, 'a) request \<Rightarrow> (unit, unit, 'a) request" where
  "sample_deliver req = \<lparr>metadata = (), grpc_method = None, extensions = (), message = message req\<rparr>"

definition sample_reply :: "('c \<Rightarrow> string) \<Rightarrow> string + 'c \<Rightarrow> string http_response" where
  "sample_reply encode r =
     (case r of
        Inl e \<Rightarrow> \<lparr>headers = [''grpc-status'' \<mapsto> e], response_body = []\<rparr>
      | Inr c \<Rightarrow> \<lparr>headers = Map.empty, response_body = encode c\<rparr>)"

definition sample_read :: "(string \<Rightarrow> 'c) \<Rightarrow> string http_response \<Rightarrow> string + 'c" where
  "sample_read decode resp =
     (case headers resp ''grpc-status'' of Some e \<Rightarrow> Inl e | None \<Rightarrow> Inr (decode (response_body resp)))"

definition sample_serve ::
  "(string \<Rightarrow> 'a) \<Rightarrow> ('c \<Rightarrow> string) \<Rightarrow> (unit, (unit, unit, 'a) request \<Rightarrow> (string + 'c) may_panic, string) serve" where
  "sample_serve decode encode = (\<lambda>_ _ _ _ m http.
     map_ok (sample_reply encode)
       (m \<lparr>metadata = (), grpc_method = None, extensions = (), message = decode (request_body http)\<rparr>))"

definition sample_unary ::
  "(ip_addr \<Rightarrow> string http_request \<Rightarrow> string http_response may_panic) \<Rightarrow> ('a \<Rightarrow> string) \<Rightarrow> (string \<Rightarrow> 'c) \<Rightarrow>
     ip_addr \<Rightarrow> (unit, unit, 'a) request \<Rightarrow> string \<Rightarrow> (string + 'c) \<times> ip_addr" where
  "sample_unary transport encode decode g req path =
     (case transport g (sample_pack encode req path) of
        Inr resp \<Rightarrow> sample_read decode resp
      | Inl _ \<Rightarrow> Inl ''broken pipe'', g)"

definition sample_transport :: "ip_addr \<Rightarrow> string http_request \<Rightarrow> string http_response may_panic" where
  "sample_transport a = sample_route
     (server_services sample_rand \<lparr>encodings_default = (), encodings_enable = (\<lambda>_ (_ :: unit). ())\<rparr>
       (sample_serve (\<lambda>_. ()) alive_message)
       (sample_serve (\<lambda>s. \<lparr>request_message = s\<rparr>) response_message)
       (sample_serve id id :: (unit, (unit, unit, string) request \<Rightarrow> (string + string) may_panic, string) serve)
       [] (sample_settings a))"

text \<open>The sample transport is made for results of at most 4 MB.\<close>

definition sample_fits :: "string + is_alive_response \<Rightarrow> bool" where
  "sample_fits r \<longleftrightarrow> (case r of Inl _ \<Rightarrow> True | Inr m \<Rightarrow> length (alive_message m) \<le> 4194304)"

lemma slash_prefix:
  "CHR ''/'' \<notin> set n \<Longrightarrow> CHR ''/'' \<notin> set name \<Longrightarrow>
    take (Suc (length n)) (name @ CHR ''/'' # m) = n @ ''/'' \<longleftrightarrow> n = name"
proof (induction n arbitrary: name)
  case Nil
  then show ?case by (cases name) auto
next
  case (Cons c n)
  then show ?case by (cases name) auto
qed

lemma sample_route_law: "routes_by_name sample_route"
proof -
  have "sample_route services req = service req"
    if "distinct (map fst services)" "list_all (\<lambda>n. CHR ''/'' \<notin> set n) (map fst services)"
      "(name, service) \<in> set services" "uri_path req = ''/'' @ name @ ''/'' @ rpc_name"
    for services :: "(string \<times> (string http_request \<Rightarrow> string http_response may_panic)) list" and name service req rpc_name
    using that
  proof (induction services)
    case (Cons s services)
    obtain n f where s: "s = (n, f)" by (cases s)
    have name: "CHR ''/'' \<notin> set name" using Cons.prems(2,3) by (auto simp: list_all_iff)
    have n: "CHR ''/'' \<notin> set n" using Cons.prems(2) by (simp add: s)
    have "take (length n + 2) (uri_path req) = ''/'' @ n @ ''/'' \<longleftrightarrow> n = name"
      using slash_prefix [OF n name, of rpc_name] Cons.prems(4) by simp
    with Cons s show ?case
      by (cases "n = name") (force simp: sample_route_def image_iff)+
  qed simp
  then show ?thesis unfolding routes_by_name_def by blast
qed

lemma sample_carries:
  assumes "\<And>x. decode (encode x) = x" "\<And>y. decode' (encode' y) = y"
  shows "carries_unary fits_in fits_out transport (sample_pack encode) sample_deliver (sample_reply encode') (sample_read decode')
    (sample_unary transport encode decode') (sample_serve decode encode')"
  using assms
  by (auto simp: carries_unary_def sample_pack_def sample_deliver_def sample_reply_def sample_read_def sample_unary_def
      sample_serve_def split: sum.split)

lemma sample_echo_carries:
  "carries_unary fits_in fits_out transport (sample_pack request_message) sample_deliver (sample_reply response_message)
    (sample_read (\<lambda>s. \<lparr>response_message = s\<rparr>))
    (sample_unary transport request_message (\<lambda>s. \<lparr>response_message = s\<rparr>))
    (sample_serve (\<lambda>s. \<lparr>request_message = s\<rparr>) response_message)"
  by (rule sample_carries) simp_all

lemma sample_alive_carries:
  "carries_unary fits_in fits_out transport (sample_pack (\<lambda>_. [])) sample_deliver (sample_reply alive_message)
    (sample_read (\<lambda>s. \<lparr>alive_message = s\<rparr>))
    (sample_unary transport (\<lambda>_. []) (\<lambda>s. \<lparr>alive_message = s\<rparr>))
    (sample_serve (\<lambda>_. ()) alive_message)"
  by (rule sample_carries) simp_all

lemma sample_connected:
  "connected_to sample_lib sample_transport sample_route
    (server_services sample_rand \<lparr>encodings_default = (), encodings_enable = (\<lambda>_ (_ :: unit). ())\<rparr>
       (sample_serve (\<lambda>_. ()) alive_message)
       (sample_serve (\<lambda>s. \<lparr>request_message = s\<rparr>) response_message)
       (sample_serve id id :: (unit, (unit, unit, string) request \<Rightarrow> (string + string) may_panic, string) serve)
       [] (sample_settings ch)) (grpc_new sample_lib ch)"
  by (simp add: connected_to_def sample_lib_def sample_transport_def)

text \<open>
  C39: a message within the size limits that is sent with the pooled client of the service
  \<open>health.Echo\<close> comes back unchanged, in the first attempt: when the pool has a ready channel and its channels lead
  to example servers, the path of the client's method is the one under which the router
  and the generated server find \<open>EchoImpl::echo_message\<close>.
\<close>

theorem pooled_echo_returns_message:
  fixes echo_streaming :: "('encs, ('md, 'ext, 's) request \<Rightarrow> ('status + 'r) may_panic, 'b) serve"
  assumes "routes_by_name route" "carries_unary fits_in fits_out transport pack deliver reply read unary echo_unary"
    and "\<And>ch. connected_to L transport route
      (server_services rnd E alive_unary echo_unary echo_streaming no_body (settings ch)) (grpc_new L ch)"
    and "channels (ready_clients st) \<noteq> []"
    and "fits_in (message request)" "fits_out (Inr \<lparr>response_message = request_message (message request)\<rparr>)"
  shows "\<exists>p. call has_source (echo_client_pool L (\<lambda>_. unary) (managed_get envs picks) (managed_report envs) policy unav checks)
      (Suc fuel) request (st, g, 0) =
    Some (Inr (Inr \<lparr>response_message = request_message (message request)\<rparr>, [], p))"
proof -
  obtain e n where "get_any_at st = (Some e, st\<lparr>ready_clients := (ready_clients st)\<lparr>index := n\<rparr>\<rparr>)"
    by (rule get_any_at_Some [OF assms(4)])
  with get_run_quiet [of st g "envs 0" "steps_needed (envs 0) st" "picks 0"] assms(4)
  obtain st' where g: "managed_get envs picks (st, g, 0) = Inr (Some e, (st', g, 1))"
    by (simp add: managed_get_def steps_needed_def)
  obtain a ch where e: "e = (a, ch)" by (cases e)
  have "fst (echo_client_echo_message L unary request (echo_client_new L ch)) =
      Inr \<lparr>response_message = request_message (message request)\<rparr>"
    unfolding echo_client_new_def by (rule echo_message_reaches_server [OF assms(1-3,5,6)])
  with g e show ?thesis
    by (simp add: call_def call_with_retry_def echo_client_pool_def u8_add_def)
qed

theorem pooled_echo_returns_message_witness:
  "\<exists>p. call (\<lambda>_. True)
      (echo_client_pool sample_lib (\<lambda>_. sample_unary sample_transport request_message (\<lambda>s. \<lparr>response_message = s\<rparr>))
        (managed_get (\<lambda>_. nanos_env 0 [V4 1] (\<lambda>_. True)) (\<lambda>_. in_order)) (managed_report (\<lambda>_. nanos_env 0 [V4 1] (\<lambda>_. True)))
        always_retry id True) 1
      \<lparr>metadata = (), grpc_method = None, extensions = (), message = \<lparr>request_message = ''hello''\<rparr>\<rparr>
      (nanos_pool [V4 1] [], \<lparr>last_recheck = 0, holder = None\<rparr>, 0) =
    Some (Inr (Inr \<lparr>response_message = ''hello''\<rparr>, [], p))"
  using pooled_echo_returns_message [OF sample_route_law sample_echo_carries sample_connected, where fuel = 0 and
      fits_in = "\<lambda>m. length (request_message m) \<le> 4194304" and
      fits_out = "\<lambda>r. case r of Inl _ \<Rightarrow> True | Inr m \<Rightarrow> length (response_message m) \<le> 4194304" and
      g = "\<lparr>last_recheck = 0, holder = None\<rparr>" and st = "nanos_pool [V4 1] []" and request =
        "\<lparr>metadata = (), grpc_method = None, extensions = (), message = \<lparr>request_message = ''hello''\<rparr>\<rparr>"]
  by simp

text \<open>
  Whatever the pool does: with channels to example servers, a tick whose call returns logs a
  server's \<open>I'm alive!\<close> or that no channel was ready.
\<close>

lemma client_log_lines:
  fixes echo_streaming :: "('encs, ('md, 'ext, 's) request \<Rightarrow> ('status + 'r) may_panic, 'b) serve"
  assumes "routes_by_name route"
    and "\<And>i. carries_unary fits_in fits_out (transport i) pack deliver reply read (unary i) alive_unary"
    and "\<And>i ch. (\<exists>e. fst (health_client_is_alive L (unary i) request (health_client_new L ch)) = Inl e) \<or>
      connected_to L (transport i) route
        (server_services (rnd i) E alive_unary echo_unary echo_streaming no_body (settings ch)) (grpc_new L ch) \<and>
      (\<forall>req. \<exists>w r. is_alive (rnd i) (settings ch) (req :: ('md, 'ext, unit) request) = Inr (w, r) \<and> fits_out r)"
    and "client_task (health_client_pool L unary get report policy unav checks) debug_message debug_status
      fuel request ticks log p = Some (Inr (log', p'))"
    and "fits_in ()"
  shows "\<exists>new. log' = log @ new \<and> length new = ticks \<and>
    (\<forall>line \<in> set new. line = ''Request failed: '' @ debug_status (unav ''No ready channels'') \<or>
      (\<exists>i ch. line = ''Request successful: '' @
        debug_message (''I'm alive! (from: '' @ debug_addr (rnd i) (hi_address (settings ch)) @ '')'')))"
proof -
  let ?c = "health_client_pool L unary get report policy unav checks"
  let ?Q = "\<lambda>resp. \<exists>i ch. resp = \<lparr>alive_message = ''I'm alive! (from: '' @ debug_addr (rnd i) (hi_address (settings ch)) @ '')''\<rparr>"
  have "?Q resp" if "rpc ?c i ch request = Inr resp" for i ch resp
  proof -
    have got: "fst (health_client_is_alive L (unary i) request (health_client_new L ch)) = Inr resp"
      using that by (simp add: health_client_pool_def)
    with assms(3) [of i ch] have con: "connected_to L (transport i) route
        (server_services (rnd i) E alive_unary echo_unary echo_streaming no_body (settings ch)) (grpc_new L ch)"
      and "\<exists>w r. is_alive (rnd i) (settings ch)
        (deliver (request\<lparr>grpc_method := Some (''health.Health'', ''IsAlive'')\<rparr>)) = Inr (w, r) \<and> fits_out r" by auto
    then obtain w r where r: "is_alive (rnd i) (settings ch)
        (deliver (request\<lparr>grpc_method := Some (''health.Health'', ''IsAlive'')\<rparr>)) = Inr (w, r)" "fits_out r" by blast
    have "fits_in (message request)" using assms(5) by simp
    from is_alive_reaches_server [OF assms(1,2) con r(1) this r(2)] got have "r = Inr resp"
      by (simp add: health_client_new_def)
    with r(1) show ?thesis by (auto simp: is_alive_def bind_res_eq_Inr split: if_splits)
  qed
  from client_task_log [of ?c request ?Q, OF this assms(4)] show ?thesis
    by (fastforce simp: log_line_def health_client_pool_def)
qed


lemma sample_is_alive:
  "is_alive sample_rand (sample_settings a) request =
    Inr (0, Inr \<lparr>alive_message = ''I'm alive! (from: '' @ debug_addr sample_rand \<lparr>sa_ip = a, sa_port = PORT\<rparr> @ '')''\<rparr>)"
  by (simp add: is_alive_def sample_settings_def sample_rand_def)


end
