(* ===== verification/Pool_Tests.thy ===== *)
theory Pool_Tests
  imports Ready_Channels Broken_Endpoints Dns Retry
begin

text \<open>
  The unit tests of \<open>ready_channels.rs\<close>, \<open>broken_endpoints.rs\<close>, \<open>dns.rs\<close> and \<open>retry.rs\<close> as
  programs on the model: a test is a computation that may panic, and passes if it does not.
  The clock readings of a test are arguments, so that what is shown holds on every clock;
  where a test depends on the time that passes between its readings, this is a hypothesis.
\<close>

section \<open>Assertions and addresses\<close>

text \<open>Consecutive \<open>assert!\<close> and \<open>assert_eq!\<close> statements.\<close>

fun asserts :: "bool list \<Rightarrow> unit may_panic" where
  "asserts [] = Inr ()"
| "asserts (b # bs) = (if b then asserts bs else Inl (Panicked ''assertion failed''))"

lemma asserts_Inr: "asserts bs = Inr () \<longleftrightarrow> list_all id bs"
  by (induction bs) auto

definition passes :: "unit may_panic \<Rightarrow> bool" where
  "passes t \<longleftrightarrow> t = Inr ()"

lemma passes_simps [simp]:
  "passes (Inr u)"
  "\<not> passes (Inl p)"
  "passes (asserts bs) \<longleftrightarrow> list_all id bs"
  by (simp_all add: passes_def asserts_Inr)

definition unwrap :: "'a option \<Rightarrow> 'a may_panic" where
  "unwrap x = ok_or (Panicked ''called `Option::unwrap()` on a `None` value'') x"

lemma unwrap_Some [simp]: "unwrap (Some x) = Inr x"
  by (simp add: unwrap_def)

definition ipv4_new :: "u8 \<Rightarrow> u8 \<Rightarrow> u8 \<Rightarrow> u8 \<Rightarrow> ip_addr" where
  "ipv4_new a b c d = V4 (((ucast a * 256 + ucast b) * 256 + ucast c) * 256 + ucast d)"

definition LOCALHOST_V6 :: ip_addr where
  "LOCALHOST_V6 = V6 1"

section \<open>Ready channels\<close>

definition ready_test_find :: "'ch \<Rightarrow> unit may_panic" where
  "ready_test_find default_channel =
     (let rc0 = ready_default;
          rc1 = ready_add rc0 LOCALHOST_V6 default_channel;
          rc2 = ready_add rc1 LOCALHOST_V4 default_channel
      in asserts [ready_find rc0 LOCALHOST_V4 = None, ready_find rc1 LOCALHOST_V4 = None,
           ready_find rc2 LOCALHOST_V4 \<noteq> None])"

text \<open>The loop of ten calls that must all find a channel.\<close>

fun get_any_times ::
  "nat \<Rightarrow> ip_addr list \<Rightarrow> 'ch ready_channels \<Rightarrow> (ip_addr list \<times> 'ch ready_channels) may_panic" where
  "get_any_times 0 found rc = Inr (found, rc)"
| "get_any_times (Suc n) found rc =
     (case ready_get_any rc of
        (Some (ip, _), rc) \<Rightarrow> get_any_times n (found @ [ip]) rc
      | (None, _) \<Rightarrow> Inl (Panicked ''No channels found''))"

definition ready_test_get_any :: "'ch \<Rightarrow> unit may_panic" where
  "ready_test_get_any default_channel =
     bind_res (asserts [fst (ready_get_any (ready_default :: 'ch ready_channels)) = None]) (\<lambda>_.
     let rc = fold (\<lambda>i rc. ready_add rc (ipv4_new 127 0 0 (of_nat i)) default_channel) [0..<128]
                (snd (ready_get_any ready_default))
     in bind_res (get_any_times 10 [] rc) (\<lambda>(found, _).
        asserts [1 < length (remdups_adj (sort found))]))"

definition ready_test_add :: "'ch \<Rightarrow> unit may_panic" where
  "ready_test_add default_channel =
     (let rc0 = ready_default;
          rc1 = ready_add rc0 LOCALHOST_V4 default_channel;
          rc2 = ready_add rc1 LOCALHOST_V6 default_channel
      in asserts [channels rc0 = [], length (channels rc1) = 1, length (channels rc2) = 2])"

definition ready_test_remove :: "'ch \<Rightarrow> unit may_panic" where
  "ready_test_remove default_channel =
     (let rc = ready_add (ready_add ready_default LOCALHOST_V4 default_channel) LOCALHOST_V6 default_channel;
          rc1 = ready_remove rc (ipv4_new 127 0 0 2);
          rc2 = ready_remove rc1 LOCALHOST_V4;
          rc3 = ready_remove rc2 LOCALHOST_V6
      in asserts [length (channels rc) = 2, length (channels rc1) = 2, length (channels rc2) = 1,
           ready_find rc2 LOCALHOST_V4 = None, channels rc3 = [], ready_find rc3 LOCALHOST_V6 = None])"

definition ready_test_replace_with :: "'ch \<Rightarrow> unit may_panic" where
  "ready_test_replace_with default_channel =
     (let rc = ready_add (ready_add ready_default LOCALHOST_V4 default_channel) LOCALHOST_V6 default_channel;
          new = [(ipv4_new 127 0 0 2, default_channel), (V6 2, default_channel)];
          rc1 = ready_replace_with rc new
      in asserts [length (channels rc) = 2, map fst (channels rc1) = map fst new])"

lemmas ready_operations = ready_default_def ready_find_def ready_get_any_def ready_add_def
  ready_remove_def ready_replace_with_def

lemma ready_tests_pass:
  "passes (ready_test_find ch)" "passes (ready_test_add ch)" "passes (ready_test_remove ch)"
  "passes (ready_test_replace_with ch)"
  by (simp_all add: ready_test_find_def ready_test_add_def ready_test_remove_def
      ready_test_replace_with_def ready_operations LOCALHOST_V4_def LOCALHOST_V6_def ipv4_new_def
      swap_remove_def Let_def)

lemma ready_test_get_any_passes: "passes (ready_test_get_any ch)"
  by code_simp

section \<open>The back-off tracker\<close>

text \<open>The values and cases that rstest instantiates a test with.\<close>

definition retries_values :: "u8 list" where
  "retries_values = [0, 1, 2, 4, 16, 255]"

definition test_retries :: "'t chrono \<Rightarrow> 't \<Rightarrow> u8 \<Rightarrow> unit may_panic" where
  "test_retries C datetime i =
     bind_res (set_retires C datetime i) (\<lambda>actual.
     let time_diff = \<bar>signed_duration_since C actual datetime\<bar>
     in asserts [get_retires C actual = i, time_diff \<le> 1000])"

definition backoff_cases :: "(u8 \<times> duration) list" where
  "backoff_cases =
     [(0, duration_from_secs 1), (1, duration_from_secs 1), (2, duration_from_secs 2),
      (4, duration_from_secs 8), (7, duration_from_secs 64), (8, duration_from_secs 64),
      (16, duration_from_secs 64), (255, duration_from_secs 64)]"

definition test_backoff :: "u8 \<Rightarrow> duration \<Rightarrow> unit may_panic" where
  "test_backoff fail_count expected = asserts [calculate_backoff fail_count = expected]"

text \<open>\<open>start\<close> is the reading of the test, \<open>now\<close> the one of \<open>from_failed_times\<close>.\<close>

definition test_tracker :: "'t chrono \<Rightarrow> 't \<Rightarrow> 't \<Rightarrow> u8 \<Rightarrow> int \<Rightarrow> unit may_panic" where
  "test_tracker C start now fail_count expected_delay =
     bind_res (from_failed_times C now fail_count) (\<lambda>tracker.
     let time_diff = \<bar>signed_duration_since C (next_test_time tracker) start\<bar>
     in asserts [tracker_failed_times C tracker = fail_count, \<bar>time_diff - expected_delay\<bar> < 10000])"

lemma test_retries_passes:
  assumes "chrono_laws C ts" "proper C datetime"
  shows "passes (test_retries C datetime i)"
proof -
  obtain t where t: "set_retires C datetime i = Inr t" "proper C t" "get_retires C t = i"
    "ts t = ts datetime - int (unat (nanosecond C datetime) mod 256) + int (unat i)"
    by (rule set_retires_spec [OF assms])
  have "unat (nanosecond C datetime) mod 256 < 256" "unat i \<le> 255" by (simp_all add: u8_le_255)
  with t(4) have "\<bar>ts t - ts datetime\<bar> \<le> 1000" by linarith
  with t show ?thesis by (simp add: test_retries_def chrono_since [OF assms(1) t(2) assms(2)])
qed

lemma test_backoff_passes: "(n, d) \<in> set backoff_cases \<Longrightarrow> passes (test_backoff n d)"
  by (auto simp: backoff_cases_def test_backoff_def calculate_backoff_eq duration_from_secs_def)

section \<open>Delayed addresses and broken endpoints\<close>

definition delayed_test_from_ip_address :: "'t chrono \<Rightarrow> 't \<Rightarrow> unit may_panic" where
  "delayed_test_from_ip_address C now =
     (let ip_address = ipv4_new 127 0 0 1
      in bind_res (delayed_from_ip C now ip_address) (\<lambda>delayed_address.
         asserts [delayed_failed_times C delayed_address = 1, da_address delayed_address = ip_address]))"

definition delayed_test_failed_times :: "'t chrono \<Rightarrow> 't \<Rightarrow> unit may_panic" where
  "delayed_test_failed_times C now =
     (let ip_address = ipv4_new 127 0 0 1
      in bind_res (map_ok (\<lambda>tracker. DelayedAddress tracker ip_address) (from_failed_times C now 3)) (\<lambda>delayed_address.
         asserts [delayed_failed_times C delayed_address = 3, da_address delayed_address = ip_address]))"

definition delayed_test_deref :: "'t chrono \<Rightarrow> 't \<Rightarrow> unit may_panic" where
  "delayed_test_deref C now =
     (let ip_address = ipv4_new 127 0 0 1
      in bind_res (map_ok (\<lambda>tracker. DelayedAddress tracker ip_address) (from_failed_times C now 3)) (\<lambda>delayed_address.
         asserts [da_address delayed_address = ip_address]))"

definition broken_test_get_address :: "'t chrono \<Rightarrow> (nat \<Rightarrow> 't) \<Rightarrow> unit may_panic" where
  "broken_test_get_address C now =
     bind_res (add_address C (now 0) broken_default LOCALHOST_V4) (\<lambda>be.
     bind_res (add_address C (now 1) be LOCALHOST_V6) (\<lambda>be.
     bind_res (unwrap (broken_get_address be LOCALHOST_V4)) (\<lambda>actual.
     asserts [delayed_failed_times C actual = 1, da_address actual = LOCALHOST_V4,
       broken_get_address be (ipv4_new 127 0 0 2) = None])))"

definition broken_test_add_address :: "'t chrono \<Rightarrow> 't \<Rightarrow> unit may_panic" where
  "broken_test_add_address C now =
     bind_res (add_address C now broken_default LOCALHOST_V4) (\<lambda>be.
     bind_res (unwrap (broken_get_address be LOCALHOST_V4)) (\<lambda>actual.
     asserts [delayed_failed_times C actual = 1]))"

definition broken_test_re_add_address :: "bool \<Rightarrow> 't chrono \<Rightarrow> (nat \<Rightarrow> 't) \<Rightarrow> unit may_panic" where
  "broken_test_re_add_address overflow_checks C now =
     bind_res (add_address C (now 0) broken_default LOCALHOST_V4) (\<lambda>be.
     bind_res (unwrap (broken_get_address be LOCALHOST_V4)) (\<lambda>first.
     bind_res (re_add_address overflow_checks C (now 1) be first) (\<lambda>be.
     bind_res (unwrap (broken_get_address be LOCALHOST_V4)) (\<lambda>actual.
     asserts [delayed_failed_times C actual = 2]))))"

definition broken_test_addresses :: "'t chrono \<Rightarrow> (nat \<Rightarrow> 't) \<Rightarrow> unit may_panic" where
  "broken_test_addresses C now =
     (let address1 = ipv4_new 10 0 0 1; address2 = ipv4_new 192 168 1 1
      in bind_res (add_address C (now 0) broken_default address1) (\<lambda>be.
         bind_res (add_address C (now 1) be address2) (\<lambda>be.
         asserts [list_all (\<lambda>address. delayed_failed_times C address = 1) (addresses be),
           sort (map da_address (addresses be)) = [address1, address2]])))"

definition broken_test_replace_with :: "('t :: linorder) chrono \<Rightarrow> (nat \<Rightarrow> 't) \<Rightarrow> unit may_panic" where
  "broken_test_replace_with C now =
     (let address1 = ipv4_new 10 0 0 1; address2 = ipv4_new 192 168 1 1
      in bind_res (add_address C (now 0) broken_default address1) (\<lambda>be.
         bind_res (add_address C (now 1) be address2) (\<lambda>be.
         bind_res (delayed_from_ip C (now 2) LOCALHOST_V4) (\<lambda>new.
         let be = broken_replace_with be [new]
         in bind_res (asserts [length (addresses be) = 1]) (\<lambda>_.
            bind_res (unwrap (heap_peek (addresses be))) (\<lambda>entry.
            asserts [delayed_failed_times C entry = 1]))))))"

text \<open>
  The test of the waiting loop: the background task starts on the empty collection, and the
  address is added while it waits for a notification, which that wait consumes; then
  nobody changes the collection.  \<open>start\<close> and \<open>elapsed\<close> read the clock of the other
  readings; \<open>None\<close> is a test that is still waiting after \<open>fuel\<close> passes.
\<close>

definition broken_test_next_broken_ip_address ::
  "('t :: linorder) chrono \<Rightarrow> 't \<Rightarrow> (nat \<Rightarrow> 't) \<Rightarrow> 't \<Rightarrow> 't \<Rightarrow> nat \<Rightarrow> unit may_panic option" where
  "broken_test_next_broken_ip_address C start now added stop fuel =
     (let address1 = ipv4_new 10 0 0 1
      in case add_address C added broken_default address1 of
           Inl p \<Rightarrow> Some (Inl p)
         | Inr be \<Rightarrow>
             let wake = (\<lambda>i waiting. if i = 0 then be\<lparr>permit := False\<rparr> else waiting)
             in map_option (\<lambda>result. bind_res result (\<lambda>(next_broken_ip, _).
                  asserts [delayed_failed_times C next_broken_ip = 1,
                    1000000000 \<le> signed_duration_since C stop start]))
                (next_broken_ip_address C now wake fuel 0 broken_default))"

lemma add_address_run:
  assumes "chrono_laws C ts" "backoff_fits C now"
  obtains d where "add_address C now be a = Inr (broken_insert be d)" "da_address d = a"
    "proper C (da_time d)" "delayed_failed_times C d = 1" "\<bar>ts (da_time d) - (ts now + 1000000000)\<bar> \<le> 255"
  by (rule add_fail_count_spec [OF assms, of be a 1])
     (rule that, auto simp: add_address_def calculate_backoff_eq)

lemma delayed_tests_pass:
  assumes "chrono_laws C ts" "backoff_fits C now"
  shows "passes (delayed_test_from_ip_address C now)" "passes (delayed_test_failed_times C now)"
    "passes (delayed_test_deref C now)"
proof -
  show "passes (delayed_test_from_ip_address C now)"
    by (rule delayed_from_ip_spec [OF assms, of "ipv4_new 127 0 0 1"])
       (simp add: delayed_test_from_ip_address_def)
  obtain tracker where "from_failed_times C now 3 = Inr tracker" "tracker_failed_times C tracker = 3"
    by (rule from_failed_times_spec [OF assms, of 3])
  then show "passes (delayed_test_failed_times C now)" "passes (delayed_test_deref C now)"
    by (simp_all add: delayed_test_failed_times_def delayed_test_deref_def delayed_failed_times_def)
qed

lemma broken_tests_pass:
  assumes "chrono_laws C ts" "\<And>i. backoff_fits C (now i)"
  shows "passes (broken_test_get_address C now)" "passes (broken_test_add_address C (now 0))"
    "passes (broken_test_re_add_address checks C now)" "passes (broken_test_addresses C now)"
    "passes (broken_test_replace_with C now)"
proof -
  note add = add_address_run [OF assms]
  note defs = broken_get_address_def broken_default_def ipv4_new_def LOCALHOST_V4_def LOCALHOST_V6_def
  show "passes (broken_test_get_address C now)"
    by (rule add [of 0 broken_default LOCALHOST_V4], rule_tac be = "broken_insert broken_default d" in add [of 1 _ LOCALHOST_V6])
       (auto simp: broken_test_get_address_def defs)
  show "passes (broken_test_add_address C (now 0))"
    by (rule add [of 0 broken_default LOCALHOST_V4]) (auto simp: broken_test_add_address_def defs)
  show "passes (broken_test_addresses C now)"
    by (rule add [of 0 broken_default "ipv4_new 10 0 0 1"],
        rule_tac be = "broken_insert broken_default d" in add [of 1 _ "ipv4_new 192 168 1 1"])
       (auto simp: broken_test_addresses_def defs)
  show "passes (broken_test_replace_with C now)"
    by (rule add [of 0 broken_default "ipv4_new 10 0 0 1"],
        rule_tac be = "broken_insert broken_default d" in add [of 1 _ "ipv4_new 192 168 1 1"],
        rule delayed_from_ip_spec [OF assms, of 2 LOCALHOST_V4])
       (auto simp: broken_test_replace_with_def defs heap_peek_def)
  show "passes (broken_test_re_add_address checks C now)"
  proof -
    obtain d where d: "add_address C (now 0) broken_default LOCALHOST_V4 = Inr (broken_insert broken_default d)"
      "da_address d = LOCALHOST_V4" "delayed_failed_times C d = 1" by (rule add)
    obtain e where "add_address_with_current_fail_count C (now 1) (broken_insert broken_default d) LOCALHOST_V4 2 =
        Inr (broken_insert (broken_insert broken_default d) e)"
      "da_address e = LOCALHOST_V4" "delayed_failed_times C e = 2"
      by (rule add_fail_count_spec [OF assms])
    with d show ?thesis
      by (auto simp: broken_test_re_add_address_def defs re_add_address_eq)
  qed
qed

text \<open>The loop from pass \<open>i + 1\<close> on is a loop of its own.\<close>

lemma next_broken_shift:
  "next_broken_ip_address C now wake fuel (Suc i) be =
     next_broken_ip_address C (\<lambda>j. now (Suc j)) (\<lambda>j. wake (Suc j)) fuel i be"
  by (induction fuel arbitrary: i be) (auto split: sum.split pass.split)

lemma If_False_id: "If False x = (\<lambda>y. y)"
  by (rule ext) simp

lemma next_broken_test_passes:
  assumes laws: "chrono_laws C ts" and added: "backoff_fits C added"
    and readings: "proper C start" "\<And>i. proper C (now i)" "proper C stop"
    and times: "ts start + 255 \<le> ts added" "ts added + 1000000255 \<le> ts (now 2)"
      "ts (now 1) \<le> ts (now 2)" "ts (now 2) \<le> ts stop"
  shows "\<exists>result. broken_test_next_broken_ip_address C start now added stop 3 = Some result \<and> passes result"
proof -
  obtain d where d: "add_address C added broken_default (ipv4_new 10 0 0 1) = Inr (broken_insert broken_default d)"
    "proper C (da_time d)" "delayed_failed_times C d = 1" "\<bar>ts (da_time d) - (ts added + 1000000000)\<bar> \<le> 255"
    by (rule add_address_run [OF laws added, of broken_default "ipv4_new 10 0 0 1"])
  let ?be = "(broken_insert broken_default d)\<lparr>permit := False\<rparr>"
  let ?wake = "\<lambda>i waiting. if i = 0 then ?be else waiting"
  have addresses: "addresses ?be = [d]" by (simp add: broken_default_def)
  have "broken_wf C ?be"
    using broken_wf_insert [OF broken_wf_default d(2)] by (simp add: broken_wf_def)
  moreover have "da_time d \<le> now 2"
    using times(2) d(4) by (simp add: chrono_le [OF laws d(2) readings(2)])
  ultimately obtain be' where "next_broken_ip_address C (\<lambda>j. now (Suc j)) (\<lambda>j. ?wake (Suc j)) 2 0 ?be = Some (Inr (d, be'))"
    using next_broken_returns_in_two_passes [OF laws, of ?be "\<lambda>j. now (Suc j)" "\<lambda>j. ?wake (Suc j)"] readings(2) addresses
    by (auto simp: numeral_2_eq_2)
  moreover have "next_broken_pass C (now 0) broken_default = Inr (Notified, broken_default)"
    by (simp add: next_broken_pass_def heap_peek_def broken_default_def)
  then have "next_broken_ip_address C now ?wake (Suc 2) 0 broken_default =
      next_broken_ip_address C (\<lambda>j. now (Suc j)) (\<lambda>j. ?wake (Suc j)) 2 0 ?be"
    unfolding next_broken_ip_address.simps by (simp add: next_broken_shift If_False_id)
  ultimately have "next_broken_ip_address C now ?wake 3 0 broken_default = Some (Inr (d, be'))"
    by simp
  moreover have "1000000000 \<le> signed_duration_since C stop start"
    using times by (simp add: chrono_since [OF laws readings(3,1)])
  ultimately show ?thesis
    using d(1,3) by (simp add: broken_test_next_broken_ip_address_def Let_def)
qed

section \<open>Name resolution and retry policies\<close>

text \<open>Of \<open>std::io::Error\<close>: what the tests make and look at.\<close>

datatype error_kind = Other | NotFound

datatype io_error = IoErr (io_kind: error_kind) (io_to_string: string)

definition io_other :: "string \<Rightarrow> io_error" where
  "io_other message = IoErr Other message"

definition dns_test_can_mock_address_resolution :: "io_error dns_mock \<Rightarrow> unit may_panic" where
  "dns_test_can_mock_address_resolution mock =
     (let as = [ipv4_new 128 0 0 1, ipv4_new 129 0 0 1, V6 2, V6 3];
          sockets = map (\<lambda>ip. \<lparr>sa_ip = ip, sa_port = 0\<rparr>) as;
          mock = set_socket_addrs (\<lambda>_ _. Inr sockets) mock
      in case resolve_domain (mock_to_socket_addrs mock) ''localhost'' of
           Inl e \<Rightarrow> Inl (Panicked (io_to_string e))
         | Inr found \<Rightarrow> asserts [found = as])"

definition dns_test_forwards_errors :: "io_error dns_mock \<Rightarrow> unit may_panic" where
  "dns_test_forwards_errors mock =
     (let mock = set_socket_addrs (\<lambda>_ _. Inl (io_other ''mock error'')) mock
      in case resolve_domain (mock_to_socket_addrs mock) ''localhost'' of
           Inl error \<Rightarrow> asserts [io_kind error = Other, io_to_string error = ''mock error'']
         | Inr _ \<Rightarrow> asserts [False])"

text \<open>Whatever the tests that ran before have left in the static.\<close>

lemma dns_tests_pass:
  "passes (dns_test_can_mock_address_resolution mock)" "passes (dns_test_forwards_errors mock)"
  by (simp_all add: dns_test_can_mock_address_resolution_def dns_test_forwards_errors_def resolve_mocked
      io_other_def Let_def comp_def)

text \<open>The statuses are tonic's: one made from a code has no source, one made from an error has it.\<close>

definition test_default_retry_policy_alive :: "('status \<Rightarrow> bool) \<Rightarrow> 'status \<Rightarrow> unit may_panic" where
  "test_default_retry_policy_alive has_source err =
     asserts [default_retry_policy has_source err 1 = (Alive, DoNotRetry)]"

definition test_default_retry_policy_dead :: "('status \<Rightarrow> bool) \<Rightarrow> 'status \<Rightarrow> unit may_panic" where
  "test_default_retry_policy_dead has_source err =
     asserts [default_retry_policy has_source err 1 = (Dead, Immediately)]"

lemma retry_tests_pass:
  "\<not> has_source err \<Longrightarrow> passes (test_default_retry_policy_alive has_source err)"
  "has_source err' \<Longrightarrow> passes (test_default_retry_policy_dead has_source err')"
  by (simp_all add: test_default_retry_policy_alive_def test_default_retry_policy_dead_def
      default_retry_policy_def)

section \<open>The timed test\<close>

definition tracker_cases :: "(u8 \<times> int) list" where
  "tracker_cases =
     [(0, 1000000000), (1, 1000000000), (2, 2000000000), (4, 8000000000), (7, 64000000000),
      (8, 64000000000), (16, 64000000000), (255, 64000000000)]"

lemma tracker_cases_backoff: "(n, d) \<in> set tracker_cases \<Longrightarrow> d = int (calculate_backoff n)"
  by (auto simp: tracker_cases_def calculate_backoff_eq)

text \<open>
  Whether the test of the tracker passes depends on how much time passes between its
  reading of the clock and the tracker's: in all its cases it passes if that is at most
  9744 nanoseconds, and fails if it is 10255 or more.
\<close>

lemma tracker_test_is_timed:
  assumes "chrono_laws C ts" "proper C start" "backoff_fits C now" "ts start \<le> ts now"
    and "(fail_count, expected_delay) \<in> set tracker_cases"
  shows "(ts now - ts start \<le> 9744 \<longrightarrow> passes (test_tracker C start now fail_count expected_delay)) \<and>
    (10255 \<le> ts now - ts start \<longrightarrow> \<not> passes (test_tracker C start now fail_count expected_delay))"
proof -
  obtain tr where tr: "from_failed_times C now fail_count = Inr tr" "proper C (next_test_time tr)"
    "tracker_failed_times C tr = fail_count" "\<bar>ts (next_test_time tr) - (ts now + expected_delay)\<bar> \<le> 255"
    using from_failed_times_spec [OF assms(1,3), of fail_count] tracker_cases_backoff [OF assms(5)] by metis
  have "1000000000 \<le> expected_delay" using assms(5) by (auto simp: tracker_cases_def)
  with tr(4) assms(4) have "\<bar>ts (next_test_time tr) - ts start\<bar> = ts (next_test_time tr) - ts start"
    by linarith
  then show ?thesis
    using tr(1,3,4) assms(4)
    by (simp add: test_tracker_def chrono_since [OF assms(1) tr(2) assms(2)])
       (intro conjI impI notI; linarith)
qed

section \<open>Properties\<close>

definition clocked_tests :: "bool \<Rightarrow> ('t :: linorder) chrono \<Rightarrow> (nat \<Rightarrow> 't) \<Rightarrow> unit may_panic list" where
  "clocked_tests overflow_checks C now =
     map (test_retries C (now 0)) retries_values @
     [delayed_test_from_ip_address C (now 0), delayed_test_failed_times C (now 0), delayed_test_deref C (now 0),
      broken_test_get_address C now, broken_test_add_address C (now 0),
      broken_test_re_add_address overflow_checks C now, broken_test_addresses C now,
      broken_test_replace_with C now]"

definition ready_tests :: "'ch \<Rightarrow> unit may_panic list" where
  "ready_tests default_channel =
     [ready_test_find default_channel, ready_test_get_any default_channel, ready_test_add default_channel,
      ready_test_remove default_channel, ready_test_replace_with default_channel]"



end
