(* ===== verification/Template_Tests.thy ===== *)
theory Template_Tests
  imports Endpoint_Template Pool_Tests
begin

text \<open>
  The unit tests of \<open>endpoint_template.rs\<close> as programs on the model.  Parsing is that of the
  crates url and http, so what a test reads from its strings is a hypothesis,
  \<open>test_strings\<close>, and \<open>string_urls\<close> is a library for which it holds.
\<close>

section \<open>The parsers\<close>

record ('u, 'uri, 'hv, 'ep) test_lib =
  url_parse :: "string \<Rightarrow> 'u option"
  hv_from_str :: "string \<Rightarrow> 'hv option"
  ep_uri :: "'ep \<Rightarrow> 'uri"

definition test_url :: string where
  "test_url = ''http://example.com:50051/foo''"

text \<open>\<open>unwrap\<close> of a \<open>Result\<close>.\<close>

definition unwrap_ok :: "'e + 'a \<Rightarrow> 'a may_panic" where
  "unwrap_ok r = map_err (\<lambda>_. Panicked ''called `Result::unwrap()` on an `Err` value'') r"

lemma unwrap_ok_simps [simp]: "unwrap_ok (Inr x) = Inr x"
  by (simp add: unwrap_ok_def)

section \<open>Substitution and errors\<close>

text \<open>\<open>addr\<close> is the address of the test and \<open>expected\<close> the URI it expects.\<close>

definition template_test_substitute ::
  "('u, 'uri) url_lib \<Rightarrow> ('uri, 'hv, 'tls, 'ep) endpoint_lib \<Rightarrow> ('u, 'uri, 'hv, 'ep) test_lib \<Rightarrow>
     ip_addr \<Rightarrow> string \<Rightarrow> unit may_panic" where
  "template_test_substitute L E T addr expected =
     bind_res (unwrap (url_parse T test_url)) (\<lambda>url.
     bind_res (unwrap_ok (template_new L (Inr url :: unit + 'u) :: _ + ('u, 'uri, 'hv, 'tls) endpoint_template)) (\<lambda>builder.
     bind_res (template_build L E builder addr) (\<lambda>endpoint.
     bind_res (unwrap (uri_from_str L expected)) (\<lambda>uri.
     asserts [ep_uri T endpoint = uri]))))"

definition can_substitute_domain_for_ipv4_address ::
  "('u, 'uri) url_lib \<Rightarrow> ('uri, 'hv, 'tls, 'ep) endpoint_lib \<Rightarrow> ('u, 'uri, 'hv, 'ep) test_lib \<Rightarrow> unit may_panic" where
  "can_substitute_domain_for_ipv4_address L E T =
     template_test_substitute L E T (ipv4_new 203 0 113 6) ''http://203.0.113.6:50051/foo''"

definition can_substitute_domain_for_ipv6_address ::
  "('u, 'uri) url_lib \<Rightarrow> ('uri, 'hv, 'tls, 'ep) endpoint_lib \<Rightarrow> ('u, 'uri, 'hv, 'ep) test_lib \<Rightarrow> unit may_panic" where
  "can_substitute_domain_for_ipv6_address L E T =
     template_test_substitute L E T (V6 0x20010db8000000000000000000000000) ''http://[2001:db8::]:50051/foo''"

definition builder_error_cases :: "(string \<times> endpoint_template_error) list" where
  "builder_error_cases =
     [(''http://127.0.0.1:50051'', AlreadyIpAddress), (''http://[::1]:50051'', AlreadyIpAddress),
      (''mailto:admin@example.com'', HostMissing)]"

definition test_builder_error ::
  "('u, 'uri) url_lib \<Rightarrow> ('u, 'uri, 'hv, 'ep) test_lib \<Rightarrow> string \<Rightarrow> endpoint_template_error \<Rightarrow> unit may_panic" where
  "test_builder_error L T input expected =
     bind_res (unwrap (url_parse T input)) (\<lambda>url.
     case template_new L (Inr url :: unit + 'u) of
       Inl error \<Rightarrow> asserts [error = expected]
     | Inr (_ :: ('u, 'uri, 'hv, unit) endpoint_template) \<Rightarrow> asserts [False])"

definition from_trait_cases :: "(string \<times> (endpoint_template_error + string)) list" where
  "from_trait_cases =
     [(''http://example.com:50051/foo'', Inr ''example.com''), (''http://127.0.0.1:50051'', Inl AlreadyIpAddress),
      (''http://[::1]:50051'', Inl AlreadyIpAddress), (''mailto:admin@example.com'', Inl HostMissing)]"

definition test_from_trait ::
  "('u, 'uri) url_lib \<Rightarrow> ('u, 'uri, 'hv, 'ep) test_lib \<Rightarrow> string \<Rightarrow> endpoint_template_error + string \<Rightarrow> unit may_panic" where
  "test_from_trait L T url expected =
     bind_res (unwrap (url_parse T url)) (\<lambda>url.
     bind_res (case template_try_from L url of
         Inl error \<Rightarrow> Inr (Inl error)
       | Inr template \<Rightarrow> map_ok Inr (template_domain L (template :: ('u, 'uri, 'hv, unit) endpoint_template)))
       (\<lambda>domain. asserts [domain = expected]))"

definition test_debug_output ::
  "('u, 'uri) url_lib \<Rightarrow> ('u, 'uri, 'hv, 'ep) test_lib \<Rightarrow> (string \<Rightarrow> string) \<Rightarrow> unit may_panic" where
  "test_debug_output L T debug_str =
     bind_res (unwrap (url_parse T test_url)) (\<lambda>url.
     bind_res (unwrap_ok (template_new L (Inr url :: unit + 'u) :: _ + ('u, 'uri, 'hv, unit) endpoint_template)) (\<lambda>builder.
     asserts [debug_template L debug_str builder =
       ''EndpointTemplate { url: '' @ [CHR 0x22] @ ''http://example.com:50051/foo'' @ [CHR 0x22] @ '', .. }'']))"

section \<open>Setters\<close>

definition test_setters ::
  "('u, 'uri) url_lib \<Rightarrow> ('uri, 'hv, 'tls, 'ep) endpoint_lib \<Rightarrow> ('u, 'uri, 'hv, 'ep) test_lib \<Rightarrow> unit may_panic" where
  "test_setters L E T =
     bind_res (unwrap (url_parse T test_url)) (\<lambda>url.
     bind_res (unwrap_ok (template_new L (Inr url :: unit + 'u) :: _ + ('u, 'uri, 'hv, 'tls) endpoint_template)) (\<lambda>builder.
     bind_res (unwrap (uri_from_str L ''http://example.net:50001'')) (\<lambda>origin.
     let builder = template_origin origin builder
     in bind_res (asserts [et_origin builder = Some origin]) (\<lambda>_.
     bind_res (unwrap (hv_from_str T ''my-user-agent'')) (\<lambda>user_agent.
     bind_res (unwrap_ok (template_user_agent (Inr user_agent :: unit + 'hv) builder)) (\<lambda>builder.
     bind_res (asserts [et_user_agent builder = Some user_agent]) (\<lambda>_.
     let duration = duration_from_secs 10;
         b1 = template_timeout duration builder;
         connect_timeout = duration_from_secs 5;
         b2 = template_connect_timeout connect_timeout b1;
         tcp_keepalive = Some (duration_from_secs 30);
         b3 = template_tcp_keepalive tcp_keepalive b2;
         concurrency_limit = 10;
         b4 = template_concurrency_limit concurrency_limit b3;
         rate_limit = (100, duration_from_secs 1);
         b5 = template_rate_limit (fst rate_limit) (snd rate_limit) b4;
         init_stream_window_size = Some 64;
         b6 = template_initial_stream_window_size init_stream_window_size b5;
         init_connection_window_size = Some 128;
         b7 = template_initial_connection_window_size init_connection_window_size b6;
         buffer_size = Some 1024;
         b8 = template_buffer_size buffer_size b7;
         tcp_nodelay = True;
         b9 = template_tcp_nodelay tcp_nodelay b8;
         http2_keep_alive_interval = duration_from_secs 30;
         b10 = template_http2_keep_alive_interval http2_keep_alive_interval b9;
         keep_alive_timeout = duration_from_secs 60;
         b11 = template_keep_alive_timeout keep_alive_timeout b10;
         keep_alive_while_idle = True;
         b12 = template_keep_alive_while_idle keep_alive_while_idle b11;
         http2_adaptive_window = True;
         b13 = template_http2_adaptive_window http2_adaptive_window b12;
         http2_max_header_list_size = 8192;
         b14 = template_http2_max_header_list_size http2_max_header_list_size b13;
         local_address = Some (ipv4_new 127 0 0 2);
         b15 = template_local_address local_address b14
     in bind_res (asserts [et_timeout b1 = Some duration, et_connect_timeout b2 = Some connect_timeout,
          et_tcp_keepalive b3 = tcp_keepalive, et_concurrency_limit b4 = Some concurrency_limit,
          et_rate_limit b5 = Some rate_limit, et_init_stream_window_size b6 = init_stream_window_size,
          et_init_connection_window_size b7 = init_connection_window_size, et_buffer_size b8 = buffer_size,
          et_tcp_nodelay b9 = Some tcp_nodelay, et_http2_keep_alive_interval b10 = Some http2_keep_alive_interval,
          et_http2_keep_alive_timeout b11 = Some keep_alive_timeout,
          et_http2_keep_alive_while_idle b12 = Some keep_alive_while_idle,
          et_http2_adaptive_window b13 = Some http2_adaptive_window,
          et_http2_max_header_list_size b14 = Some http2_max_header_list_size,
          et_local_address b15 = local_address]) (\<lambda>_.
     bind_res (template_build L E b15 (ipv4_new 127 0 0 1)) (\<lambda>_. Inr ())))))))))"

section \<open>The tests pass\<close>

text \<open>
  What the parsers make of the strings of the tests.  \<open>Endpoint::uri\<close> is the URI the endpoint
  was made of, whatever has been set since.
\<close>

definition test_strings ::
  "('u, 'uri) url_lib \<Rightarrow> ('uri, 'hv, 'tls, 'ep) endpoint_lib \<Rightarrow> ('u, 'uri, 'hv, 'ep) test_lib \<Rightarrow> bool" where
  "test_strings L E T \<longleftrightarrow>
     (\<exists>u. url_parse T test_url = Some u \<and> url_host L u = Some (Domain ''example.com'') \<and>
        \<not> url_cannot_be_a_base L u \<and> url_as_str L u = test_url \<and> uri_from_str L test_url \<noteq> None \<and>
        map_option (url_as_str L) (url_set_ip_host L u (ipv4_new 203 0 113 6)) = Some ''http://203.0.113.6:50051/foo'' \<and>
        map_option (url_as_str L) (url_set_ip_host L u (V6 0x20010db8000000000000000000000000)) =
          Some ''http://[2001:db8::]:50051/foo'') \<and>
     (\<exists>u a. url_parse T ''http://127.0.0.1:50051'' = Some u \<and> url_host L u = Some (Ipv4 a)) \<and>
     (\<exists>u a. url_parse T ''http://[::1]:50051'' = Some u \<and> url_host L u = Some (Ipv6 a)) \<and>
     (\<exists>u. url_parse T ''mailto:admin@example.com'' = Some u \<and> url_host L u = None) \<and>
     uri_from_str L ''http://example.net:50001'' \<noteq> None \<and> hv_from_str T ''my-user-agent'' \<noteq> None \<and>
     (\<forall>uri. ep_uri T (ep_from_uri E uri) = uri) \<and> (\<forall>c ep. ep_uri T (ep_set E c ep) = ep_uri T ep)"

lemma test_url_template:
  fixes L :: "('u, 'uri) url_lib" and E :: "('uri, 'hv, 'tls1, 'ep) endpoint_lib" and T :: "('u, 'uri, 'hv, 'ep) test_lib"
  assumes "test_strings L E T" "url_laws L"
  obtains u t where "url_parse T test_url = Some u"
    "template_new L (Inr u :: unit + 'u) = Inr (t :: ('u, 'uri, 'hv, 'tls) endpoint_template)"
    "et_url t = u" "valid_url L u" "url_as_str L u = test_url" "template_domain L t = Inr ''example.com''"
    "template_settings t = [Call (TcpKeepalive None), Call (TcpKeepaliveInterval None), Call (TcpKeepaliveRetries None),
      Call (BufferSize None), Call (LocalAddress None)]"
proof -
  obtain u where u: "url_parse T test_url = Some u" "url_host L u = Some (Domain ''example.com'')"
      "\<not> url_cannot_be_a_base L u" "url_as_str L u = test_url" "uri_from_str L test_url \<noteq> None"
    using assms(1) unfolding test_strings_def by blast
  moreover have "url_domain L u = Some ''example.com''" using assms(2) u(2) by (simp add: url_laws_def)
  ultimately show thesis
    by (intro that [of u "the (sum.case_sum (\<lambda>_. None) Some (template_new L (Inr u :: unit + 'u)))"])
       (auto simp: template_new_def valid_url_def template_domain_def template_settings_def opt_call_def)
qed

lemma template_test_substitute_passes:
  fixes L :: "('u, 'uri) url_lib" and E :: "('uri, 'hv, 'tls, 'ep) endpoint_lib" and T :: "('u, 'uri, 'hv, 'ep) test_lib"
  assumes "test_strings L E T" "url_laws L" "uri_laws L"
    and "\<And>u. url_parse T test_url = Some u \<Longrightarrow> map_option (url_as_str L) (url_set_ip_host L u a) = Some expected"
  shows "passes (template_test_substitute L E T a expected)"
proof -
  obtain u t where t: "url_parse T test_url = Some u"
      "template_new L (Inr u :: unit + 'u) = Inr (t :: ('u, 'uri, 'hv, 'tls) endpoint_template)" "et_url t = u" "valid_url L u"
      "template_settings t = [Call (TcpKeepalive None), Call (TcpKeepaliveInterval None), Call (TcpKeepaliveRetries None),
        Call (BufferSize None), Call (LocalAddress None)]"
    by (rule test_url_template [OF assms(1,2)])
  from assms(4) [OF t(1)] obtain u' where u': "url_set_ip_host L u a = Some u'" "url_as_str L u' = expected" by auto
  with assms(3) t(4) obtain uri where "uri_from_str L expected = Some uri"
    unfolding uri_laws_def valid_url_def by blast
  moreover have "ep_uri T (ep_from_uri E uri) = uri" "ep_uri T (ep_set E c ep) = ep_uri T ep" for c ep
    using assms(1) unfolding test_strings_def by blast+
  ultimately show ?thesis
    using t u' by (simp add: template_test_substitute_def template_build_settings template_build_uri_def)
qed

lemma template_tests_pass:
  fixes L :: "('u, 'uri) url_lib" and E :: "('uri, 'hv, 'tls, 'ep) endpoint_lib" and T :: "('u, 'uri, 'hv, 'ep) test_lib"
  assumes "test_strings L E T" "url_laws L" "uri_laws L"
  shows "passes (can_substitute_domain_for_ipv4_address L E T)" "passes (can_substitute_domain_for_ipv6_address L E T)"
    "(input, error) \<in> set builder_error_cases \<Longrightarrow> passes (test_builder_error L T input error)"
    "(url, expected) \<in> set from_trait_cases \<Longrightarrow> passes (test_from_trait L T url expected)"
    "debug_str test_url = CHR 0x22 # test_url @ [CHR 0x22] \<Longrightarrow> passes (test_debug_output L T debug_str)"
proof -
  have "map_option (url_as_str L) (url_set_ip_host L u (ipv4_new 203 0 113 6)) = Some ''http://203.0.113.6:50051/foo''"
    "map_option (url_as_str L) (url_set_ip_host L u (V6 0x20010db8000000000000000000000000)) =
      Some ''http://[2001:db8::]:50051/foo''" if "url_parse T test_url = Some u" for u
    using assms(1) that unfolding test_strings_def by force+
  then show "passes (can_substitute_domain_for_ipv4_address L E T)" "passes (can_substitute_domain_for_ipv6_address L E T)"
    unfolding can_substitute_domain_for_ipv4_address_def can_substitute_domain_for_ipv6_address_def
    by (auto intro!: template_test_substitute_passes [OF assms])
  obtain u4 a4 u6 a6 m where hosts: "url_parse T ''http://127.0.0.1:50051'' = Some u4" "url_host L u4 = Some (Ipv4 a4)"
      "url_parse T ''http://[::1]:50051'' = Some u6" "url_host L u6 = Some (Ipv6 a6)"
      "url_parse T ''mailto:admin@example.com'' = Some m" "url_host L m = None"
    using assms(1) unfolding test_strings_def by blast
  then show "passes (test_builder_error L T input error)" if "(input, error) \<in> set builder_error_cases"
    using that by (auto simp: builder_error_cases_def test_builder_error_def template_new_def)
  obtain u t where t: "url_parse T test_url = Some u"
      "template_new L (Inr u :: unit + 'u) = Inr (t :: ('u, 'uri, 'hv, unit) endpoint_template)" "et_url t = u"
      "url_as_str L u = test_url" "template_domain L t = Inr ''example.com''"
    by (rule test_url_template [OF assms(1,2)])
  show "passes (test_from_trait L T url expected)" if "(url, expected) \<in> set from_trait_cases"
    using that t hosts
    by (auto simp: from_trait_cases_def test_from_trait_def template_try_from_def template_new_def test_url_def)
  show "passes (test_debug_output L T debug_str)" if "debug_str test_url = CHR 0x22 # test_url @ [CHR 0x22]"
    using that t by (simp add: test_debug_output_def debug_template_def) (simp add: test_url_def)
qed

lemma test_setters_passes:
  fixes L :: "('u, 'uri) url_lib" and E :: "('uri, 'hv, 'tls, 'ep) endpoint_lib" and T :: "('u, 'uri, 'hv, 'ep) test_lib"
  assumes "test_strings L E T" "url_laws L" "uri_laws L" "endpoint_laws E"
  shows "passes (test_setters L E T)"
proof -
  obtain u t where t: "url_parse T test_url = Some u"
      "template_new L (Inr u :: unit + 'u) = Inr (t :: ('u, 'uri, 'hv, 'tls) endpoint_template)"
    by (rule test_url_template [OF assms(1,2)])
  have valid: "valid_url L (et_url t)" "et_tls_config t = None"
    using template_new_valid [OF t(2)] by simp_all
  have build: "passes (bind_res (template_build L E b a) (\<lambda>_. Inr ()))"
    if "et_url b = et_url t" "et_tls_config b = None" for b a
    using template_build_total [OF assms(2-4), of b a] that valid(1) by (auto simp: tls_accepted_def)
  obtain origin ua where "uri_from_str L ''http://example.net:50001'' = Some origin" "hv_from_str T ''my-user-agent'' = Some ua"
    using assms(1) unfolding test_strings_def by blast
  with t valid(2) show ?thesis
    by (simp add: test_setters_def pure_setter_defs template_user_agent_def Let_def build)
qed

section \<open>A library for the strings\<close>

text \<open>URLs as their strings, with the hosts of the tests.\<close>

definition string_urls :: "(string, string) url_lib" where
  "string_urls =
     (let host = (\<lambda>u. if u = test_url then Some (Domain ''example.com'')
                     else if u = ''mailto:admin@example.com'' then None
                     else if u = ''http://[::1]:50051'' then Some (Ipv6 1) else Some (Ipv4 0x7F000001))
      in \<lparr>url_host = host,
          url_domain = (\<lambda>u. case host u of Some (Domain d) \<Rightarrow> Some d | _ \<Rightarrow> None),
          url_cannot_be_a_base = (\<lambda>u. u = ''mailto:admin@example.com''),
          url_set_ip_host = (\<lambda>u a.
            if u = ''mailto:admin@example.com'' then None
            else Some (case a of
              V4 x \<Rightarrow> if x = 0xCB007106 then ''http://203.0.113.6:50051/foo'' else ''http://127.0.0.1:50051/foo''
            | V6 x \<Rightarrow> ''http://[2001:db8::]:50051/foo'')),
          url_as_str = id, uri_from_str = Some\<rparr>)"

definition string_parsers :: "(string, string, string, string \<times> (string, string, string) setting list) test_lib" where
  "string_parsers = \<lparr>url_parse = Some, hv_from_str = Some, ep_uri = fst\<rparr>"

lemma string_url_laws: "url_laws string_urls" "uri_laws string_urls"
  by (auto simp: url_laws_def uri_laws_def string_urls_def Let_def split: option.splits host.splits)

lemma string_urls_strings: "test_strings string_urls logged_endpoints string_parsers"
  by (simp add: test_strings_def string_urls_def string_parsers_def logged_endpoints_def ipv4_new_def test_url_def
      Let_def case_prod_beta)

lemma string_tests_pass:
  "passes (test_setters string_urls logged_endpoints string_parsers)"
  "passes (can_substitute_domain_for_ipv6_address string_urls logged_endpoints string_parsers)"
  by (rule test_setters_passes template_tests_pass string_urls_strings string_url_laws sample_laws(3))+

end
