(* ===== verification/Grpc_Model.thy ===== *)
theory Grpc_Model
  imports Prelude "HOL-Library.Sublist"
begin

text \<open>
  What \<open>soda-pool-build\<close> works on: the part of syn's syntax tree its parser looks at, its
  own model of a generated client (\<open>model.rs\<close>) and its errors (\<open>error.rs\<close>).  In the tree a
  node keeps what the parser inspects; every other node of its kind is the constructor
  named \<open>Other...\<close>, with its tokens where the generator may print it.
\<close>

section \<open>Syntax trees\<close>

type_synonym ident = string

datatype syn_type =
    TypePath "syn_type option" path
  | TypeImplTrait "type_param_bound list"
  | OtherType "string list"
and path = Path bool "path_segment list"
and path_segment = PathSegment ident path_arguments
and path_arguments = NoArguments | AngleBracketed "generic_argument list" | Parenthesized "string list"
and generic_argument = ArgType syn_type | OtherArgument "string list"
and type_param_bound = TraitBound path | OtherBound "string list"

text \<open>The flag of a path is its leading colon; a parameter keeps its type only.\<close>

datatype fn_arg = Receiver | Typed syn_type

datatype return_type = DefaultReturn | ReturnType syn_type

record impl_item_fn =
  fn_attrs :: "path list"
  fn_ident :: ident
  fn_inputs :: "fn_arg list"
  fn_output :: return_type

datatype impl_item = ImplFn impl_item_fn | OtherImplItem

record item_impl =
  impl_self_ty :: syn_type
  impl_items :: "impl_item list"

text \<open>A module has a content unless it is declared with a semicolon.\<close>

datatype item = ItemMod ident "item list option" | ItemImpl item_impl | OtherItem

fun segments :: "path \<Rightarrow> path_segment list" where
  "segments (Path _ segs) = segs"

fun segment_ident :: "path_segment \<Rightarrow> ident" where
  "segment_ident (PathSegment i _) = i"

fun segment_arguments :: "path_segment \<Rightarrow> path_arguments" where
  "segment_arguments (PathSegment _ a) = a"

text \<open>\<open>slice::last\<close>, \<open>slice::first\<close>.\<close>

definition last_opt :: "'a list \<Rightarrow> 'a option" where
  "last_opt xs = (if xs = [] then None else Some (last xs))"

definition first_opt :: "'a list \<Rightarrow> 'a option" where
  "first_opt xs = (case xs of [] \<Rightarrow> None | x # _ \<Rightarrow> Some x)"

lemma last_opt_simps [simp]:
  "last_opt [] = None" "last_opt (xs @ [x]) = Some x" "last_opt [x] = Some x"
  "last_opt (x # y # ys) = last_opt (y # ys)"
  by (simp_all add: last_opt_def)

lemma first_opt_simps [simp]: "first_opt [] = None" "first_opt (x # xs) = Some x"
  by (simp_all add: first_opt_def)

definition ends_with :: "string \<Rightarrow> string \<Rightarrow> bool" where
  "ends_with s t \<longleftrightarrow> suffix t s"

lemma ends_with_code [code]: "ends_with s t \<longleftrightarrow> drop (length s - length t) s = t"
  by (auto simp: ends_with_def suffix_def dest: sym) (metis append_take_drop_id)

lemma ends_with_append [simp]: "ends_with (s @ t) t"
  by (simp add: ends_with_def suffix_def)

section \<open>The model of a generated client\<close>

record grpc_client_method =
  gm_name :: ident
  gm_deprecated :: bool
  gm_request_type :: syn_type
  gm_response_type :: syn_type

record grpc_client_impl =
  gi_name :: ident
  gi_methods :: "grpc_client_method list"

record grpc_client_module =
  gmod_name :: ident
  gmod_clients :: "grpc_client_impl list"

record grpc_client_file =
  gf_module :: ident
  gf_client_modules :: "grpc_client_module list"

section \<open>Errors\<close>

text \<open>\<open>'ioe\<close> and \<open>'se\<close> are \<open>io::Error\<close> and \<open>syn::Error\<close>.\<close>

datatype ('ioe, 'se) builder_error =
    UnexpectedStructure
  | MissingConfiguration string
  | IoError 'ioe
  | SynError 'se
  | GrpcClientNotFound

definition missing_configuration :: "string \<Rightarrow> ('ioe, 'se) builder_error" where
  [simp]: "missing_configuration key = MissingConfiguration key"

fun display_builder_error :: "('ioe \<Rightarrow> string) \<Rightarrow> ('se \<Rightarrow> string) \<Rightarrow> ('ioe, 'se) builder_error \<Rightarrow> string" where
  "display_builder_error io se UnexpectedStructure = ''unexpected structure of basic gRPC client file''"
| "display_builder_error io se (MissingConfiguration key) = ''missing configuration: '' @ key"
| "display_builder_error io se (IoError err) = ''I/O error: '' @ io err"
| "display_builder_error io se (SynError err) = ''syn error: '' @ se err"
| "display_builder_error io se GrpcClientNotFound = ''gRPC client not found''"

fun builder_error_source :: "('ioe, 'se) builder_error \<Rightarrow> ('ioe + 'se) option" where
  "builder_error_source (IoError err) = Some (Inl err)"
| "builder_error_source (SynError err) = Some (Inr err)"
| "builder_error_source GrpcClientNotFound = None"
| "builder_error_source (MissingConfiguration _) = None"
| "builder_error_source UnexpectedStructure = None"

end
