(* ===== verification/Grpc_Parser.thy ===== *)
theory Grpc_Parser
  imports Grpc_Model
begin

text \<open>
  \<open>soda-pool-build/src/parser.rs\<close> on a parsed file: which modules, implementations and
  methods of a file that tonic-build generated are clients, and the types of their requests
  and responses.
\<close>

section \<open>Types of requests and responses\<close>

text \<open>The three functions look for one type argument of a known last segment.\<close>

fun get_result_success_type :: "return_type \<Rightarrow> ('ioe, 'se) builder_error + syn_type" where
  "get_result_success_type return_type =
     (case return_type of
        ReturnType (TypePath _ path) \<Rightarrow>
          (case last_opt (segments path) of
             Some segment \<Rightarrow>
               if segment_ident segment = ''Result'' then
                 (case segment_arguments segment of
                    AngleBracketed args \<Rightarrow>
                      (case first_opt args of
                         Some (ArgType ty) \<Rightarrow> Inr ty
                       | _ \<Rightarrow> Inl UnexpectedStructure)
                  | _ \<Rightarrow> Inl UnexpectedStructure)
               else Inl UnexpectedStructure
           | None \<Rightarrow> Inl UnexpectedStructure)
      | _ \<Rightarrow> Inl UnexpectedStructure)"

fun get_tonic_response_type :: "syn_type \<Rightarrow> ('ioe, 'se) builder_error + syn_type" where
  "get_tonic_response_type response_type =
     (case response_type of
        TypePath _ path \<Rightarrow>
          (case last_opt (segments path) of
             Some segment \<Rightarrow>
               if segment_ident segment = ''Response'' then
                 (case segment_arguments segment of
                    AngleBracketed args \<Rightarrow>
                      (case first_opt args of
                         Some (ArgType ty) \<Rightarrow> Inr ty
                       | _ \<Rightarrow> Inl UnexpectedStructure)
                  | _ \<Rightarrow> Inl UnexpectedStructure)
               else Inl UnexpectedStructure
           | None \<Rightarrow> Inl UnexpectedStructure)
      | _ \<Rightarrow> Inl UnexpectedStructure)"

fun get_into_request_type :: "syn_type \<Rightarrow> ('ioe, 'se) builder_error + syn_type" where
  "get_into_request_type request_type =
     (case request_type of
        TypePath _ path \<Rightarrow>
          (case last_opt (segments path) of
             Some segment \<Rightarrow>
               if segment_ident segment = ''IntoRequest'' then
                 (case segment_arguments segment of
                    AngleBracketed args \<Rightarrow>
                      (case first_opt args of
                         Some (ArgType ty) \<Rightarrow> Inr ty
                       | _ \<Rightarrow> Inl UnexpectedStructure)
                  | _ \<Rightarrow> Inl UnexpectedStructure)
               else Inl UnexpectedStructure
           | None \<Rightarrow> Inl UnexpectedStructure)
      | TypeImplTrait bounds \<Rightarrow>
          (case first_opt bounds of
             Some (TraitBound path) \<Rightarrow>
               (case last_opt (segments path) of
                  Some segment \<Rightarrow>
                    if segment_ident segment = ''IntoRequest'' then
                      (case segment_arguments segment of
                         AngleBracketed args \<Rightarrow>
                           (case first_opt args of
                              Some (ArgType ty) \<Rightarrow> Inr ty
                            | _ \<Rightarrow> Inl UnexpectedStructure)
                       | _ \<Rightarrow> Inl UnexpectedStructure)
                    else Inl UnexpectedStructure
                | None \<Rightarrow> Inl UnexpectedStructure)
           | _ \<Rightarrow> Inl UnexpectedStructure)
      | _ \<Rightarrow> Inl UnexpectedStructure)"

section \<open>Methods\<close>

fun parse_grpc_method :: "impl_item_fn \<Rightarrow> ('ioe, 'se) builder_error + grpc_client_method" where
  "parse_grpc_method m =
     (case fn_inputs m of
        _ # Typed request_arg_type # _ \<Rightarrow>
          bind_res (get_into_request_type request_arg_type) (\<lambda>request_type.
          bind_res (get_result_success_type (fn_output m)) (\<lambda>response_success_type.
          bind_res (get_tonic_response_type response_success_type) (\<lambda>response_type.
            Inr \<lparr>gm_name = fn_ident m,
              gm_deprecated = list_ex (\<lambda>attr. attr = Path False [PathSegment ''deprecated'' NoArguments]) (fn_attrs m),
              gm_request_type = request_type,
              gm_response_type = response_type\<rparr>)))
      | _ \<Rightarrow> Inl UnexpectedStructure)"

text \<open>\<open>warn!\<close> on a streaming request has no effect on the result.\<close>

definition is_grpc_method :: "impl_item_fn \<Rightarrow> bool" where
  "is_grpc_method m =
     (case fn_inputs m of
        Receiver # Typed first_arg_type # _ \<Rightarrow>
          (case first_arg_type of
             TypeImplTrait bounds \<Rightarrow>
               (case find_map (\<lambda>bound. case bound of TraitBound path \<Rightarrow> Some path | _ \<Rightarrow> None) bounds of
                  Some path \<Rightarrow>
                    (case segments path of
                       PathSegment ident1 _ # PathSegment ident2 _ # _ \<Rightarrow>
                         if ident1 = ''tonic'' then ident2 = ''IntoRequest'' else False
                     | _ \<Rightarrow> False)
                | None \<Rightarrow> False)
           | _ \<Rightarrow> False)
      | _ \<Rightarrow> False)"

definition find_grpc_methods :: "item_impl \<Rightarrow> impl_item_fn list" where
  "find_grpc_methods impl_item =
     filter is_grpc_method
       (List.map_filter (\<lambda>item. case item of ImplFn f \<Rightarrow> Some f | OtherImplItem \<Rightarrow> None) (impl_items impl_item))"

section \<open>Implementations and modules\<close>

definition parse_grpc_client_implementation :: "item_impl \<Rightarrow> ('ioe, 'se) builder_error + grpc_client_impl" where
  "parse_grpc_client_implementation impl_item =
     bind_res
       (case impl_self_ty impl_item of
          TypePath _ path \<Rightarrow>
            (case last_opt (segments path) of
               Some segment \<Rightarrow> Inr (segment_ident segment)
             | None \<Rightarrow> Inl UnexpectedStructure)
        | _ \<Rightarrow> Inl UnexpectedStructure)
       (\<lambda>name. map_ok (\<lambda>methods. \<lparr>gi_name = name, gi_methods = methods\<rparr>)
          (collect_results parse_grpc_method (find_grpc_methods impl_item)))"

definition is_client_type :: "item_impl \<Rightarrow> bool" where
  "is_client_type impl_item =
     (case impl_self_ty impl_item of
        TypePath _ path \<Rightarrow>
          (case last_opt (segments path) of
             Some segment \<Rightarrow> ends_with (segment_ident segment) ''Client''
           | None \<Rightarrow> False)
      | _ \<Rightarrow> False)"

definition has_new :: "item_impl \<Rightarrow> bool" where
  "has_new impl_item =
     list_ex (\<lambda>item. case item of ImplFn f \<Rightarrow> fn_ident f = ''new'' | OtherImplItem \<Rightarrow> False) (impl_items impl_item)"

definition find_client_interface_implementations :: "item list option \<Rightarrow> item_impl list" where
  "find_client_interface_implementations content =
     (case content of
        None \<Rightarrow> []
      | Some items \<Rightarrow>
          filter has_new (filter is_client_type
            (List.map_filter (\<lambda>item. case item of ItemImpl i \<Rightarrow> Some i | _ \<Rightarrow> None) items)))"

definition parse_grpc_client_module ::
  "ident \<times> item list option \<Rightarrow> ('ioe, 'se) builder_error + grpc_client_module" where
  "parse_grpc_client_module = (\<lambda>(name, content).
     map_ok (\<lambda>clients. \<lparr>gmod_name = name, gmod_clients = clients\<rparr>)
       (collect_results parse_grpc_client_implementation (find_client_interface_implementations content)))"

definition find_client_modules :: "item list \<Rightarrow> (ident \<times> item list option) list" where
  "find_client_modules items =
     filter (\<lambda>(ident, _). ends_with ident ''_client'')
       (List.map_filter (\<lambda>item. case item of ItemMod i c \<Rightarrow> Some (i, c) | _ \<Rightarrow> None) items)"

text \<open>The part of \<open>parse_grpc_client_file\<close> after the file has been read.\<close>

definition parse_grpc_client_items ::
  "item list \<Rightarrow> ('ioe, 'se) builder_error + grpc_client_module list" where
  "parse_grpc_client_items items = collect_results parse_grpc_client_module (find_client_modules items)"

section \<open>Files of the expected shape\<close>

text \<open>
  \<open>xs\<close> consists of elements that stand for \<open>ys\<close>, in this order, with any number of
  elements in between that stand for nothing.
\<close>

inductive woven :: "('a \<Rightarrow> 'b \<Rightarrow> bool) \<Rightarrow> ('b \<Rightarrow> bool) \<Rightarrow> 'a list \<Rightarrow> 'b list \<Rightarrow> bool" for R other where
  woven_Nil: "woven R other [] []"
| woven_Cons: "R y x \<Longrightarrow> woven R other ys xs \<Longrightarrow> woven R other (y # ys) (x # xs)"
| woven_other: "other x \<Longrightarrow> woven R other ys xs \<Longrightarrow> woven R other ys (x # xs)"

lemma woven_select:
  assumes "woven R other ys xs"
    and "\<And>y x. R y x \<Longrightarrow> \<exists>z. sel x = Some z \<and> Q y z" "\<And>x. other x \<Longrightarrow> sel x = None"
  shows "list_all2 Q ys (List.map_filter sel xs)"
  using assms(1)
proof induction
  case (woven_Cons y x ys xs)
  then show ?case using assms(2) [of y x] by (auto simp: List.map_filter_simps)
qed (simp_all add: assms(3) List.map_filter_simps)

lemma filter_map_filter:
  "filter P (List.map_filter sel xs) =
     List.map_filter (\<lambda>x. case sel x of None \<Rightarrow> None | Some z \<Rightarrow> if P z then Some z else None) xs"
  by (induction xs) (simp_all add: List.map_filter_simps split: option.split)

text \<open>
  The shape of a file of tonic-build, over what the parser is to find in it.  A client
  method takes its request by \<open>impl tonic::IntoRequest<T>\<close> and returns
  \<open>Result<tonic::Response<T>, E>\<close>; the other functions of the implementation take no second
  parameter by \<open>impl\<close> trait.
\<close>

definition method_shape :: "grpc_client_method \<Rightarrow> impl_item_fn \<Rightarrow> bool" where
  "method_shape m f \<longleftrightarrow> fn_ident f = gm_name m \<and>
     (gm_deprecated m \<longleftrightarrow> Path False [PathSegment ''deprecated'' NoArguments] \<in> set (fn_attrs f)) \<and>
     (\<exists>args rest colon bounds. fn_inputs f = Receiver # Typed (TypeImplTrait (TraitBound
        (Path colon [PathSegment ''tonic'' NoArguments,
           PathSegment ''IntoRequest'' (AngleBracketed (ArgType (gm_request_type m) # args))]) # bounds)) # rest) \<and>
     (\<exists>q colon prefix q' colon' prefix' args args'.
        fn_output f = ReturnType (TypePath q (Path colon (prefix @ [PathSegment ''Result'' (AngleBracketed
          (ArgType (TypePath q' (Path colon' (prefix' @ [PathSegment ''Response''
             (AngleBracketed (ArgType (gm_response_type m) # args))]))) # args'))]))))"

definition ordinary_fn :: "impl_item_fn \<Rightarrow> bool" where
  "ordinary_fn f \<longleftrightarrow> (\<forall>bounds rest. fn_inputs f \<noteq> Receiver # Typed (TypeImplTrait bounds) # rest)"

definition ordinary_impl_item :: "impl_item \<Rightarrow> bool" where
  "ordinary_impl_item x \<longleftrightarrow> (case x of ImplFn f \<Rightarrow> ordinary_fn f | OtherImplItem \<Rightarrow> True)"

definition impl_shape :: "grpc_client_impl \<Rightarrow> item_impl \<Rightarrow> bool" where
  "impl_shape c i \<longleftrightarrow> ends_with (gi_name c) ''Client'' \<and>
     (\<exists>q colon prefix args. impl_self_ty i = TypePath q (Path colon (prefix @ [PathSegment (gi_name c) args]))) \<and>
     (\<exists>n. ImplFn n \<in> set (impl_items i) \<and> fn_ident n = ''new'') \<and>
     woven (\<lambda>m x. \<exists>f. x = ImplFn f \<and> method_shape m f) ordinary_impl_item (gi_methods c) (impl_items i)"

text \<open>The other implementations of a client module declare no \<open>new\<close> (tonic's \<open>connect\<close>).\<close>

definition ordinary_item :: "item \<Rightarrow> bool" where
  "ordinary_item x \<longleftrightarrow>
     (case x of ItemImpl i \<Rightarrow> \<forall>n. ImplFn n \<in> set (impl_items i) \<longrightarrow> fn_ident n \<noteq> ''new'' | _ \<Rightarrow> True)"

definition module_shape :: "grpc_client_module \<Rightarrow> item \<Rightarrow> bool" where
  "module_shape m x \<longleftrightarrow> ends_with (gmod_name m) ''_client'' \<and>
     (\<exists>items. x = ItemMod (gmod_name m) (Some items) \<and>
        woven (\<lambda>c y. \<exists>i. y = ItemImpl i \<and> impl_shape c i) ordinary_item (gmod_clients m) items)"

definition file_shape :: "grpc_client_module list \<Rightarrow> item list \<Rightarrow> bool" where
  "file_shape ms items \<longleftrightarrow>
     woven module_shape
       (\<lambda>x. case x of ItemMod name _ \<Rightarrow> \<not> ends_with name ''_client'' | _ \<Rightarrow> True) ms items"

lemma method_shape_parse: "method_shape m f \<Longrightarrow> parse_grpc_method f = Inr m"
  by (cases m) (auto simp: method_shape_def list_ex_iff)

lemma method_shape_grpc: "method_shape m f \<Longrightarrow> is_grpc_method f"
  by (auto simp: method_shape_def is_grpc_method_def)

lemma ordinary_not_grpc: "ordinary_fn f \<Longrightarrow> \<not> is_grpc_method f"
  by (auto simp: ordinary_fn_def is_grpc_method_def split: list.splits fn_arg.splits syn_type.splits)

lemma collect_results_all2:
  "list_all2 (\<lambda>y x. f x = Inr y) ys xs \<Longrightarrow> collect_results f xs = Inr ys"
  by (induction rule: list_all2_induct) simp_all

lemma has_new_iff: "has_new i \<longleftrightarrow> (\<exists>n. ImplFn n \<in> set (impl_items i) \<and> fn_ident n = ''new'')"
proof
  assume "has_new i"
  then obtain x where "x \<in> set (impl_items i)" "case x of ImplFn f \<Rightarrow> fn_ident f = ''new'' | OtherImplItem \<Rightarrow> False"
    by (auto simp: has_new_def list_ex_iff)
  then show "\<exists>n. ImplFn n \<in> set (impl_items i) \<and> fn_ident n = ''new''" by (auto split: impl_item.splits)
next
  assume "\<exists>n. ImplFn n \<in> set (impl_items i) \<and> fn_ident n = ''new''"
  then obtain n where "ImplFn n \<in> set (impl_items i)" "fn_ident n = ''new''" by blast
  then show "has_new i" unfolding has_new_def list_ex_iff by (intro bexI [of _ "ImplFn n"]) simp_all
qed

lemma find_grpc_methods_shape:
  assumes "woven (\<lambda>m x. \<exists>f. x = ImplFn f \<and> method_shape m f) ordinary_impl_item ms (impl_items i)"
  shows "list_all2 method_shape ms (find_grpc_methods i)"
  unfolding find_grpc_methods_def filter_map_filter
  by (rule woven_select [OF assms])
     (auto simp: method_shape_grpc ordinary_impl_item_def ordinary_not_grpc split: impl_item.splits)

lemma impl_shape_parse:
  assumes "impl_shape c i"
  shows "parse_grpc_client_implementation i = Inr c" "is_client_type i" "has_new i"
proof -
  have "collect_results parse_grpc_method (find_grpc_methods i) = Inr (gi_methods c)"
    using assms find_grpc_methods_shape [of "gi_methods c" i]
    by (auto simp: impl_shape_def intro!: collect_results_all2 elim!: list_all2_mono dest: method_shape_parse)
  with assms show "parse_grpc_client_implementation i = Inr c"
    by (cases c) (auto simp: impl_shape_def parse_grpc_client_implementation_def)
  show "is_client_type i" "has_new i"
    using assms by (auto simp: impl_shape_def is_client_type_def has_new_iff)
qed

lemma module_shape_parse:
  assumes "woven (\<lambda>c y. \<exists>i. y = ItemImpl i \<and> impl_shape c i) ordinary_item (gmod_clients m) items"
  shows "parse_grpc_client_module (gmod_name m, Some items) = Inr m"
proof -
  have "list_all2 impl_shape (gmod_clients m) (find_client_interface_implementations (Some items))"
    unfolding find_client_interface_implementations_def option.case filter_map_filter
  proof (rule woven_select [OF assms], goal_cases)
    case (1 c y)
    then obtain i where "y = ItemImpl i" "impl_shape c i" by blast
    with impl_shape_parse(2,3) [of c i] show ?case by simp
  next
    case (2 x)
    then show ?case by (auto simp: ordinary_item_def has_new_iff split: item.splits)
  qed
  then have "collect_results parse_grpc_client_implementation
      (find_client_interface_implementations (Some items)) = Inr (gmod_clients m)"
    by (auto intro!: collect_results_all2 elim!: list_all2_mono dest: impl_shape_parse(1))
  then show ?thesis by (cases m) (simp add: parse_grpc_client_module_def)
qed

lemma file_shape_parse:
  assumes "file_shape ms items"
  shows "parse_grpc_client_items items = Inr ms"
proof -
  have "list_all2 (\<lambda>m x. parse_grpc_client_module x = Inr m) ms (find_client_modules items)"
    unfolding find_client_modules_def filter_map_filter
    by (rule woven_select [OF assms [unfolded file_shape_def]])
       (auto simp: module_shape_def module_shape_parse split: item.splits)
  then show ?thesis unfolding parse_grpc_client_items_def by (rule collect_results_all2)
qed

section \<open>Properties\<close>

text \<open>
  C35: from a file of the expected shape the parser recovers exactly the client modules,
  their clients and their methods, in order, with name, deprecation, request and response
  type of each method; whatever else the file has is ignored.
\<close>

theorem parse_recovers_clients:
  assumes "file_shape ms items"
  shows "parse_grpc_client_items items = Inr ms"
  using assms by (rule file_shape_parse)

text \<open>A file with one client, as tonic-build writes it, reduced to one method.\<close>

definition plain_path :: "ident list \<Rightarrow> syn_type" where
  "plain_path is = TypePath None (Path False (map (\<lambda>i. PathSegment i NoArguments) is))"

definition tonic_method :: "bool \<Rightarrow> ident \<Rightarrow> ident \<Rightarrow> syn_type \<Rightarrow> syn_type \<Rightarrow> impl_item_fn" where
  "tonic_method depr name into req resp =
     \<lparr>fn_attrs = (if depr then [Path False [PathSegment ''deprecated'' NoArguments]] else []),
      fn_ident = name,
      fn_inputs = [Receiver, Typed (TypeImplTrait [TraitBound (Path False
        [PathSegment ''tonic'' NoArguments, PathSegment into (AngleBracketed [ArgType req])])])],
      fn_output = ReturnType (TypePath None (Path False
        [PathSegment ''std'' NoArguments, PathSegment ''result'' NoArguments,
         PathSegment ''Result'' (AngleBracketed
          [ArgType (TypePath None (Path False
             [PathSegment ''tonic'' NoArguments, PathSegment ''Response'' (AngleBracketed [ArgType resp])])),
           ArgType (plain_path [''tonic'', ''Status''])])]))\<rparr>"

definition new_fn :: impl_item_fn where
  "new_fn = \<lparr>fn_attrs = [], fn_ident = ''new'', fn_inputs = [Typed (plain_path [''T''])],
     fn_output = ReturnType (plain_path [''Self''])\<rparr>"

definition health_items :: "item list" where
  "health_items = [OtherItem, ItemMod ''health_client'' (Some
     [OtherItem,
      ItemImpl \<lparr>impl_self_ty = plain_path [''HealthClient''], impl_items = [OtherImplItem]\<rparr>,
      ItemImpl \<lparr>impl_self_ty = plain_path [''HealthClient''],
        impl_items = [ImplFn new_fn, ImplFn (tonic_method True ''is_alive'' ''IntoRequest'' (OtherType [''()''])
          (plain_path [''super'', ''IsAliveResponse'']))]\<rparr>]),
     ItemMod ''health_server'' None]"

definition health_modules :: "grpc_client_module list" where
  "health_modules = [\<lparr>gmod_name = ''health_client'', gmod_clients =
     [\<lparr>gi_name = ''HealthClient'', gi_methods =
       [\<lparr>gm_name = ''is_alive'', gm_deprecated = True, gm_request_type = OtherType [''()''],
         gm_response_type = plain_path [''super'', ''IsAliveResponse'']\<rparr>]\<rparr>]\<rparr>]"

lemma tonic_method_shape:
  "method_shape \<lparr>gm_name = name, gm_deprecated = depr, gm_request_type = req, gm_response_type = resp\<rparr>
     (tonic_method depr name ''IntoRequest'' req resp)"
  by (force simp: method_shape_def tonic_method_def Cons_eq_append_conv)

lemma new_fn_ordinary: "ordinary_fn new_fn" "fn_ident new_fn = ''new''"
  by (simp_all add: ordinary_fn_def new_fn_def)

lemma health_server_no_client: "\<not> ends_with ''health_server'' ''_client''"
  by (simp add: ends_with_code)

lemma health_shape: "file_shape health_modules health_items"
proof -
  let ?new = "ImplFn new_fn" and ?m = "ImplFn (tonic_method True ''is_alive'' ''IntoRequest'' (OtherType [''()''])
          (plain_path [''super'', ''IsAliveResponse'']))"
  let ?c = "hd (gmod_clients (hd health_modules))"
  let ?i = "\<lparr>impl_self_ty = plain_path [''HealthClient''], impl_items = [?new, ?m]\<rparr>"
  have w: "woven (\<lambda>m x. \<exists>f. x = ImplFn f \<and> method_shape m f) ordinary_impl_item (gi_methods ?c) (impl_items ?i)"
  proof -
    have "woven (\<lambda>m x. \<exists>f. x = ImplFn f \<and> method_shape m f) ordinary_impl_item (gi_methods ?c) [?m]"
      using tonic_method_shape by (simp add: health_modules_def) (intro woven_Cons woven_Nil, simp)
    then show ?thesis
      using new_fn_ordinary(1) by simp (rule woven_other, simp_all add: ordinary_impl_item_def)
  qed
  have "impl_shape ?c ?i"
    unfolding impl_shape_def
  proof (intro conjI w)
    show "\<exists>q colon prefix args. impl_self_ty ?i = TypePath q (Path colon (prefix @ [PathSegment (gi_name ?c) args]))"
      by (auto simp: plain_path_def health_modules_def)
    show "\<exists>n. ImplFn n \<in> set (impl_items ?i) \<and> fn_ident n = ''new''"
      using new_fn_ordinary(2) by auto
  qed (simp add: health_modules_def ends_with_code)
  then have "woven (\<lambda>c y. \<exists>i. y = ItemImpl i \<and> impl_shape c i) ordinary_item [?c] [ItemImpl ?i]"
    by (intro woven_Cons woven_Nil exI [of _ ?i] conjI) simp_all
  moreover have "ordinary_item OtherItem"
    "ordinary_item (ItemImpl \<lparr>impl_self_ty = plain_path [''HealthClient''], impl_items = [OtherImplItem]\<rparr>)"
    by (simp_all add: ordinary_item_def)
  moreover have "gmod_clients (hd health_modules) = [?c]" by (simp add: health_modules_def)
  ultimately have "woven (\<lambda>c y. \<exists>i. y = ItemImpl i \<and> impl_shape c i) ordinary_item (gmod_clients (hd health_modules))
      [OtherItem, ItemImpl \<lparr>impl_self_ty = plain_path [''HealthClient''], impl_items = [OtherImplItem]\<rparr>, ItemImpl ?i]"
    by (simp only:) (rule woven_other, assumption)+
  then have m: "module_shape (hd health_modules) (health_items ! 1)"
    by (simp add: module_shape_def health_items_def health_modules_def ends_with_code)
  have i: "health_items = [OtherItem, health_items ! 1, ItemMod ''health_server'' None]"
    by (simp add: health_items_def)
  have "file_shape [hd health_modules] [OtherItem, health_items ! 1, ItemMod ''health_server'' None]"
    unfolding file_shape_def
    by (rule woven_other, simp, rule woven_Cons, rule m, rule woven_other,
        simp add: health_server_no_client, rule woven_Nil)
  moreover have "health_modules = [hd health_modules]" by (simp add: health_modules_def)
  ultimately show ?thesis using i by simp
qed

theorem parse_recovers_clients_witness:
  "parse_grpc_client_items health_items = Inr health_modules"
  by (rule parse_recovers_clients [OF health_shape])

text \<open>
  A client-streaming method (one that takes \<open>impl tonic::IntoStreamingRequest<T>\<close>) is
  left out without an error, so the generated client lacks it.
\<close>

lemma streaming_methods_are_dropped:
  assumes "fn_inputs f = Receiver # Typed (TypeImplTrait (TraitBound
      (Path colon (PathSegment ''tonic'' args # PathSegment ''IntoStreamingRequest'' args' # segs)) # bounds)) # rest"
  shows "parse_grpc_client_implementation (i\<lparr>impl_items := pre @ ImplFn f # post\<rparr>) =
    parse_grpc_client_implementation (i\<lparr>impl_items := pre @ post\<rparr>)"
proof -
  have "\<not> is_grpc_method f" using assms by (simp add: is_grpc_method_def)
  then have "find_grpc_methods (i\<lparr>impl_items := pre @ ImplFn f # post\<rparr>) =
      find_grpc_methods (i\<lparr>impl_items := pre @ post\<rparr>)"
    by (simp add: find_grpc_methods_def filter_map_filter List.map_filter_def)
  then show ?thesis by (simp add: parse_grpc_client_implementation_def)
qed

text \<open>
  The two functions that look at a method's request do not agree on where to look: one
  takes the first trait among the bounds, the other the first bound.  A method with another
  bound first is recognized and then refused, and with it its whole implementation.
\<close>

lemma recognized_but_refused:
  assumes "fn_inputs f = Receiver # Typed (TypeImplTrait (OtherBound b # TraitBound
      (Path colon [PathSegment ''tonic'' args, PathSegment ''IntoRequest'' args']) # bounds)) # rest"
    and "ImplFn f \<in> set (impl_items i)"
  shows "is_grpc_method f \<and> parse_grpc_method f = (Inl UnexpectedStructure :: ('ioe, 'se) builder_error + _) \<and>
    (\<nexists>c. parse_grpc_client_implementation i = (Inr c :: ('ioe, 'se) builder_error + _))"
proof -
  have g: "is_grpc_method f" and p: "parse_grpc_method f = (Inl UnexpectedStructure :: ('ioe, 'se) builder_error + _)"
    using assms(1) by (simp_all add: is_grpc_method_def)
  have "f \<in> set (find_grpc_methods i)"
    using assms(2) g by (force simp: find_grpc_methods_def List.map_filter_def)
  then have "collect_results parse_grpc_method (find_grpc_methods i) \<noteq> (Inr ms :: ('ioe, 'se) builder_error + _)" for ms
    unfolding collect_results_Inr using p by (metis in_set_conv_nth length_map nth_map sum.distinct(1))
  then have "parse_grpc_client_implementation i \<noteq> (Inr c :: ('ioe, 'se) builder_error + _)" for c
    by (auto simp: parse_grpc_client_implementation_def bind_res_eq_Inr)
  with g p show ?thesis by blast
qed

definition lifetime_first :: impl_item_fn where
  "lifetime_first = \<lparr>fn_attrs = [], fn_ident = ''echo'', fn_inputs = [Receiver, Typed (TypeImplTrait
     [OtherBound [''static''], TraitBound (Path False [PathSegment ''tonic'' NoArguments,
        PathSegment ''IntoRequest'' (AngleBracketed [ArgType (OtherType [])])])])],
     fn_output = DefaultReturn\<rparr>"

end
