(* ===== verification/Grpc_Generator.thy ===== *)
theory Grpc_Generator
  imports Grpc_Model
begin

text \<open>
  \<open>soda-pool-build/src/generator.rs\<close>: the tokens of the pooled client.  A token stream is the
  list of its tokens, delimiters included; \<open>toks\<close> reads a template written with a space
  between any two tokens.  How a type is printed is syn's, the argument \<open>ty\<close>.
\<close>

section \<open>Templates\<close>

type_synonym tokens = "string list"

fun toks_from :: "string \<Rightarrow> string \<Rightarrow> tokens" where
  "toks_from w [] = (if w = [] then [] else [w])"
| "toks_from w (c # cs) =
     (if c = CHR '' '' then (if w = [] then toks_from [] cs else w # toks_from [] cs)
      else toks_from (w @ [c]) cs)"

definition toks :: "string \<Rightarrow> tokens" where
  "toks s = toks_from [] s"

definition quoted :: "string \<Rightarrow> string" where
  "quoted s = CHR 0x22 # s @ [CHR 0x22]"

text \<open>
  \<open>ident_new\<close> is \<open>proc_macro2::Ident::new\<close>, which panics on a string that is no identifier.
  An identifier is given by its text, which for a raw one starts with \<open>r#\<close>, as \<open>format!\<close>
  prints it.  The iterators of the templates are read while the tokens are put together, so
  the first panic is the one of the first name in the order of the file.
\<close>

definition method_tokens ::
  "(string \<Rightarrow> ident may_panic) \<Rightarrow> (syn_type \<Rightarrow> tokens) \<Rightarrow> ident \<Rightarrow> grpc_client_method \<Rightarrow> tokens may_panic" where
  "method_tokens ident_new ty original_client_name self =
     bind_res (ident_new (gm_name self @ ''_with_retry'')) (\<lambda>method_name_with_retry.
      let method_name = gm_name self;
          request_param = ty (gm_request_type self);
          response_type = ty (gm_response_type self);
          attributes = (if gm_deprecated self then toks ''# [ deprecated ]'' else [])
      in Inr (attributes @
         toks ''pub async fn'' @ [method_name] @
         toks ''( & self , request : impl tonic :: IntoRequest <'' @ request_param @ toks ''> , )'' @
         toks ''-> std :: result :: Result < tonic :: Response <'' @ response_type @ toks ''> , tonic :: Status > {'' @
         toks ''# [ allow ( deprecated ) ] self .'' @ [method_name_with_retry] @
         toks '':: < soda_pool :: DefaultRetryPolicy > ( request ) . await }'' @
         attributes @
         toks ''pub async fn'' @ [method_name_with_retry] @ toks ''< RP : soda_pool :: RetryPolicy >'' @
         toks ''( & self , request : impl tonic :: IntoRequest <'' @ request_param @ toks ''> , )'' @
         toks ''-> std :: result :: Result < tonic :: Response <'' @ response_type @ toks ''> , tonic :: Status > {'' @
         toks ''let ( metadata , extensions , message ) = request . into_request ( ) . into_parts ( ) ;'' @
         toks ''let mut tries = 0 ; loop { tries += 1 ;'' @
         toks ''let ( ip_address , channel ) = self . pool . get_channel ( ) . await . ok_or_else ( | | {'' @
         toks ''tonic :: Status :: unavailable ('' @ [quoted ''No ready channels''] @ toks '') } ) ? ;'' @
         toks ''let request = tonic :: Request :: from_parts ('' @
         toks ''metadata . clone ( ) , extensions . clone ( ) , message . clone ( ) , ) ;'' @
         toks ''# [ allow ( deprecated ) ] let result ='' @ [original_client_name] @
         toks '':: new ( channel ) .'' @ [method_name] @ toks ''( request ) . await ;'' @
         toks ''match result { Ok ( response ) => { return Ok ( response ) ; } Err ( e ) => {'' @
         toks ''let ( server_status , retry_time ) = RP :: should_retry ( & e , tries ) ;'' @
         toks ''if matches ! ( server_status , soda_pool :: ServerStatus :: Dead ) {'' @
         toks ''self . pool . report_broken ( ip_address ) . await ; }'' @
         toks ''match retry_time { soda_pool :: RetryTime :: DoNotRetry => { return Err ( e ) ; }'' @
         toks ''soda_pool :: RetryTime :: Immediately => { continue ; }'' @
         toks ''soda_pool :: RetryTime :: After ( duration ) => {'' @
         toks ''soda_pool :: deps :: sleep ( duration ) . await ; } } } } } }''))"

definition impl_tokens ::
  "(string \<Rightarrow> ident may_panic) \<Rightarrow> (syn_type \<Rightarrow> tokens) \<Rightarrow> grpc_client_impl \<Rightarrow> tokens may_panic" where
  "impl_tokens ident_new ty self =
     bind_res (ident_new (gi_name self @ ''Pool'')) (\<lambda>client_pool_ident.
     bind_res (collect_results (method_tokens ident_new ty (gi_name self)) (gi_methods self)) (\<lambda>methods.
       Inr (toks ''# [ derive ( Clone ) ] pub struct'' @ [client_pool_ident] @ toks ''{'' @
         toks ''pool : std :: sync :: Arc < dyn soda_pool :: ChannelPool + Send + Sync > , }'' @
         toks ''impl'' @ [client_pool_ident] @ toks ''{'' @
         toks ''pub fn new ( pool : impl soda_pool :: ChannelPool + Send + Sync +'' @ [CHR 0x27 # ''static''] @
         toks '') -> Self { Self { pool : std :: sync :: Arc :: new ( pool ) } }'' @
         toks ''pub fn new_from_endpoint ( endpoint : soda_pool :: EndpointTemplate ) -> Self { Self {'' @
         toks ''pool : std :: sync :: Arc :: new ( soda_pool :: ManagedChannelPoolBuilder :: new ( endpoint )'' @
         toks ''. build ( ) ) , } } }'' @
         toks ''impl'' @ [client_pool_ident] @ toks ''{'' @ concat methods @ toks ''}'')))"

definition module_tokens ::
  "(string \<Rightarrow> ident may_panic) \<Rightarrow> (syn_type \<Rightarrow> tokens) \<Rightarrow> ident \<Rightarrow> grpc_client_module \<Rightarrow> tokens may_panic" where
  "module_tokens ident_new ty original_file_module self =
     bind_res (collect_results (impl_tokens ident_new ty) (gmod_clients self)) (\<lambda>clients.
       Inr (toks ''pub mod'' @ [gmod_name self] @ toks ''{ use super :: super ::'' @ [original_file_module] @
         toks ''::'' @ [gmod_name self] @ toks '':: * ;'' @ concat clients @ toks ''}''))"

definition file_tokens ::
  "(string \<Rightarrow> ident may_panic) \<Rightarrow> (syn_type \<Rightarrow> tokens) \<Rightarrow> grpc_client_file \<Rightarrow> tokens may_panic" where
  "file_tokens ident_new ty self =
     bind_res (collect_results (module_tokens ident_new ty (gf_module self)) (gf_client_modules self))
       (\<lambda>client_modules.
       Inr (toks ''# ! [ allow ( clippy :: unit_arg , clippy :: clone_on_copy , ) ] use super ::'' @
         [gf_module self] @ toks '':: * ;'' @ concat client_modules))"

section \<open>What a stream declares\<close>

definition decl_words :: "string set" where
  "decl_words = {''mod'', ''struct'', ''fn''}"

text \<open>Every keyword with the token that follows it, in order.\<close>

fun declared :: "tokens \<Rightarrow> (string \<times> string) list" where
  "declared (a # b # ts) = (if a \<in> decl_words then (a, b) # declared (b # ts) else declared (b # ts))"
| "declared _ = []"

text \<open>A piece that does not end with a keyword can be looked at alone.\<close>

definition sealed :: "tokens \<Rightarrow> bool" where
  "sealed xs \<longleftrightarrow> (xs = [] \<or> last xs \<notin> decl_words)"

lemma declared_other: "a \<notin> decl_words \<Longrightarrow> declared (a # xs) = declared xs"
  by (cases xs) simp_all

lemma declared_keyword: "a \<in> decl_words \<Longrightarrow> declared (a # b # xs) = (a, b) # declared (b # xs)"
  by simp

lemma declared_append: "sealed xs \<Longrightarrow> declared (xs @ ys) = declared xs @ declared ys"
proof (induction xs)
  case (Cons a xs)
  then show ?case by (cases xs) (auto simp: sealed_def declared_other)
qed simp

lemma sealed_append: "sealed ys \<Longrightarrow> sealed xs \<Longrightarrow> sealed (xs @ ys)"
  by (auto simp: sealed_def last_append)

lemma sealed_concat: "(\<And>x. x \<in> set xss \<Longrightarrow> sealed x) \<Longrightarrow> sealed (concat xss)"
proof (induction xss)
  case (Cons xs xss)
  then show ?case by (simp add: sealed_append)
qed (simp add: sealed_def)

lemma declared_concat:
  "(\<And>x. x \<in> set xss \<Longrightarrow> sealed x) \<Longrightarrow> declared (concat xss) = concat (map declared xss)"
  by (induction xss) (simp_all add: declared_append)

lemma no_decl_words: "set xs \<inter> decl_words = {} \<Longrightarrow> declared xs = [] \<and> sealed xs"
proof (induction xs)
  case (Cons x xs)
  then show ?case by (auto simp: declared_other sealed_def)
qed (simp add: sealed_def)

lemma sealed_tail: "ys \<noteq> [] \<Longrightarrow> sealed (xs @ ys) \<longleftrightarrow> sealed ys"
  by (simp add: sealed_def)

lemma sealed_end:
  "sealed (toks ''soda_pool :: deps :: sleep ( duration ) . await ; } } } } } }'') \<longleftrightarrow> True"
  "toks ''soda_pool :: deps :: sleep ( duration ) . await ; } } } } } }'' = [] \<longleftrightarrow> False"
  "sealed (toks ''}'') \<longleftrightarrow> True" "toks ''}'' = [] \<longleftrightarrow> False"
  by code_simp+

text \<open>
  Names of a client that are no keywords and make identifiers with their suffixes, and
  types that print without a keyword.
\<close>

definition plain_method :: "(string \<Rightarrow> ident may_panic) \<Rightarrow> (syn_type \<Rightarrow> tokens) \<Rightarrow> grpc_client_method \<Rightarrow> bool" where
  "plain_method ident_new ty m \<longleftrightarrow> gm_name m \<notin> decl_words \<and>
     ident_new (gm_name m @ ''_with_retry'') = Inr (gm_name m @ ''_with_retry'') \<and>
     set (ty (gm_request_type m)) \<inter> decl_words = {} \<and> set (ty (gm_response_type m)) \<inter> decl_words = {}"

definition plain_impl :: "(string \<Rightarrow> ident may_panic) \<Rightarrow> (syn_type \<Rightarrow> tokens) \<Rightarrow> grpc_client_impl \<Rightarrow> bool" where
  "plain_impl ident_new ty c \<longleftrightarrow> gi_name c \<notin> decl_words \<and>
     ident_new (gi_name c @ ''Pool'') = Inr (gi_name c @ ''Pool'') \<and> list_all (plain_method ident_new ty) (gi_methods c)"

definition plain_file :: "(string \<Rightarrow> ident may_panic) \<Rightarrow> (syn_type \<Rightarrow> tokens) \<Rightarrow> grpc_client_file \<Rightarrow> bool" where
  "plain_file ident_new ty f \<longleftrightarrow> gf_module f \<notin> decl_words \<and>
     list_all (\<lambda>m. gmod_name m \<notin> decl_words \<and> list_all (plain_impl ident_new ty) (gmod_clients m)) (gf_client_modules f)"

text \<open>What the model of a client promises to be declared.\<close>

definition method_decls :: "grpc_client_method \<Rightarrow> (string \<times> string) list" where
  "method_decls m = [(''fn'', gm_name m), (''fn'', gm_name m @ ''_with_retry'')]"

definition impl_decls :: "grpc_client_impl \<Rightarrow> (string \<times> string) list" where
  "impl_decls c = (''struct'', gi_name c @ ''Pool'') # (''fn'', ''new'') # (''fn'', ''new_from_endpoint'') #
     concat (map method_decls (gi_methods c))"

definition module_decls :: "grpc_client_module \<Rightarrow> (string \<times> string) list" where
  "module_decls m = (''mod'', gmod_name m) # concat (map impl_decls (gmod_clients m))"

lemma suffixed_no_keyword: "x @ ''_with_retry'' \<notin> decl_words" "x @ ''Pool'' \<notin> decl_words"
proof -
  have "length y \<le> 6 \<and> last y \<noteq> CHR ''y'' \<and> last y \<noteq> CHR ''l''" if "y \<in> decl_words" for y
    using that by (auto simp: decl_words_def)
  then show "x @ ''_with_retry'' \<notin> decl_words" "x @ ''Pool'' \<notin> decl_words" by fastforce+
qed

lemma in_decl_words: "a \<in> decl_words \<longleftrightarrow> a = ''mod'' \<or> a = ''struct'' \<or> a = ''fn''"
  by (simp add: decl_words_def)

text \<open>A stream that is there, declares what it should and can be put before another.\<close>

definition declares :: "tokens may_panic \<Rightarrow> (string \<times> string) list \<Rightarrow> bool" where
  "declares r ds \<longleftrightarrow> (\<exists>ts. r = Inr ts \<and> declared ts = ds \<and> sealed ts)"

lemma declares_collect:
  assumes "\<And>x. x \<in> set xs \<Longrightarrow> declares (f x) (d x)"
  obtains tss where "collect_results f xs = Inr tss" "declared (concat tss) = concat (map d xs)" "sealed (concat tss)"
proof -
  obtain g where g: "\<And>x. x \<in> set xs \<Longrightarrow> f x = Inr (g x) \<and> declared (g x) = d x \<and> sealed (g x)"
    using assms unfolding declares_def by metis
  then have s: "sealed y" if "y \<in> set (map g xs)" for y using that by auto
  have "map declared (map g xs) = map d xs" using g by simp
  then have "declared (concat (map g xs)) = concat (map d xs)" using declared_concat s by metis
  with g s show thesis
    by (intro that [of "map g xs"] collect_results_total sealed_concat) auto
qed

lemmas declared_rules = toks_def quoted_def Let_def in_decl_words declared_other declared_append declared_keyword

lemma declares_method:
  assumes "plain_method ident_new ty m" "c \<notin> decl_words"
  shows "declares (method_tokens ident_new ty c m) (method_decls m)"
proof -
  note ty = no_decl_words [of "ty (gm_request_type m)"] no_decl_words [of "ty (gm_response_type m)"]
  have n: "ident_new (gm_name m @ ''_with_retry'') = Inr (gm_name m @ ''_with_retry'')"
    using assms(1) by (simp add: plain_method_def)
  obtain ts where ts: "method_tokens ident_new ty c m = Inr ts" by (simp add: method_tokens_def n Let_def)
  have "declared ts = method_decls m"
    using ts assms ty unfolding plain_method_def method_tokens_def method_decls_def
    by (auto simp: declared_rules simp del: declared.simps(1))
  moreover have "sealed ts"
    using ts unfolding method_tokens_def n bind_res.simps Let_def sum.inject
    by (elim subst) (simp only: sealed_tail sealed_end append_is_Nil_conv simp_thms)
  ultimately show ?thesis using ts by (simp add: declares_def)
qed

lemma declares_impl:
  assumes "plain_impl ident_new ty c"
  shows "declares (impl_tokens ident_new ty c) (impl_decls c)"
proof -
  have n: "ident_new (gi_name c @ ''Pool'') = Inr (gi_name c @ ''Pool'')" "gi_name c \<notin> decl_words"
    using assms by (simp_all add: plain_impl_def)
  have m: "declares (method_tokens ident_new ty (gi_name c) m) (method_decls m)" if "m \<in> set (gi_methods c)" for m
    using assms that by (intro declares_method) (auto simp: plain_impl_def list_all_iff)
  obtain tss where tss: "collect_results (method_tokens ident_new ty (gi_name c)) (gi_methods c) = Inr tss"
      "declared (concat tss) = concat (map method_decls (gi_methods c))" "sealed (concat tss)"
    by (rule declares_collect [OF m])
  show ?thesis
    using suffixed_no_keyword(2) [of "gi_name c"] tss n unfolding declares_def impl_tokens_def impl_decls_def
    by (auto simp: declared_rules sealed_tail simp del: declared.simps(1)) (auto simp: sealed_def decl_words_def)
qed

lemma declares_module:
  assumes "gmod_name m \<notin> decl_words" "orig \<notin> decl_words" "list_all (plain_impl ident_new ty) (gmod_clients m)"
  shows "declares (module_tokens ident_new ty orig m) (module_decls m)"
proof -
  have c: "declares (impl_tokens ident_new ty c) (impl_decls c)" if "c \<in> set (gmod_clients m)" for c
    using assms(3) that by (intro declares_impl) (auto simp: list_all_iff)
  obtain tss where tss: "collect_results (impl_tokens ident_new ty) (gmod_clients m) = Inr tss"
      "declared (concat tss) = concat (map impl_decls (gmod_clients m))" "sealed (concat tss)"
    by (rule declares_collect [OF c])
  show ?thesis
    using tss assms unfolding declares_def module_tokens_def module_decls_def
    by (auto simp: declared_rules sealed_tail simp del: declared.simps(1)) (auto simp: sealed_def decl_words_def)
qed

text \<open>A name that makes no identifier ends the generation of the whole file.\<close>

lemma file_tokens_panics:
  assumes "m \<in> set (gf_client_modules f)" "c \<in> set (gmod_clients m)" "x \<in> set (gi_methods c)"
    and "\<exists>e. ident_new (gm_name x @ ''_with_retry'') = Inl e"
  shows "\<exists>e. file_tokens ident_new ty f = Inl e"
proof -
  obtain e where "ident_new (gm_name x @ ''_with_retry'') = Inl e" using assms(4) by blast
  then have "method_tokens ident_new ty (gi_name c) x = Inl e"
    by (rule trans [OF method_tokens_def bind_res_InlI])
  from collect_results_fails [OF assms(3), where f = "method_tokens ident_new ty (gi_name c)", OF this]
  have "\<exists>e. impl_tokens ident_new ty c = Inl e"
    unfolding impl_tokens_def by (cases "ident_new (gi_name c @ ''Pool'')") (auto intro: bind_res_InlI)
  then obtain e where "impl_tokens ident_new ty c = Inl e" ..
  from collect_results_fails [OF assms(2), where f = "impl_tokens ident_new ty", OF this]
  obtain e where "module_tokens ident_new ty (gf_module f) m = Inl e" by (auto simp: module_tokens_def)
  from collect_results_fails [OF assms(1), where f = "module_tokens ident_new ty (gf_module f)", OF this]
  show ?thesis by (auto simp: file_tokens_def)
qed

section \<open>Properties\<close>

text \<open>
  What the generated file declares, in order: for every client module a module of its
  name, in it for every client a structure with the client's name and \<open>Pool\<close>, its two
  constructors, and for every method a function of its name and one with \<open>_with_retry\<close>;
  and nothing else.  (No name is one of the three keywords, no type prints one, and the
  suffixed names are identifiers.)
\<close>

lemma generated_declarations:
  assumes "plain_file ident_new ty f"
  shows "\<exists>ts. file_tokens ident_new ty f = Inr ts \<and>
    declared ts = concat (map (\<lambda>m. (''mod'', gmod_name m) # concat (map (\<lambda>c.
        (''struct'', gi_name c @ ''Pool'') # (''fn'', ''new'') # (''fn'', ''new_from_endpoint'') #
        concat (map (\<lambda>x. [(''fn'', gm_name x), (''fn'', gm_name x @ ''_with_retry'')]) (gi_methods c)))
        (gmod_clients m))) (gf_client_modules f))"
proof -
  have m: "declares (module_tokens ident_new ty (gf_module f) m) (module_decls m)" if "m \<in> set (gf_client_modules f)" for m
    using assms that by (intro declares_module) (auto simp: plain_file_def list_all_iff)
  obtain tss where tss: "collect_results (module_tokens ident_new ty (gf_module f)) (gf_client_modules f) = Inr tss"
      "declared (concat tss) = concat (map module_decls (gf_client_modules f))" "sealed (concat tss)"
    by (rule declares_collect [OF m])
  have "gf_module f \<notin> decl_words" using assms by (simp add: plain_file_def)
  with tss show ?thesis
    unfolding file_tokens_def module_decls_def [abs_def] impl_decls_def [abs_def] method_decls_def [abs_def]
    by (auto simp: declared_rules simp del: declared.simps(1))
qed

end
