(* ===== verification/Build_Driver.thy ===== *)
theory Build_Driver
  imports Grpc_Parser Grpc_Generator
begin

text \<open>
  \<open>soda-pool-build/src/lib.rs\<close>: the builder that reads the clients tonic-build generated and
  writes the pooled ones beside them, with \<open>parse_grpc_client_file\<close> of \<open>parser.rs\<close> and the
  operations of \<open>std::path\<close> (on Unix, for UTF-8 names) that they use.
\<close>

section \<open>Paths\<close>

text \<open>Whether a path is absolute, and its components.\<close>

type_synonym fpath = "bool \<times> string list"

definition file_name :: "fpath \<Rightarrow> string option" where
  "file_name p = (if snd p = [] \<or> last (snd p) = ''..'' then None else Some (last (snd p)))"

text \<open>A name is split at its last dot, unless that is its first character.\<close>

definition rsplit_dot :: "string \<Rightarrow> string \<times> string option" where
  "rsplit_dot name =
     (let ext = rev (takeWhile (\<lambda>c. c \<noteq> CHR ''.'') (rev name));
          rest = rev (dropWhile (\<lambda>c. c \<noteq> CHR ''.'') (rev name))
      in if length rest \<le> 1 then (name, None) else (butlast rest, Some ext))"

definition file_stem :: "fpath \<Rightarrow> string option" where
  "file_stem p = map_option (\<lambda>n. fst (rsplit_dot n)) (file_name p)"

definition extension :: "fpath \<Rightarrow> string option" where
  "extension p = (case file_name p of None \<Rightarrow> None | Some n \<Rightarrow> snd (rsplit_dot n))"

definition with_file_name :: "fpath \<Rightarrow> string \<Rightarrow> fpath" where
  "with_file_name p name = (fst p, (if file_name p = None then snd p else butlast (snd p)) @ [name])"

text \<open>For an extension that is not empty.\<close>

definition with_extension :: "fpath \<Rightarrow> string \<Rightarrow> fpath" where
  "with_extension p ext =
     (case file_stem p of
        None \<Rightarrow> p
      | Some stem \<Rightarrow> (fst p, butlast (snd p) @ [stem @ ''.'' @ ext]))"

definition is_relative :: "fpath \<Rightarrow> bool" where
  "is_relative p \<longleftrightarrow> \<not> fst p"

definition join_path :: "fpath \<Rightarrow> fpath \<Rightarrow> fpath" where
  "join_path p q = (if fst q then q else (fst p, snd p @ snd q))"

definition ascii_lower :: "char \<Rightarrow> char" where
  "ascii_lower c = (let n = of_char c :: nat in if 65 \<le> n \<and> n \<le> 90 then char_of (n + 32) else c)"

definition eq_ignore_ascii_case :: "string \<Rightarrow> string \<Rightarrow> bool" where
  "eq_ignore_ascii_case s t \<longleftrightarrow> map ascii_lower s = map ascii_lower t"

section \<open>The file system and the libraries\<close>

text \<open>
  A file system is its regular files.  Reading a file or a directory may fail whatever the
  file system holds; a failing write is one the code does not survive.
\<close>

type_synonym fs = "fpath \<Rightarrow> string option"

text \<open>An entry of a directory listing: its name and whether it is a regular file.\<close>

type_synonym 'ioe dir_entry = "'ioe + string \<times> ('ioe + bool)"

record ('ioe, 'se, 'file) build_env =
  parse_ident :: "string \<Rightarrow> 'se + ident"
  parse_file :: "string \<Rightarrow> 'se + item list"
  parse2 :: "tokens \<Rightarrow> 'se + 'file"
  unparse :: "'file \<Rightarrow> string"
  ident_new :: "string \<Rightarrow> ident may_panic"
  type_tokens :: "syn_type \<Rightarrow> tokens"
  not_found :: "string \<Rightarrow> 'ioe"
  read_error :: "fpath \<Rightarrow> 'ioe option"
  write_fails :: "fpath \<Rightarrow> bool"
  read_dir :: "fpath \<Rightarrow> fs \<Rightarrow> 'ioe + 'ioe dir_entry list"
  display_path :: "fpath \<Rightarrow> string"

section \<open>Reading a client file\<close>

definition parse_grpc_client_file ::
  "('ioe, 'se, 'file) build_env \<Rightarrow> fs \<Rightarrow> fpath \<Rightarrow>
     (('ioe, 'se) builder_error + grpc_client_file) may_panic"
where
  "parse_grpc_client_file env fs client_file =
     (case fs client_file of
        None \<Rightarrow> Inr (Inl (IoError (not_found env (''File not found: '' @ display_path env client_file))))
      | Some raw_contents \<Rightarrow>
          bind_res (expect ''input must be a file'' (file_stem client_file)) (\<lambda>name. Inr (
            bind_res (map_err SynError (parse_ident env name)) (\<lambda>file_module.
            bind_res (case read_error env client_file of
                        Some e \<Rightarrow> Inl (IoError e) | None \<Rightarrow> Inr raw_contents) (\<lambda>raw_contents.
            bind_res (map_err SynError (parse_file env raw_contents)) (\<lambda>items.
            bind_res (parse_grpc_client_items items) (\<lambda>client_modules.
              Inr \<lparr>gf_module = file_module, gf_client_modules = client_modules\<rparr>)))))))"

section \<open>The builder\<close>

record soda_pool_builder =
  builder_dir :: "fpath option"

definition configure :: soda_pool_builder where
  "configure = \<lparr>builder_dir = None\<rparr>"

definition builder_default :: soda_pool_builder where
  "builder_default = \<lparr>builder_dir = None\<rparr>"

definition soda_pool_builder_new :: soda_pool_builder where
  "soda_pool_builder_new = builder_default"

definition set_dir :: "fpath \<Rightarrow> soda_pool_builder \<Rightarrow> soda_pool_builder" where
  "set_dir d self = self\<lparr>builder_dir := Some d\<rparr>"

text \<open>The result of an operation and the file system it leaves.\<close>

type_synonym ('ioe, 'se, 'a) built = "((('ioe, 'se) builder_error + 'a) \<times> fs) may_panic"

definition generated_marker :: string where
  "generated_marker = ''// This file is @generated by soda-pool-build.'' @ [CHR 0x0A]"

definition build_client ::
  "('ioe, 'se, 'file) build_env \<Rightarrow> fpath \<Rightarrow> fpath \<Rightarrow> fs \<Rightarrow> ('ioe, 'se, unit) built"
where
  "build_client env dir service fs =
     (let service_filename = with_extension service ''rs'';
          service_file = (if is_relative service_filename then join_path dir service_filename else service_filename)
      in bind_res (parse_grpc_client_file env fs service_file) (\<lambda>parsed.
         case parsed of
           Inl e \<Rightarrow> Inr (Inl e, fs)
         | Inr structure \<Rightarrow>
             if list_all (\<lambda>m. gmod_clients m = []) (gf_client_modules structure)
             then Inr (Inl GrpcClientNotFound, fs)
             else bind_res (file_tokens (ident_new env) (type_tokens env) structure) (\<lambda>output.
               (case map_err SynError (parse2 env output) of
                  Inl e \<Rightarrow> Inr (Inl e, fs)
                | Inr file \<Rightarrow>
                    bind_res (expect ''`service_file` is already certain to hold path to a file by previous check''
                                (file_stem service_file)) (\<lambda>stem.
                      let output_file = with_file_name service_file (stem @ ''_pool.rs'')
                      in if write_fails env output_file
                         then Inl (ExpectFailed ''called `Result::unwrap()` on an `Err` value'')
                         else Inr (Inr (), fs(output_file \<mapsto> generated_marker @ unparse env file)))))))"

fun build_each ::
  "('ioe, 'se, 'file) build_env \<Rightarrow> fpath \<Rightarrow> fpath list \<Rightarrow> fs \<Rightarrow> ('ioe, 'se, unit) built"
where
  "build_each env dir [] fs = Inr (Inr (), fs)"
| "build_each env dir (service # services) fs =
     bind_res (build_client env dir service fs) (\<lambda>(r, fs).
       case r of Inl e \<Rightarrow> Inr (Inl e, fs) | Inr () \<Rightarrow> build_each env dir services fs)"

definition build_clients ::
  "('ioe, 'se, 'file) build_env \<Rightarrow> soda_pool_builder \<Rightarrow> fpath list \<Rightarrow> fs \<Rightarrow> ('ioe, 'se, unit) built"
where
  "build_clients env self services fs =
     (case builder_dir self of
        None \<Rightarrow> Inr (Inl (missing_configuration ''dir''), fs)
      | Some dir \<Rightarrow> build_each env dir services fs)"

fun build_entries ::
  "('ioe, 'se, 'file) build_env \<Rightarrow> soda_pool_builder \<Rightarrow> fpath \<Rightarrow> 'ioe dir_entry list \<Rightarrow> fs \<Rightarrow>
     ('ioe, 'se, unit) built"
where
  "build_entries env self dir [] fs = Inr (Inr (), fs)"
| "build_entries env self dir (Inl e # entries) fs = Inr (Inl (IoError e), fs)"
| "build_entries env self dir (Inr (name, Inl e) # entries) fs = Inr (Inl (IoError e), fs)"
| "build_entries env self dir (Inr (name, Inr is_file) # entries) fs =
     (if \<not> is_file then build_entries env self dir entries fs
      else
        (let path = join_path dir (False, [name])
         in if (case extension path of None \<Rightarrow> False | Some ext \<Rightarrow> eq_ignore_ascii_case ext ''rs'')
            then
              bind_res (expect ''We have checked that this is a file so it must have a name'' (file_name path))
                (\<lambda>n. bind_res (build_clients env self [(False, [n])] fs) (\<lambda>(r, fs).
                   case r of
                     Inr () \<Rightarrow> build_entries env self dir entries fs
                   | Inl GrpcClientNotFound \<Rightarrow> build_entries env self dir entries fs
                   | Inl e \<Rightarrow> Inr (Inl e, fs)))
            else build_entries env self dir entries fs))"

definition build_all_clients ::
  "('ioe, 'se, 'file) build_env \<Rightarrow> soda_pool_builder \<Rightarrow> fs \<Rightarrow> ('ioe, 'se, unit) built"
where
  "build_all_clients env self fs =
     (case builder_dir self of
        None \<Rightarrow> Inr (Inl (missing_configuration ''dir''), fs)
      | Some dir \<Rightarrow>
          (case read_dir env dir fs of
             Inl e \<Rightarrow> Inr (Inl (IoError e), fs)
           | Inr entries \<Rightarrow> build_entries env self dir entries fs))"

section \<open>Names\<close>

lemma rsplit_dot_ext:
  assumes "a \<noteq> []" "CHR ''.'' \<notin> set b"
  shows "rsplit_dot (a @ ''.'' @ b) = (a, Some b)"
proof -
  have "takeWhile (\<lambda>c. c \<noteq> CHR ''.'') (rev (a @ ''.'' @ b)) = rev b"
    "dropWhile (\<lambda>c. c \<noteq> CHR ''.'') (rev (a @ ''.'' @ b)) = rev (a @ ''.'')"
    using assms(2) by (auto simp: takeWhile_append dropWhile_append)
  with assms(1) show ?thesis by (simp add: rsplit_dot_def Let_def)
qed

lemma rsplit_dot_none: "CHR ''.'' \<notin> set a \<Longrightarrow> rsplit_dot a = (a, None)"
proof -
  assume "CHR ''.'' \<notin> set a"
  then have d: "dropWhile (\<lambda>c. c \<noteq> CHR ''.'') (rev a) = []" by (auto simp: dropWhile_eq_Nil_conv)
  show ?thesis unfolding rsplit_dot_def Let_def d by simp
qed

lemma file_name_ext: "b \<noteq> [] \<Longrightarrow> last b \<noteq> CHR ''.'' \<Longrightarrow> file_name (r, cs @ [a @ ''.'' @ b]) = Some (a @ ''.'' @ b)"
  by (auto simp: file_name_def) (metis last.simps last_append list.distinct(1))

text \<open>Names with the extension \<open>rs\<close>, and the same in a directory.\<close>

lemma rs_name [simp]:
  assumes "a \<noteq> []"
  shows "file_name (r, cs @ [a @ ''.rs'']) = Some (a @ ''.rs'')" "file_stem (r, cs @ [a @ ''.rs'']) = Some a"
    "extension (r, cs @ [a @ ''.rs'']) = Some ''rs''"
    "with_extension (r, cs @ [a @ ''.rs'']) ''rs'' = (r, cs @ [a @ ''.rs''])"
    "with_file_name (r, cs @ [a @ ''.rs'']) n = (r, cs @ [n])"
proof -
  show n: "file_name (r, cs @ [a @ ''.rs'']) = Some (a @ ''.rs'')"
    using file_name_ext [of "''rs''" r cs a] by simp
  have "rsplit_dot (a @ ''.rs'') = (a, Some ''rs'')"
    using rsplit_dot_ext [OF assms, of "''rs''"] by simp
  with n show "file_stem (r, cs @ [a @ ''.rs'']) = Some a" "extension (r, cs @ [a @ ''.rs'']) = Some ''rs''"
    by (simp_all add: file_stem_def extension_def)
  then show "with_extension (r, cs @ [a @ ''.rs'']) ''rs'' = (r, cs @ [a @ ''.rs''])"
    by (simp add: with_extension_def)
  show "with_file_name (r, cs @ [a @ ''.rs'']) n = (r, cs @ [n])" using n by (simp add: with_file_name_def)
qed

lemmas rs_name_alone [simp] = rs_name [where cs = "[]", unfolded append_Nil]

lemma plain_stem [simp]:
  assumes "a \<noteq> []" "CHR ''.'' \<notin> set a"
  shows "with_extension (r, [a]) ''rs'' = (r, [a @ ''.rs''])"
  using assms by (auto simp: with_extension_def file_stem_def file_name_def rsplit_dot_none)

definition client_path :: "fpath \<Rightarrow> ident \<Rightarrow> fpath" where
  "client_path dir stem = (fst dir, snd dir @ [stem @ ''.rs''])"

text \<open>A build of the file with the given stem, once its path has been found.\<close>

lemma build_client_stem:
  assumes "stem \<noteq> []" "with_extension (False, [n]) ''rs'' = (False, [stem @ ''.rs''])"
  shows "build_client env dir (False, [n]) fs =
    bind_res (parse_grpc_client_file env fs (client_path dir stem)) (\<lambda>parsed.
         case parsed of
           Inl e \<Rightarrow> Inr (Inl e, fs)
         | Inr structure \<Rightarrow>
             if list_all (\<lambda>m. gmod_clients m = []) (gf_client_modules structure)
             then Inr (Inl GrpcClientNotFound, fs)
             else bind_res (file_tokens (ident_new env) (type_tokens env) structure) (\<lambda>output.
               (case map_err SynError (parse2 env output) of
                  Inl e \<Rightarrow> Inr (Inl e, fs)
                | Inr file \<Rightarrow>
                      if write_fails env (fst dir, snd dir @ [stem @ ''_pool.rs''])
                         then Inl (ExpectFailed ''called `Result::unwrap()` on an `Err` value'')
                         else Inr (Inr (), fs((fst dir, snd dir @ [stem @ ''_pool.rs'']) \<mapsto>
                           generated_marker @ unparse env file)))))"
  using assms
  by (simp add: build_client_def is_relative_def join_path_def client_path_def Let_def
      cong: sum.case_cong if_cong)

lemma parse_client_path:
  assumes "stem \<noteq> []" "fs (client_path dir stem) = Some raw"
  shows "parse_grpc_client_file env fs (client_path dir stem) = Inr (
            bind_res (map_err SynError (parse_ident env stem)) (\<lambda>file_module.
            bind_res (case read_error env (client_path dir stem) of
                        Some e \<Rightarrow> Inl (IoError e) | None \<Rightarrow> Inr raw) (\<lambda>raw_contents.
            bind_res (map_err SynError (parse_file env raw_contents)) (\<lambda>items.
            bind_res (parse_grpc_client_items items) (\<lambda>client_modules.
              Inr \<lparr>gf_module = file_module, gf_client_modules = client_modules\<rparr>)))))"
  using assms(1,2) unfolding parse_grpc_client_file_def client_path_def by simp

lemma build_entries_rs:
  assumes "builder_dir self = Some dir" "stem \<noteq> []"
  shows "build_entries env self dir (Inr (stem @ ''.rs'', Inr True) # rest) fs =
    bind_res (build_client env dir (False, [stem @ ''.rs'']) fs) (\<lambda>(r, fs).
       case r of
         Inr () \<Rightarrow> build_entries env self dir rest fs
       | Inl GrpcClientNotFound \<Rightarrow> build_entries env self dir rest fs
       | Inl e \<Rightarrow> Inr (Inl e, fs))"
proof -
  have entry: "build_entries env self dir (Inr (stem @ ''.rs'', Inr True) # rest) fs =
      bind_res (build_each env dir [(False, [stem @ ''.rs''])] fs) (\<lambda>(r, fs). case r of
           Inr () \<Rightarrow> build_entries env self dir rest fs
         | Inl GrpcClientNotFound \<Rightarrow> build_entries env self dir rest fs
         | Inl e \<Rightarrow> Inr (Inl e, fs))"
    using assms by (simp add: Let_def join_path_def build_clients_def eq_ignore_ascii_case_def del: build_each.simps)
  show ?thesis
  proof (cases "build_client env dir (False, [stem @ ''.rs'']) fs")
    case (Inl p)
    then show ?thesis unfolding entry by simp
  next
    case (Inr x)
    obtain r fs' where "x = (r, fs')" by fastforce
    with Inr show ?thesis unfolding entry by (cases r) (simp_all split: unit.split)
  qed
qed

section \<open>Properties\<close>

text \<open>
  Libraries for concrete runs: an identifier has no dot, and no \<open>#\<close> where \<open>Ident::new\<close>
  makes it; a file with the content
  \<open>client\<close> parses to one client and every other file to what the builder makes of it, and a
  printed file is its tokens.
\<close>

definition pooled_items :: "item list" where
  "pooled_items = [OtherItem, ItemMod ''health_client'' (Some [OtherItem,
     ItemImpl \<lparr>impl_self_ty = plain_path [''HealthClientPool''], impl_items = [ImplFn new_fn]\<rparr>])]"

definition sample_build :: "(string, string, tokens) build_env" where
  "sample_build =
     \<lparr>parse_ident = (\<lambda>s. if CHR ''.'' \<in> set s then Inl ''not an identifier'' else Inr s),
      parse_file = (\<lambda>s. Inr (if s = ''client'' then health_items else pooled_items)),
      parse2 = Inr, unparse = concat,
      ident_new = (\<lambda>s. if CHR ''#'' \<in> set s then Inl (Panicked s) else Inr s), type_tokens = (\<lambda>_. [''T'']), not_found = id,
      read_error = (\<lambda>_. None), write_fails = (\<lambda>_. False), read_dir = (\<lambda>_ _. Inr []),
      display_path = (\<lambda>p. concat (snd p))\<rparr>"

text \<open>A client whose only method is called \<open>type\<close>.\<close>

definition keyword_method :: grpc_client_method where
  "keyword_method = \<lparr>gm_name = ''r#type'', gm_deprecated = False,
     gm_request_type = OtherType [''()''], gm_response_type = OtherType [''()'']\<rparr>"

definition keyword_client :: grpc_client_impl where
  "keyword_client = \<lparr>gi_name = ''HealthClient'', gi_methods = [keyword_method]\<rparr>"

definition keyword_items :: "item list" where
  "keyword_items = [ItemMod ''health_client'' (Some [ItemImpl \<lparr>impl_self_ty = plain_path [''HealthClient''],
     impl_items = [ImplFn new_fn, ImplFn (tonic_method False ''r#type'' ''IntoRequest'' (OtherType [''()'']) (OtherType [''()'']))]\<rparr>])]"

lemma keyword_parse:
  "parse_grpc_client_items keyword_items =
    (Inr [\<lparr>gmod_name = ''health_client'', gmod_clients = [keyword_client]\<rparr>] :: ('ioe, 'se) builder_error + _)"
  by (simp add: keyword_items_def keyword_client_def keyword_method_def parse_grpc_client_items_def
      find_client_modules_def List.map_filter_simps parse_grpc_client_module_def ends_with_code
      find_client_interface_implementations_def is_client_type_def has_new_def plain_path_def new_fn_def
      parse_grpc_client_implementation_def find_grpc_methods_def is_grpc_method_def tonic_method_def)

abbreviation gen_builder :: soda_pool_builder where
  "gen_builder \<equiv> \<lparr>builder_dir = Some (True, [''gen''])\<rparr>"

text \<open>
  Building one client, named with or without the extension \<open>rs\<close> (a name without dots),
  reads \<open><dir>/<name>.rs\<close> and, when everything on the way succeeds, writes the marked and
  printed pooled version to \<open><dir>/<name>_pool.rs\<close> and touches no other file.
\<close>

lemma build_client_writes_pool_file:
  assumes "builder_dir self = Some dir" "stem \<noteq> []" "CHR ''.'' \<notin> set stem"
    and "fs (client_path dir stem) = Some raw" "read_error env (client_path dir stem) = None"
    and "parse_ident env stem = Inr i" "parse_file env raw = Inr items"
    and "parse_grpc_client_items items = (Inr ms :: ('ioe, 'se) builder_error + _)"
    and "m \<in> set ms" "gmod_clients m \<noteq> []"
    and "file_tokens (ident_new env) (type_tokens env) \<lparr>gf_module = i, gf_client_modules = ms\<rparr> = Inr out"
    and "parse2 env out = Inr file"
    and "\<not> write_fails env (fst dir, snd dir @ [stem @ ''_pool.rs''])"
  shows "build_clients env self [(False, [stem])] fs = build_clients env self [(False, [stem @ ''.rs''])] fs \<and>
    build_clients env self [(False, [stem])] fs =
      (Inr (Inr (), fs((fst dir, snd dir @ [stem @ ''_pool.rs'']) \<mapsto> generated_marker @ unparse env file))
         :: ('ioe, 'se, unit) built)"
proof -
  have parse: "parse_grpc_client_file env fs (client_path dir stem) =
      (Inr (Inr \<lparr>gf_module = i, gf_client_modules = ms\<rparr>) :: (('ioe, 'se) builder_error + _) may_panic)"
    using assms(5-8) by (simp add: parse_client_path [of stem fs dir raw, OF assms(2,4)])
  have "\<not> list_all (\<lambda>m. gmod_clients m = []) ms" using assms(9,10) by (auto simp: list_all_iff)
  with parse assms(1-3,11-13) show ?thesis
    by (simp add: build_clients_def build_client_stem [of stem] del: fun_upd_apply split: unit.split)
qed

text \<open>
  A file whose name has a dot besides the extension (tonic-build writes one for every
  dotted protobuf package) stops the build of the whole directory with a syntax error,
  whether or not it has clients: the stem is parsed as an identifier before anything else.
\<close>

lemma dotted_file_stops_build:
  assumes "builder_dir self = Some dir" "stem \<noteq> []" "fs (client_path dir stem) = Some raw"
    and "parse_ident env stem = Inl e"
  shows "build_entries env self dir (Inr (stem @ ''.rs'', Inr True) # rest) fs = Inr (Inl (SynError e), fs)"
  using assms(4)
  unfolding build_entries_rs [OF assms(1,2)] build_client_stem [OF assms(2) rs_name_alone(4) [OF assms(2)]]
    parse_client_path [of stem fs dir raw, OF assms(2,3)] by simp

text \<open>
  The extension of a directory entry is compared without regard to case, but the file
  that is then read always has the extension \<open>rs\<close>: an entry \<open><name>.RS\<close> stops the build of
  the directory with an I/O error where names are case sensitive.
\<close>

lemma upper_case_extension_stops_build:
  assumes "builder_dir self = Some dir" "stem \<noteq> []" "fs (client_path dir stem) = None"
  shows "\<exists>e. build_entries env self dir (Inr (stem @ ''.RS'', Inr True) # rest) fs = Inr (Inl (IoError e), fs)"
proof -
  have d: "rsplit_dot (stem @ ''.RS'') = (stem, Some ''RS'')"
    using rsplit_dot_ext [OF assms(2), of "''RS''"] by simp
  have n: "file_name (r, cs @ [stem @ ''.RS'']) = Some (stem @ ''.RS'')" for r cs
    using file_name_ext [of "''RS''" r cs stem] by simp
  have w: "with_extension (False, [stem @ ''.RS'']) ''rs'' = (False, [stem @ ''.rs''])"
    using n [of False "[]"] d by (simp add: with_extension_def file_stem_def)
  have "eq_ignore_ascii_case ''RS'' ''rs''" by code_simp
  then show ?thesis
    using assms(1,3) n [of "fst dir" "snd dir"] d
    by (simp add: Let_def join_path_def extension_def build_clients_def build_client_stem [OF assms(2) w]
        parse_grpc_client_file_def)
qed

text \<open>
  A method whose name is a Rust keyword, which tonic-build writes as a raw identifier
  (\<open>r#type\<close>), makes the build panic: the name of the retrying method is made from the text
  of the identifier with \<open>r#\<close> in it, and \<open>Ident::new\<close> does not take that.
\<close>

lemma keyword_method_panics:
  fixes env :: "('ioe, 'se, 'file) build_env"
  assumes "builder_dir self = Some dir" "stem \<noteq> []" "CHR ''.'' \<notin> set stem"
    and "fs (client_path dir stem) = Some raw" "read_error env (client_path dir stem) = None"
    and "parse_ident env stem = Inr i" "parse_file env raw = Inr items"
    and "parse_grpc_client_items items = (Inr ms :: ('ioe, 'se) builder_error + _)"
    and "m \<in> set ms" "c \<in> set (gmod_clients m)" "x \<in> set (gi_methods c)" "gm_name x = ''r#'' @ keyword"
    and "\<And>s. \<exists>e. ident_new env (''r#'' @ s) = Inl e"
  shows "\<exists>e. build_clients env self [(False, [stem])] fs = (Inl e :: ('ioe, 'se, unit) built)"
proof -
  have parse: "parse_grpc_client_file env fs (client_path dir stem) =
      (Inr (Inr \<lparr>gf_module = i, gf_client_modules = ms\<rparr>) :: (('ioe, 'se) builder_error + _) may_panic)"
    using assms(5-8) by (simp add: parse_client_path [of stem fs dir raw, OF assms(2,4)])
  have "\<not> list_all (\<lambda>m. gmod_clients m = []) ms" using assms(9,10) by (force simp: list_all_iff)
  moreover have "\<exists>e. file_tokens (ident_new env) (type_tokens env) \<lparr>gf_module = i, gf_client_modules = ms\<rparr> = Inl e"
    using assms(13) [of "keyword @ ''_with_retry''"] assms(9-12) by (intro file_tokens_panics) auto
  ultimately show ?thesis
    using parse assms(1-3) by (auto simp: build_clients_def build_client_stem [of stem])
qed

text \<open>
  A service named without its extension whose name has a dot is read from another file:
  the last part of the name is taken for the extension and replaced.
\<close>

lemma extension_is_replaced:
  assumes "a \<noteq> []" "b \<noteq> []" "CHR ''.'' \<notin> set b"
  shows "build_clients env self [(False, [a @ ''.'' @ b])] fs = build_clients env self [(False, [a @ ''.rs''])] fs"
proof -
  have "last b \<noteq> CHR ''.''" using assms(2,3) by (metis last_in_set)
  then have "with_extension (False, [a @ ''.'' @ b]) ''rs'' = (False, [a @ ''.rs''])"
    using file_name_ext [OF assms(2), of False "[]" a] rsplit_dot_ext [OF assms(1,3)]
    by (simp add: with_extension_def file_stem_def)
  with assms(1) show ?thesis by (simp add: build_clients_def build_client_def split: option.split)
qed

end
