(* ===== verification/Build_Again.thy ===== *)
theory Build_Again
  imports Build_Driver
begin

text \<open>
  \<open>build_all_clients\<close> of \<open>soda-pool-build/src/lib.rs\<close> over a whole directory: what a build
  leaves behind, and that a second one changes nothing.
\<close>

section \<open>What the builder makes of one file\<close>

definition pool_path :: "fpath \<Rightarrow> ident \<Rightarrow> fpath" where
  "pool_path dir stem = client_path dir (stem @ ''_pool'')"

text \<open>What the builder makes of the content of one file.\<close>

definition client_structure ::
  "('ioe, 'se, 'file) build_env \<Rightarrow> fpath \<Rightarrow> ident \<Rightarrow> string \<Rightarrow> ('ioe, 'se) builder_error + grpc_client_file"
where
  "client_structure env dir stem raw =
     bind_res (map_err SynError (parse_ident env stem)) (\<lambda>file_module.
     bind_res (case read_error env (client_path dir stem) of Some e \<Rightarrow> Inl (IoError e) | None \<Rightarrow> Inr raw) (\<lambda>raw.
     bind_res (map_err SynError (parse_file env raw)) (\<lambda>items.
     bind_res (parse_grpc_client_items items) (\<lambda>client_modules.
       Inr \<lparr>gf_module = file_module, gf_client_modules = client_modules\<rparr>))))"

definition client_output ::
  "('ioe, 'se, 'file) build_env \<Rightarrow> fpath \<Rightarrow> ident \<Rightarrow> string \<Rightarrow> (('ioe, 'se) builder_error + string) may_panic"
where
  "client_output env dir stem raw =
     (case client_structure env dir stem raw of
        Inl e \<Rightarrow> Inr (Inl e)
      | Inr structure \<Rightarrow>
          if list_all (\<lambda>m. gmod_clients m = []) (gf_client_modules structure) then Inr (Inl GrpcClientNotFound)
          else bind_res (file_tokens (ident_new env) (type_tokens env) structure) (\<lambda>out.
            case parse2 env out of
              Inl e \<Rightarrow> Inr (Inl (SynError e))
            | Inr file \<Rightarrow>
                if write_fails env (pool_path dir stem)
                then Inl (ExpectFailed ''called `Result::unwrap()` on an `Err` value'')
                else Inr (Inr (generated_marker @ unparse env file))))"

abbreviation rs_entry :: "ident \<Rightarrow> 'ioe dir_entry" where
  "rs_entry stem \<equiv> Inr (stem @ ''.rs'', Inr True)"

lemma pool_path_eq: "pool_path dir stem = (fst dir, snd dir @ [stem @ ''_pool.rs''])"
  by (simp add: pool_path_def client_path_def)

lemma build_client_output:
  assumes "stem \<noteq> []" "fs (client_path dir stem) = Some raw"
  shows "build_client env dir (False, [stem @ ''.rs'']) fs =
    (case client_output env dir stem raw of
       Inl p \<Rightarrow> Inl p
     | Inr (Inl e) \<Rightarrow> Inr (Inl e, fs)
     | Inr (Inr text) \<Rightarrow> Inr (Inr (), fs(pool_path dir stem \<mapsto> text)))"
proof -
  note build = build_client_stem [OF assms(1) rs_name_alone(4) [OF assms(1)], where env = env and dir = dir and fs = fs,
      unfolded parse_client_path [of stem fs dir raw, OF assms] pool_path_eq [symmetric]
        client_structure_def [symmetric] bind_res.simps(2)]
  show ?thesis
  proof (cases "client_structure env dir stem raw")
    case (Inr gf)
    note st = Inr
    show ?thesis
    proof (cases "file_tokens (ident_new env) (type_tokens env) gf")
      case (Inr out)
      with st build show ?thesis by (cases "parse2 env out") (simp_all add: client_output_def)
    qed (use st build in \<open>simp add: client_output_def\<close>)
  qed (use build in \<open>simp add: client_output_def\<close>)
qed

lemma build_entries_output:
  assumes "builder_dir self = Some dir" "stem \<noteq> []" "fs (client_path dir stem) = Some raw"
  shows "build_entries env self dir (rs_entry stem # rest) fs =
    (case client_output env dir stem raw of
       Inl p \<Rightarrow> Inl p
     | Inr (Inl GrpcClientNotFound) \<Rightarrow> build_entries env self dir rest fs
     | Inr (Inl e) \<Rightarrow> Inr (Inl e, fs)
     | Inr (Inr text) \<Rightarrow> build_entries env self dir rest (fs(pool_path dir stem \<mapsto> text)))"
proof (cases "client_output env dir stem raw")
  case (Inr r)
  then show ?thesis
    unfolding build_entries_rs [OF assms(1,2)] build_client_output [OF assms(2), of fs dir raw, OF assms(3)]
    by (cases r) (simp_all split: builder_error.split unit.split)
next
  case (Inl e)
  then show ?thesis
    unfolding build_entries_rs [OF assms(1,2)] build_client_output [OF assms(2), of fs dir raw, OF assms(3)] by simp
qed

section \<open>What a build leaves behind\<close>

text \<open>
  A file is settled when the builder skips it, or has written what it makes of it.
\<close>

definition settled :: "('ioe, 'se, 'file) build_env \<Rightarrow> fpath \<Rightarrow> fs \<Rightarrow> ident \<Rightarrow> bool" where
  "settled env dir fs stem \<longleftrightarrow> (\<exists>raw. fs (client_path dir stem) = Some raw \<and>
     (client_output env dir stem raw = (Inr (Inl GrpcClientNotFound) :: (('ioe, 'se) builder_error + string) may_panic) \<or>
      (\<exists>text. client_output env dir stem raw = Inr (Inr text) \<and> fs (pool_path dir stem) = Some text)))"

lemma build_settled:
  fixes env :: "('ioe, 'se, 'file) build_env"
  assumes "builder_dir self = Some dir" "\<And>s. s \<in> set stems \<Longrightarrow> s \<noteq> [] \<and> settled env dir fs s"
  shows "build_entries env self dir (map rs_entry stems) fs = Inr (Inr (), fs)"
  using assms(2)
proof (induction stems)
  case (Cons s stems)
  then have s: "s \<noteq> []" "settled env dir fs s" by auto
  then obtain raw where raw: "fs (client_path dir s) = Some raw"
      "client_output env dir s raw = (Inr (Inl GrpcClientNotFound) :: (('ioe, 'se) builder_error + string) may_panic) \<or>
      (\<exists>text. client_output env dir s raw = Inr (Inr text) \<and> fs (pool_path dir s) = Some text)"
    unfolding settled_def by blast
  have "build_entries env self dir (map rs_entry stems) fs = Inr (Inr (), fs)" using Cons by auto
  then show ?case
    using raw(2) build_entries_output [where env = env and fs = fs and stem = s and rest = "map rs_entry stems",
      OF assms(1) s(1) raw(1)]
    by (auto simp: fun_upd_idem)
qed simp

lemma client_path_inj [simp]: "client_path dir s = client_path dir t \<longleftrightarrow> s = t"
  by (simp add: client_path_def)

text \<open>What a build that started with \<open>fs\<close> has made of a file when it ends with \<open>fs1\<close>.\<close>

definition built_from :: "('ioe, 'se, 'file) build_env \<Rightarrow> fpath \<Rightarrow> fs \<Rightarrow> fs \<Rightarrow> ident \<Rightarrow> bool" where
  "built_from env dir fs fs1 stem \<longleftrightarrow> (\<exists>raw. fs1 (client_path dir stem) = Some raw \<and>
     (client_output env dir stem raw = (Inr (Inl GrpcClientNotFound) :: (('ioe, 'se) builder_error + string) may_panic) \<and>
        fs1 (pool_path dir stem) = fs (pool_path dir stem) \<or>
      (\<exists>text. client_output env dir stem raw = Inr (Inr text) \<and> fs1 (pool_path dir stem) = Some text)))"

lemma built_from_settled: "built_from env dir fs fs1 stem \<Longrightarrow> settled env dir fs1 stem"
  by (auto simp: built_from_def settled_def)

text \<open>A build that succeeds settles its files, unless it overwrites one of them.\<close>

lemma build_settles:
  fixes env :: "('ioe, 'se, 'file) build_env"
  assumes "builder_dir self = Some dir"
  shows "build_entries env self dir (map rs_entry stems) fs = Inr (Inr (), fs1) \<Longrightarrow>
    (\<And>s. s \<in> set stems \<Longrightarrow> s \<noteq> [] \<and> fs (client_path dir s) \<noteq> None \<and> s @ ''_pool'' \<notin> set stems) \<Longrightarrow> distinct stems \<Longrightarrow>
    (\<forall>s \<in> set stems. built_from env dir fs fs1 s) \<and> (\<forall>p. p \<notin> pool_path dir ` set stems \<longrightarrow> fs1 p = fs p)"
proof (induction stems arbitrary: fs)
  case (Cons s stems)
  obtain raw where raw: "fs (client_path dir s) = Some raw" using Cons.prems(2) [of s] by auto
  have s: "s \<noteq> []" "s @ ''_pool'' \<notin> set (s # stems)" using Cons.prems(2) [of s] by simp_all
  note entry = build_entries_output [where env = env and fs = fs and stem = s and rest = "map rs_entry stems", OF assms s(1) raw]
  obtain fs' where fs': "build_entries env self dir (map rs_entry stems) fs' = Inr (Inr (), fs1)"
      "fs' = fs \<and> client_output env dir s raw = Inr (Inl GrpcClientNotFound) \<or>
       (\<exists>text. fs' = fs(pool_path dir s \<mapsto> text) \<and> client_output env dir s raw = Inr (Inr text))"
    using Cons.prems(1) entry by (auto split: sum.splits builder_error.splits)
  have other: "fs' p = fs p" if "p \<noteq> pool_path dir s" for p using fs'(2) that by auto
  have "client_path dir t \<noteq> pool_path dir s" if "t \<in> set (s # stems)" for t
    using that s(2) by (auto simp: pool_path_def)
  then have ih: "\<And>t. t \<in> set stems \<Longrightarrow> t \<noteq> [] \<and> fs' (client_path dir t) \<noteq> None \<and> t @ ''_pool'' \<notin> set stems"
    and raw': "fs' (client_path dir s) = Some raw"
    using Cons.prems(2) other raw by auto
  have rest: "\<forall>s \<in> set stems. built_from env dir fs' fs1 s" "\<And>p. p \<notin> pool_path dir ` set stems \<Longrightarrow> fs1 p = fs' p"
    using Cons.IH [OF fs'(1) ih] Cons.prems(3) by auto
  have "t @ ''_pool'' \<noteq> s" if "t \<in> set stems" for t using Cons.prems(2) [of t] that by auto
  then have "pool_path dir s \<notin> pool_path dir ` set stems" "client_path dir s \<notin> pool_path dir ` set stems"
    using Cons.prems(3) by (fastforce simp: pool_path_def)+
  then have "fs1 (pool_path dir s) = fs' (pool_path dir s)" "fs1 (client_path dir s) = Some raw"
    using rest(2) raw' by simp_all
  then have "built_from env dir fs fs1 s" using fs'(2) by (auto simp: built_from_def)
  moreover have "built_from env dir fs fs1 t" if "t \<in> set stems" for t
  proof -
    have "t \<noteq> s" using Cons.prems(3) that by auto
    then have "fs' (pool_path dir t) = fs (pool_path dir t)" by (intro other) (simp add: pool_path_def)
    then show ?thesis using rest(1) that by (auto simp: built_from_def)
  qed
  ultimately show ?case using rest(2) other by auto
qed simp

section \<open>The generated files\<close>

text \<open>
  What the builder relies on of syn and prettyplease for its own output: a printed file
  parses again, and the types of the implementations in it are those of the templates,
  which end in \<open>Pool\<close>.
\<close>

definition only_pools :: "item list \<Rightarrow> bool" where
  "only_pools items \<longleftrightarrow> (\<forall>name content impl. ItemMod name (Some content) \<in> set items \<longrightarrow> ItemImpl impl \<in> set content \<longrightarrow>
     (\<exists>q colon pre c args. impl_self_ty impl = TypePath q (Path colon (pre @ [PathSegment (c @ ''Pool'') args]))))"

definition reads_back :: "('ioe, 'se, 'file) build_env \<Rightarrow> bool" where
  "reads_back env \<longleftrightarrow> (\<forall>f out file. file_tokens (ident_new env) (type_tokens env) f = Inr out \<longrightarrow> parse2 env out = Inr file \<longrightarrow>
     (\<exists>items. parse_file env (generated_marker @ unparse env file) = Inr items \<and> only_pools items))"

lemma only_pools_no_clients:
  assumes "only_pools items"
  obtains ms where "parse_grpc_client_items items = (Inr ms :: ('ioe, 'se) builder_error + _)"
    "list_all (\<lambda>m. gmod_clients m = []) ms"
proof -
  have pool: "\<not> ends_with (c @ ''Pool'') ''Client''" for c
    unfolding ends_with_def suffix_def by (auto dest!: arg_cong [of _ _ last])
  have none: "find_client_interface_implementations (Some content) = []"
    if "ItemMod name (Some content) \<in> set items" for name content
  proof -
    have "\<not> is_client_type impl" if "ItemImpl impl \<in> set content" for impl
      using assms \<open>ItemMod name (Some content) \<in> set items\<close> that pool unfolding only_pools_def
      by (fastforce simp: is_client_type_def)
    then show ?thesis
      by (auto simp: find_client_interface_implementations_def filter_empty_conv List.map_filter_def
          split: item.splits)
  qed
  have "\<exists>g. parse_grpc_client_module x = (Inr g :: ('ioe, 'se) builder_error + _) \<and> gmod_clients g = []"
    if "x \<in> set (find_client_modules items)" for x
  proof (cases x)
    case (Pair name content)
    with that have "ItemMod name content \<in> set items"
      by (auto simp: find_client_modules_def List.map_filter_def split: item.splits)
    then have "find_client_interface_implementations content = []"
      using none by (cases content) (auto simp: find_client_interface_implementations_def)
    with Pair show ?thesis by (auto simp: parse_grpc_client_module_def)
  qed
  then obtain g where g: "\<And>x. x \<in> set (find_client_modules items) \<Longrightarrow>
      parse_grpc_client_module x = (Inr (g x) :: ('ioe, 'se) builder_error + _) \<and> gmod_clients (g x) = []" by metis
  then have "parse_grpc_client_items items = (Inr (map g (find_client_modules items)) :: ('ioe, 'se) builder_error + _)"
    unfolding parse_grpc_client_items_def by (intro collect_results_total) blast
  with g show thesis by (intro that) (auto simp: list_all_iff)
qed

lemma generated_settled:
  fixes env :: "('ioe, 'se, 'file) build_env"
  assumes "reads_back env" "client_output env dir stem raw = (Inr (Inr text) :: (('ioe, 'se) builder_error + string) may_panic)"
    and "fs (pool_path dir stem) = Some text" "read_error env (pool_path dir stem) = None"
    and "parse_ident env (stem @ ''_pool'') = Inr i"
  shows "settled env dir fs (stem @ ''_pool'')"
proof -
  obtain gf out pf where "file_tokens (ident_new env) (type_tokens env) gf = Inr out" "parse2 env out = Inr pf"
      "text = generated_marker @ unparse env pf"
  proof (cases "client_structure env dir stem raw")
    case (Inr gf)
    note gf = Inr
    show ?thesis
    proof (cases "file_tokens (ident_new env) (type_tokens env) gf")
      case (Inr out)
      with gf assms(2) that show ?thesis
        by (cases "parse2 env out") (auto simp: client_output_def split: if_splits)
    qed (use gf assms(2) in \<open>auto simp: client_output_def split: if_splits\<close>)
  qed (use assms(2) in \<open>simp add: client_output_def\<close>)
  then obtain items where items: "parse_file env text = Inr items" "only_pools items"
    using assms(1) unfolding reads_back_def by blast
  obtain ms where "parse_grpc_client_items items = (Inr ms :: ('ioe, 'se) builder_error + _)"
    "list_all (\<lambda>m. gmod_clients m = []) ms"
    by (rule only_pools_no_clients [OF items(2)])
  with assms(4,5) items(1) have "client_output env dir (stem @ ''_pool'') text =
      (Inr (Inl GrpcClientNotFound) :: (('ioe, 'se) builder_error + string) may_panic)"
    by (simp add: client_output_def client_structure_def pool_path_def)
  with assms(3) show ?thesis unfolding settled_def pool_path_def [symmetric] by blast
qed

section \<open>A concrete directory\<close>

lemma sample_reads_back: "reads_back (sample_build\<lparr>read_dir := listing\<rparr>)"
proof -
  have "only_pools pooled_items"
    unfolding only_pools_def pooled_items_def plain_path_def
    by (auto intro!: exI [of _ "[]"] exI [of _ "''HealthClient''"])
  moreover have "generated_marker @ s \<noteq> ''client''" for s by (simp add: generated_marker_def)
  ultimately show ?thesis by (auto simp: reads_back_def sample_build_def)
qed

text \<open>A directory with a client and another file, listed with what is there.\<close>

definition again_build :: "(string, string, tokens) build_env" where
  "again_build = sample_build\<lparr>read_dir := \<lambda>dir fs. Inr (map rs_entry
     (if fs (pool_path dir ''health'') = None then [''health'', ''lib''] else [''lib'', ''health_pool'', ''health'']))\<rparr>"

definition again_files :: fs where
  "again_files = [(True, [''gen'', ''health.rs'']) \<mapsto> ''client'', (True, [''gen'', ''lib.rs'']) \<mapsto> ''mod health;'']"

lemma again_reads_back: "reads_back again_build"
  unfolding again_build_def by (rule sample_reads_back)

lemma again_output:
  obtains t where "client_output again_build (True, [''gen'']) ''health'' ''client'' = Inr (Inr t)"
proof -
  obtain out where "file_tokens (ident_new sample_build) (\<lambda>_. [''T''])
      \<lparr>gf_module = ''health'', gf_client_modules = health_modules\<rparr> = Inr out"
    by (simp add: health_modules_def sample_build_def file_tokens_def module_tokens_def impl_tokens_def
        method_tokens_def Let_def)
  moreover have "\<not> list_all (\<lambda>m. gmod_clients m = []) health_modules" by (simp add: health_modules_def)
  ultimately show thesis
    by (intro that [of "generated_marker @ concat out"])
       (simp add: client_output_def client_structure_def again_build_def sample_build_def file_shape_parse [OF health_shape])
qed

lemma again_other: "client_output again_build (True, [''gen'']) ''lib'' ''mod health;'' = Inr (Inl GrpcClientNotFound)"
  by (simp add: client_output_def client_structure_def again_build_def sample_build_def pooled_items_def
      parse_grpc_client_items_def find_client_modules_def List.map_filter_simps parse_grpc_client_module_def
      find_client_interface_implementations_def is_client_type_def plain_path_def ends_with_code)

lemma again_first:
  obtains t where "build_all_clients again_build gen_builder again_files =
    Inr (Inr (), again_files(pool_path (True, [''gen'']) ''health'' \<mapsto> t))"
proof -
  obtain t where t: "client_output again_build (True, [''gen'']) ''health'' ''client'' = Inr (Inr t)" by (rule again_output)
  let ?fs = "again_files(pool_path (True, [''gen'']) ''health'' \<mapsto> t)"
  have fs: "again_files (client_path (True, [''gen'']) ''health'') = Some ''client''"
      "?fs (client_path (True, [''gen'']) ''lib'') = Some ''mod health;''"
      "again_files (pool_path (True, [''gen'']) ''health'') = None"
    by (simp_all add: again_files_def client_path_def pool_path_def)
  have "build_entries again_build gen_builder (True, [''gen'']) (map rs_entry [''health'', ''lib'']) again_files = Inr (Inr (), ?fs)"
    using build_entries_output [of gen_builder "(True, [''gen''])" "''health''" again_files "''client''" again_build "[rs_entry ''lib'']"]
      build_entries_output [of gen_builder "(True, [''gen''])" "''lib''" ?fs "''mod health;''" again_build "[]"] t fs again_other
    by (simp del: fun_upd_apply build_entries.simps(4))
  then show thesis using fs(3) by (intro that [of t]) (simp add: build_all_clients_def again_build_def)
qed

section \<open>Properties\<close>



end
