(* ===== verification/Health_Client.thy ===== *)
theory Health_Client
  imports Grpc_Parser Grpc_Generator
begin

text \<open>
  The generated code of \<open>example/protobuf.gen\<close>: the clients in tonic's \<open>health.rs\<close> as the
  parser of \<open>soda-pool-build\<close> sees them, and the pooled clients in \<open>health_pool.rs\<close> as their
  tokens, with the proof that the one is what the generator makes of the other.
\<close>

section \<open>The clients tonic-build generates\<close>

text \<open>Types by their last segment's arguments; attributes by their paths.\<close>

definition path_type :: "ident list \<Rightarrow> ident \<Rightarrow> generic_argument list \<Rightarrow> syn_type" where
  "path_type qualifier name args = TypePath None (Path False
     (map (\<lambda>i. PathSegment i NoArguments) qualifier @ [PathSegment name (AngleBracketed args)]))"

definition attr :: "ident \<Rightarrow> path" where
  "attr name = Path False [PathSegment name NoArguments]"

definition plain_fn :: "path list \<Rightarrow> ident \<Rightarrow> fn_arg list \<Rightarrow> syn_type \<Rightarrow> impl_item" where
  "plain_fn attrs name inputs out =
     ImplFn \<lparr>fn_attrs = attrs, fn_ident = name, fn_inputs = inputs, fn_output = ReturnType out\<rparr>"

definition connect_fn :: impl_item where
  "connect_fn = plain_fn [attr ''doc''] ''connect'' [Typed (plain_path [''D''])]
     (path_type [] ''Result'' [ArgType (plain_path [''Self'']), ArgType (plain_path [''tonic'', ''transport'', ''Error''])])"

text \<open>The functions every client has before its methods.\<close>

definition client_fns :: "ident \<Rightarrow> impl_item list" where
  "client_fns client =
     (let T = plain_path [''T'']; self = plain_path [''Self'']; doc = attr ''doc''; must_use = attr ''must_use'';
          encoding = [Receiver, Typed (plain_path [''CompressionEncoding''])];
          limit = [Receiver, Typed (plain_path [''usize''])]
      in [plain_fn [] ''new'' [Typed T] self,
          plain_fn [] ''with_origin'' [Typed T, Typed (plain_path [''Uri''])] self,
          plain_fn [] ''with_interceptor'' [Typed T, Typed (plain_path [''F''])]
            (path_type [] client [ArgType (path_type [] ''InterceptedService'' [ArgType T, ArgType (plain_path [''F''])])]),
          plain_fn [doc, doc, doc, doc, must_use] ''send_compressed'' encoding self,
          plain_fn [doc, must_use] ''accept_compressed'' encoding self,
          plain_fn [doc, doc, doc, must_use] ''max_decoding_message_size'' limit self,
          plain_fn [doc, doc, doc, must_use] ''max_encoding_message_size'' limit self])"

text \<open>
  A client module has two imports, the structure, the implementation for a channel and the
  implementation for any service.
\<close>

definition client_module :: "ident \<Rightarrow> ident \<Rightarrow> impl_item list \<Rightarrow> item" where
  "client_module name client methods = ItemMod name (Some
     [OtherItem, OtherItem, OtherItem,
      ItemImpl \<lparr>impl_self_ty = path_type [] client [ArgType (plain_path [''tonic'', ''transport'', ''Channel''])],
        impl_items = [connect_fn]\<rparr>,
      ItemImpl \<lparr>impl_self_ty = path_type [] client [ArgType (plain_path [''T''])],
        impl_items = client_fns client @ methods\<rparr>])"

definition is_alive_fn :: impl_item where
  "is_alive_fn = ImplFn (tonic_method True ''is_alive'' ''IntoRequest'' (OtherType [''('', '')''])
     (plain_path [''super'', ''IsAliveResponse'']))"

definition echo_message_fn :: impl_item where
  "echo_message_fn = ImplFn (tonic_method False ''echo_message'' ''IntoRequest''
     (plain_path [''super'', ''EchoRequest'']) (plain_path [''super'', ''EchoResponse'']))"

definition echo_stream_fn :: impl_item where
  "echo_stream_fn = ImplFn
     ((tonic_method False ''echo_stream'' ''IntoStreamingRequest'' (OtherType [])
        (path_type [''tonic'', ''codec''] ''Streaming'' [ArgType (plain_path [''super'', ''EchoResponse''])]))
      \<lparr>fn_inputs := [Receiver, Typed (TypeImplTrait [TraitBound (Path False
        [PathSegment ''tonic'' NoArguments, PathSegment ''IntoStreamingRequest'' (AngleBracketed
          [OtherArgument [''Message'', ''='', ''super'', ''::'', ''EchoRequest'']])])])]\<rparr>)"

text \<open>The whole file, with any content of the two server modules.\<close>

definition health_rs :: "item list \<Rightarrow> item list \<Rightarrow> item list" where
  "health_rs health_server echo_server =
     [OtherItem, OtherItem, OtherItem,
      client_module ''health_client'' ''HealthClient'' [is_alive_fn],
      ItemMod ''health_server'' (Some health_server),
      client_module ''echo_client'' ''EchoClient'' [echo_message_fn, echo_stream_fn],
      ItemMod ''echo_server'' (Some echo_server)]"

section \<open>The pooled clients in the repository\<close>

text \<open>The tokens of \<open>health_pool.rs\<close> after its first line, which is the generator's comment.\<close>

definition health_pool_head :: tokens where
  "health_pool_head =
     toks ''# ! [ allow ( clippy :: unit_arg , clippy :: clone_on_copy ) ]'' @
     toks ''use super :: health :: * ;''"

definition health_client_pool_rs :: tokens where
  "health_client_pool_rs =
     toks ''pub mod health_client { use super :: super :: health :: health_client :: * ;'' @
     toks ''# [ derive ( Clone ) ] pub struct HealthClientPool {'' @
     toks ''pool : std :: sync :: Arc < dyn soda_pool :: ChannelPool + Send + Sync > , }'' @
     toks ''impl HealthClientPool {'' @
     toks ''pub fn new ( pool : impl soda_pool :: ChannelPool + Send + Sync +'' @ [CHR 0x27 # ''static''] @ toks '') -> Self {'' @
     toks ''Self { pool : std :: sync :: Arc :: new ( pool ) , } }'' @
     toks ''pub fn new_from_endpoint ( endpoint : soda_pool :: EndpointTemplate ) -> Self { Self {'' @
     toks ''pool : std :: sync :: Arc :: new ('' @
     toks ''soda_pool :: ManagedChannelPoolBuilder :: new ( endpoint ) . build ( ) , ) , } } }'' @
     toks ''impl HealthClientPool { # [ deprecated ] pub async fn is_alive ( & self ,'' @
     toks ''request : impl tonic :: IntoRequest < ( ) > , ) -> std :: result :: Result <'' @
     toks ''tonic :: Response < super :: IsAliveResponse > , tonic :: Status , > {'' @
     toks ''# [ allow ( deprecated ) ]'' @
     toks ''self . is_alive_with_retry :: < soda_pool :: DefaultRetryPolicy > ( request ) . await }'' @
     toks ''# [ deprecated ] pub async fn is_alive_with_retry < RP : soda_pool :: RetryPolicy > ('' @
     toks ''& self , request : impl tonic :: IntoRequest < ( ) > , ) -> std :: result :: Result <'' @
     toks ''tonic :: Response < super :: IsAliveResponse > , tonic :: Status , > {'' @
     toks ''let ( metadata , extensions , message ) = request . into_request ( ) . into_parts ( ) ;'' @
     toks ''let mut tries = 0 ; loop { tries += 1 ; let ( ip_address , channel ) = self . pool'' @
     toks ''. get_channel ( ) . await'' @
     toks ''. ok_or_else ( | | { tonic :: Status :: unavailable ('' @ [quoted ''No ready channels''] @ toks '') } ) ? ;'' @
     toks ''let request = tonic :: Request :: from_parts ( metadata . clone ( ) ,'' @
     toks ''extensions . clone ( ) , message . clone ( ) , ) ; # [ allow ( deprecated ) ]'' @
     toks ''let result = HealthClient :: new ( channel ) . is_alive ( request ) . await ;'' @
     toks ''match result { Ok ( response ) => { return Ok ( response ) ; } Err ( e ) => {'' @
     toks ''let ( server_status , retry_time ) = RP :: should_retry ( & e , tries ) ;'' @
     toks ''if matches ! ( server_status , soda_pool :: ServerStatus :: Dead ) {'' @
     toks ''self . pool . report_broken ( ip_address ) . await ; } match retry_time {'' @
     toks ''soda_pool :: RetryTime :: DoNotRetry => { return Err ( e ) ; }'' @
     toks ''soda_pool :: RetryTime :: Immediately => { continue ; }'' @
     toks ''soda_pool :: RetryTime :: After ( duration ) => {'' @
     toks ''soda_pool :: deps :: sleep ( duration ) . await ; } } } } } } } }''"

definition echo_client_pool_rs :: tokens where
  "echo_client_pool_rs =
     toks ''pub mod echo_client { use super :: super :: health :: echo_client :: * ;'' @
     toks ''# [ derive ( Clone ) ] pub struct EchoClientPool {'' @
     toks ''pool : std :: sync :: Arc < dyn soda_pool :: ChannelPool + Send + Sync > , }'' @
     toks ''impl EchoClientPool {'' @
     toks ''pub fn new ( pool : impl soda_pool :: ChannelPool + Send + Sync +'' @ [CHR 0x27 # ''static''] @ toks '') -> Self {'' @
     toks ''Self { pool : std :: sync :: Arc :: new ( pool ) , } }'' @
     toks ''pub fn new_from_endpoint ( endpoint : soda_pool :: EndpointTemplate ) -> Self { Self {'' @
     toks ''pool : std :: sync :: Arc :: new ('' @
     toks ''soda_pool :: ManagedChannelPoolBuilder :: new ( endpoint ) . build ( ) , ) , } } }'' @
     toks ''impl EchoClientPool { pub async fn echo_message ( & self ,'' @
     toks ''request : impl tonic :: IntoRequest < super :: EchoRequest > ,'' @
     toks '') -> std :: result :: Result < tonic :: Response < super :: EchoResponse > , tonic :: Status > {'' @
     toks ''# [ allow ( deprecated ) ]'' @
     toks ''self . echo_message_with_retry :: < soda_pool :: DefaultRetryPolicy > ( request ) . await'' @
     toks ''} pub async fn echo_message_with_retry < RP : soda_pool :: RetryPolicy > ( & self ,'' @
     toks ''request : impl tonic :: IntoRequest < super :: EchoRequest > ,'' @
     toks '') -> std :: result :: Result < tonic :: Response < super :: EchoResponse > , tonic :: Status > {'' @
     toks ''let ( metadata , extensions , message ) = request . into_request ( ) . into_parts ( ) ;'' @
     toks ''let mut tries = 0 ; loop { tries += 1 ; let ( ip_address , channel ) = self . pool'' @
     toks ''. get_channel ( ) . await'' @
     toks ''. ok_or_else ( | | { tonic :: Status :: unavailable ('' @ [quoted ''No ready channels''] @ toks '') } ) ? ;'' @
     toks ''let request = tonic :: Request :: from_parts ( metadata . clone ( ) ,'' @
     toks ''extensions . clone ( ) , message . clone ( ) , ) ; # [ allow ( deprecated ) ]'' @
     toks ''let result = EchoClient :: new ( channel ) . echo_message ( request ) . await ;'' @
     toks ''match result { Ok ( response ) => { return Ok ( response ) ; } Err ( e ) => {'' @
     toks ''let ( server_status , retry_time ) = RP :: should_retry ( & e , tries ) ;'' @
     toks ''if matches ! ( server_status , soda_pool :: ServerStatus :: Dead ) {'' @
     toks ''self . pool . report_broken ( ip_address ) . await ; } match retry_time {'' @
     toks ''soda_pool :: RetryTime :: DoNotRetry => { return Err ( e ) ; }'' @
     toks ''soda_pool :: RetryTime :: Immediately => { continue ; }'' @
     toks ''soda_pool :: RetryTime :: After ( duration ) => {'' @
     toks ''soda_pool :: deps :: sleep ( duration ) . await ; } } } } } } } }''"

definition health_pool_rs :: tokens where
  "health_pool_rs = health_pool_head @ health_client_pool_rs @ echo_client_pool_rs"

text \<open>
  The printer that the builder calls adds and removes commas before a closing delimiter.
\<close>

fun drop_trailing_commas :: "tokens \<Rightarrow> tokens" where
  "drop_trailing_commas (a # b # ts) =
     (if a = '','' then (if b \<in> {'')'', '']'', ''}'', ''>''} then [] else [a]) @ drop_trailing_commas (b # ts)
      else a # drop_trailing_commas (b # ts))"
| "drop_trailing_commas ts = ts"

text \<open>How syn prints the types that occur: \<open>()\<close> and paths without arguments.\<close>

definition prints_types :: "(syn_type \<Rightarrow> tokens) \<Rightarrow> bool" where
  "prints_types ty \<longleftrightarrow> ty (OtherType [''('', '')'']) = [''('', '')''] \<and>
     (\<forall>i j. ty (plain_path [i, j]) = [i, ''::'', j])"

text \<open>A printer for paths without arguments and for types given by their tokens.\<close>

fun sample_printer :: "syn_type \<Rightarrow> tokens" where
  "sample_printer (OtherType ts) = ts"
| "sample_printer (TypePath _ (Path _ segs)) = tl (concat (map (\<lambda>s. [''::'', segment_ident s]) segs))"
| "sample_printer _ = []"

definition repository_modules :: "grpc_client_module list" where
  "repository_modules =
     [\<lparr>gmod_name = ''health_client'', gmod_clients = [\<lparr>gi_name = ''HealthClient'', gi_methods =
        [\<lparr>gm_name = ''is_alive'', gm_deprecated = True, gm_request_type = OtherType [''('', '')''],
          gm_response_type = plain_path [''super'', ''IsAliveResponse'']\<rparr>]\<rparr>]\<rparr>,
      \<lparr>gmod_name = ''echo_client'', gmod_clients = [\<lparr>gi_name = ''EchoClient'', gi_methods =
        [\<lparr>gm_name = ''echo_message'', gm_deprecated = False, gm_request_type = plain_path [''super'', ''EchoRequest''],
          gm_response_type = plain_path [''super'', ''EchoResponse'']\<rparr>]\<rparr>]\<rparr>]"

lemma health_rs_parse: "parse_grpc_client_items (health_rs hs es) = (Inr repository_modules :: ('ioe, 'se) builder_error + _)"
  by (simp add: health_rs_def repository_modules_def client_module_def client_fns_def plain_fn_def Let_def
      connect_fn_def is_alive_fn_def echo_message_fn_def echo_stream_fn_def path_type_def attr_def
      parse_grpc_client_items_def find_client_modules_def List.map_filter_simps parse_grpc_client_module_def ends_with_code
      find_client_interface_implementations_def is_client_type_def has_new_def plain_path_def
      parse_grpc_client_implementation_def find_grpc_methods_def is_grpc_method_def tonic_method_def)

text \<open>The tokens depend on the identifiers and types of the file only.\<close>

lemma method_tokens_cong:
  assumes "ident_new (gm_name m @ ''_with_retry'') = ident_new' (gm_name m @ ''_with_retry'')"
    and "ty (gm_request_type m) = ty' (gm_request_type m)" "ty (gm_response_type m) = ty' (gm_response_type m)"
  shows "method_tokens ident_new ty client m = method_tokens ident_new' ty' client m"
  unfolding method_tokens_def assms ..

lemma impl_tokens_cong:
  assumes "ident_new (gi_name c @ ''Pool'') = ident_new' (gi_name c @ ''Pool'')"
    and "\<And>m. m \<in> set (gi_methods c) \<Longrightarrow>
      method_tokens ident_new ty (gi_name c) m = method_tokens ident_new' ty' (gi_name c) m"
  shows "impl_tokens ident_new ty c = impl_tokens ident_new' ty' c"
proof -
  have "collect_results (method_tokens ident_new ty (gi_name c)) (gi_methods c) =
      collect_results (method_tokens ident_new' ty' (gi_name c)) (gi_methods c)"
    by (rule collect_results_cong) (rule assms(2))
  then show ?thesis unfolding impl_tokens_def assms(1) by (rule ssubst) (rule refl)
qed

lemma module_tokens_cong:
  assumes "\<And>c. c \<in> set (gmod_clients m) \<Longrightarrow> impl_tokens ident_new ty c = impl_tokens ident_new' ty' c"
  shows "module_tokens ident_new ty orig m = module_tokens ident_new' ty' orig m"
proof -
  have "collect_results (impl_tokens ident_new ty) (gmod_clients m) =
      collect_results (impl_tokens ident_new' ty') (gmod_clients m)"
    by (rule collect_results_cong) (rule assms)
  then show ?thesis unfolding module_tokens_def by (rule ssubst) (rule refl)
qed

lemma file_tokens_cong:
  assumes "\<And>m. m \<in> set (gf_client_modules f) \<Longrightarrow>
    module_tokens ident_new ty (gf_module f) m = module_tokens ident_new' ty' (gf_module f) m"
  shows "file_tokens ident_new ty f = file_tokens ident_new' ty' f"
proof -
  have "collect_results (module_tokens ident_new ty (gf_module f)) (gf_client_modules f) =
      collect_results (module_tokens ident_new' ty' (gf_module f)) (gf_client_modules f)"
    by (rule collect_results_cong) (rule assms)
  then show ?thesis unfolding file_tokens_def by (rule ssubst) (rule refl)
qed

text \<open>The two modules are compared one by one.\<close>

definition no_comma_end :: "tokens \<Rightarrow> bool" where
  "no_comma_end xs \<longleftrightarrow> xs = [] \<or> last xs \<noteq> '',''"

lemma drop_trailing_commas_append:
  "no_comma_end xs \<Longrightarrow> drop_trailing_commas (xs @ ys) = drop_trailing_commas xs @ drop_trailing_commas ys"
proof (induction xs)
  case (Cons a xs)
  show ?case
  proof (cases xs)
    case Nil
    with Cons.prems show ?thesis by (cases ys) (auto simp: no_comma_end_def)
  next
    case (Cons b bs)
    with Cons.IH Cons.prems show ?thesis by (auto simp: no_comma_end_def split: if_splits)
  qed
qed simp

lemma module_tokens_end:
  assumes "module_tokens ident_new ty orig m = Inr ts"
  shows "no_comma_end ts"
proof -
  have "toks ''}'' = [''}'']" by code_simp
  with assms show ?thesis by (auto simp: module_tokens_def bind_res_eq_Inr no_comma_end_def)
qed

definition module_matches :: "grpc_client_module \<Rightarrow> tokens \<Rightarrow> bool" where
  "module_matches m rs \<longleftrightarrow>
     map_ok drop_trailing_commas (module_tokens Inr sample_printer ''health'' m) = Inr (drop_trailing_commas rs)"

lemma module_matches_code [code]:
  "module_matches m rs = (case module_tokens Inr sample_printer ''health'' m of
     Inl _ \<Rightarrow> False | Inr ts \<Rightarrow> drop_trailing_commas ts = drop_trailing_commas rs)"
  by (auto simp: module_matches_def split: sum.split)

lemma modules_match:
  "module_matches (repository_modules ! 0) health_client_pool_rs"
  "module_matches (repository_modules ! 1) echo_client_pool_rs"
  by code_simp+

lemma no_comma_ends: "no_comma_end health_pool_head" "no_comma_end health_client_pool_rs"
  by code_simp+

lemma sample_health_tokens:
  "map_ok drop_trailing_commas (file_tokens Inr sample_printer
     \<lparr>gf_module = ''health'', gf_client_modules = repository_modules\<rparr>) = Inr (drop_trailing_commas health_pool_rs)"
proof -
  obtain t u where t: "module_tokens Inr sample_printer ''health'' (repository_modules ! 0) = Inr t"
      "drop_trailing_commas t = drop_trailing_commas health_client_pool_rs"
    and u: "module_tokens Inr sample_printer ''health'' (repository_modules ! 1) = Inr u"
      "drop_trailing_commas u = drop_trailing_commas echo_client_pool_rs"
    using modules_match by (auto simp: module_matches_def)
  let ?head = "toks ''# ! [ allow ( clippy :: unit_arg , clippy :: clone_on_copy , ) ] use super ::'' @ [''health''] @ toks '':: * ;''"
  have ms: "repository_modules = [repository_modules ! 0, repository_modules ! 1]" by (simp add: repository_modules_def)
  have "collect_results (module_tokens Inr sample_printer ''health'') repository_modules = Inr [t, u]"
    using t(1) u(1) by (subst ms) simp
  then have "file_tokens Inr sample_printer \<lparr>gf_module = ''health'', gf_client_modules = repository_modules\<rparr> =
      Inr (?head @ t @ u)"
    by (simp add: file_tokens_def)
  moreover have "no_comma_end ?head" "drop_trailing_commas ?head = drop_trailing_commas health_pool_head"
    by code_simp+
  ultimately show ?thesis
    using drop_trailing_commas_append [of ?head "t @ u"] drop_trailing_commas_append [OF module_tokens_end [OF t(1)]]
      drop_trailing_commas_append [OF no_comma_ends(1)] drop_trailing_commas_append [OF no_comma_ends(2)] t(2) u(2)
    by (simp add: health_pool_rs_def)
qed

text \<open>The tokens for any printer that prints the types of the file, and any \<open>Ident::new\<close>.\<close>

lemma repository_tokens_eq:
  assumes "prints_types ty" "list_all (\<lambda>s. ident_new s = Inr s)
    [''HealthClientPool'', ''is_alive_with_retry'', ''EchoClientPool'', ''echo_message_with_retry'']"
  shows "file_tokens ident_new ty \<lparr>gf_module = ''health'', gf_client_modules = repository_modules\<rparr> =
    file_tokens Inr sample_printer \<lparr>gf_module = ''health'', gf_client_modules = repository_modules\<rparr>"
  using assms
  by (intro file_tokens_cong module_tokens_cong impl_tokens_cong method_tokens_cong)
     (auto simp: repository_modules_def prints_types_def plain_path_def)

lemma repository_tokens:
  assumes "prints_types ty" "list_all (\<lambda>s. ident_new s = Inr s)
    [''HealthClientPool'', ''is_alive_with_retry'', ''EchoClientPool'', ''echo_message_with_retry'']"
  shows "\<exists>out. file_tokens ident_new ty \<lparr>gf_module = ''health'', gf_client_modules = repository_modules\<rparr> = Inr out \<and>
    drop_trailing_commas out = drop_trailing_commas health_pool_rs"
  using sample_health_tokens unfolding repository_tokens_eq [OF assms] by auto

section \<open>Property\<close>

text \<open>
  C33: the checked-in pooled clients are what the builder makes of the checked-in clients:
  whatever the two server modules of \<open>health.rs\<close> hold, the parser finds the two clients, and
  the tokens the generator makes of them are those of \<open>health_pool.rs\<close>, up to commas before
  a closing delimiter.  (\<open>Ident::new\<close> takes the four names, and syn prints the types as they
  are written.)
\<close>

theorem health_pool_is_generated:
  assumes "prints_types ty" "list_all (\<lambda>s. ident_new s = Inr s)
    [''HealthClientPool'', ''is_alive_with_retry'', ''EchoClientPool'', ''echo_message_with_retry'']"
  shows "\<exists>ms out. parse_grpc_client_items (health_rs health_server echo_server) =
      (Inr ms :: ('ioe, 'se) builder_error + _) \<and>
    file_tokens ident_new ty \<lparr>gf_module = ''health'', gf_client_modules = ms\<rparr> = Inr out \<and>
    drop_trailing_commas out = drop_trailing_commas health_pool_rs"
  using repository_tokens [OF assms] by (auto simp: health_rs_parse)

theorem health_pool_is_generated_witness:
  "\<exists>ms out. parse_grpc_client_items (health_rs [] [OtherItem]) = (Inr ms :: (string, string) builder_error + _) \<and>
    file_tokens Inr sample_printer \<lparr>gf_module = ''health'', gf_client_modules = ms\<rparr> = Inr out \<and>
    drop_trailing_commas out = drop_trailing_commas health_pool_rs"
  by (rule health_pool_is_generated) (simp_all add: prints_types_def plain_path_def)

end
