(* ===== verification/Example_Generator.thy ===== *)
theory Example_Generator
  imports Build_Again Health_Client
begin

text \<open>
  The program \<open>example/generator\<close> on the repository's own directory \<open>example/protobuf.gen/src\<close>,
  and the file \<open>test_cases/parser_success.rs\<close> on which the parser is tested.
\<close>

section \<open>The parser's test case\<close>

text \<open>
  In the two client modules all bodies are \<open>unreachable!()\<close>, so the signatures are all there
  is.
\<close>

definition parser_success_health_client :: item where
  "parser_success_health_client = client_module ''health_client'' ''HealthClient'' [is_alive_fn]"

definition parser_success_echo_client :: item where
  "parser_success_echo_client = client_module ''echo_client'' ''EchoClient'' [echo_message_fn, echo_stream_fn]"

text \<open>With any content of the two server modules.\<close>

definition parser_success_rs :: "item list \<Rightarrow> item list \<Rightarrow> item list" where
  "parser_success_rs health_server echo_server =
     [OtherItem, OtherItem, OtherItem,
      parser_success_health_client,
      parser_success_echo_client,
      ItemMod ''health_server'' (Some health_server),
      ItemMod ''echo_server'' (Some echo_server)]"

text \<open>The unit test \<open>ok\<close> of \<open>parser.rs\<close>.\<close>

lemma parser_test_ok:
  "parse_grpc_client_items (parser_success_rs hs es) = (Inr repository_modules :: ('ioe, 'se) builder_error + _)"
proof -
  have "find_client_modules (parser_success_rs hs es) = find_client_modules (health_rs hs es)"
    by (simp add: parser_success_rs_def health_rs_def parser_success_health_client_def parser_success_echo_client_def
        find_client_modules_def client_module_def List.map_filter_simps ends_with_code)
  with health_rs_parse [of hs es] show ?thesis by (simp add: parse_grpc_client_items_def)
qed

section \<open>The other files of the directory\<close>

text \<open>\<open>lib.rs\<close>: the modules and what it exports of them.\<close>

definition lib_rs :: "item list" where
  "lib_rs =
     [ItemMod ''health'' None, OtherItem,
      ItemMod ''wrapped'' None, OtherItem,
      ItemMod ''health_pool'' None]"

text \<open>\<open>wrapped.rs\<close>: two imports and a call of \<open>define_client!\<close>, which the parser does not expand.\<close>

definition wrapped_rs :: "item list" where
  "wrapped_rs = [OtherItem, OtherItem, OtherItem]"

lemma no_clients_in:
  "parse_grpc_client_items lib_rs = (Inr [] :: ('ioe, 'se) builder_error + _)"
  "parse_grpc_client_items wrapped_rs = (Inr [] :: ('ioe, 'se) builder_error + _)"
  by (simp_all add: lib_rs_def wrapped_rs_def parse_grpc_client_items_def find_client_modules_def
      List.map_filter_simps ends_with_code)

section \<open>The generator\<close>

text \<open>
  \<open>compile\<close> is tonic-build's \<open>compile_with_config\<close>, which writes \<open>health.rs\<close>; \<open>None\<close> is an
  error of it.
\<close>

definition generated_dir :: fpath where
  "generated_dir = (False, [''.'', ''example'', ''protobuf.gen'', ''src''])"

definition generator_main :: "(fs \<Rightarrow> fs option) \<Rightarrow> ('ioe, 'se, 'file) build_env \<Rightarrow> fs \<Rightarrow> fs may_panic" where
  "generator_main compile env fs =
     bind_res (expect ''failed to compile proto file'' (compile fs)) (\<lambda>fs.
     bind_res (build_all_clients env (set_dir generated_dir configure) fs) (\<lambda>(r, fs).
       case r of
         Inl _ \<Rightarrow> Inl (ExpectFailed ''failed to wrap services'')
       | Inr () \<Rightarrow> Inr fs))"

text \<open>
  A directory in which one file, \<open>stem\<close>, has clients: the others are skipped, before and
  after it has been built.
\<close>

lemma build_one_client:
  fixes env :: "('ioe, 'se, 'file) build_env"
  assumes "builder_dir self = Some dir"
    and "\<And>s fs. s \<in> set stems \<Longrightarrow> fs \<in> {fs0, fs1} \<Longrightarrow> s \<noteq> [] \<and> (\<exists>raw. fs (client_path dir s) = Some raw \<and>
      client_output env dir s raw = (if s = stem then Inr (Inr text)
        else Inr (Inl GrpcClientNotFound) :: (('ioe, 'se) builder_error + string) may_panic))"
    and "fs1 = fs0(pool_path dir stem \<mapsto> text)"
  shows "fs \<in> {fs0, fs1} \<Longrightarrow>
    build_entries env self dir (map rs_entry stems) fs = Inr (Inr (), if stem \<in> set stems then fs1 else fs)"
  using assms(2)
proof (induction stems arbitrary: fs)
  case (Cons s stems)
  obtain raw where s: "s \<noteq> []" "fs (client_path dir s) = Some raw"
      "client_output env dir s raw = (if s = stem then Inr (Inr text)
        else Inr (Inl GrpcClientNotFound) :: (('ioe, 'se) builder_error + string) may_panic)"
    using Cons.prems(2) [of s fs] Cons.prems(1) by auto
  have stored: "fs(pool_path dir stem \<mapsto> text) = fs1" using Cons.prems(1) assms(3) by auto
  have rest: "build_entries env self dir (map rs_entry stems) f = Inr (Inr (), if stem \<in> set stems then fs1 else f)"
    if "f \<in> {fs0, fs1}" for f
    using that Cons.prems(2) by (intro Cons.IH) simp_all
  show ?case
    using build_entries_output [where fs = fs and raw = raw and env = env and rest = "map rs_entry stems", OF assms(1) s(1,2)] s(3) rest [of fs] rest [of fs1] stored Cons.prems(1)
    by (cases "s = stem") auto
qed simp

text \<open>What the driver makes of a file: nothing, if it has only pooled clients or other items.\<close>

lemma client_structure_file:
  assumes "parse_ident env s = Inr s \<and> read_error env (client_path dir s) = None"
  shows "client_structure env dir s raw = bind_res (map_err SynError (parse_file env raw)) (\<lambda>items.
    bind_res (parse_grpc_client_items items) (\<lambda>ms. Inr \<lparr>gf_module = s, gf_client_modules = ms\<rparr>))"
  using assms by (simp add: client_structure_def)

lemma client_output_skips:
  fixes env :: "('ioe, 'se, 'file) build_env"
  assumes "parse_ident env s = Inr s \<and> read_error env (client_path dir s) = None"
    and "parse_file env raw = Inr items" "only_pools items \<or> items \<in> {lib_rs, wrapped_rs}"
  shows "client_output env dir s raw = (Inr (Inl GrpcClientNotFound) :: (('ioe, 'se) builder_error + string) may_panic)"
proof -
  have "\<exists>ms. parse_grpc_client_items items = (Inr ms :: ('ioe, 'se) builder_error + _) \<and>
      list_all (\<lambda>m. gmod_clients m = []) ms"
    using assms(3) by (auto simp: no_clients_in elim: only_pools_no_clients)
  with client_structure_file [OF assms(1), of raw] assms(2) show ?thesis by (auto simp: client_output_def)
qed

lemma client_output_health:
  fixes env :: "('ioe, 'se, 'file) build_env"
  assumes "parse_ident env ''health'' = Inr ''health'' \<and> read_error env (client_path dir ''health'') = None"
    and "parse_file env raw = Inr (health_rs hs es)" "\<not> write_fails env (client_path dir ''health_pool'')"
    and "file_tokens (ident_new env) (type_tokens env) \<lparr>gf_module = ''health'', gf_client_modules = repository_modules\<rparr> = Inr out"
    and "parse2 env out = Inr f"
  shows "client_output env dir ''health'' raw =
    (Inr (Inr (generated_marker @ unparse env f)) :: (('ioe, 'se) builder_error + string) may_panic)"
proof -
  have "\<not> list_all (\<lambda>m. gmod_clients m = []) repository_modules" by (simp add: repository_modules_def)
  moreover have "pool_path dir ''health'' = client_path dir ''health_pool''" by (simp add: pool_path_def)
  ultimately show ?thesis
    using client_structure_file [OF assms(1), of raw] assms(2-5) by (simp add: client_output_def health_rs_parse)
qed

text \<open>What \<open>Ident::new\<close> and syn's printer are asked for the repository's clients.\<close>

definition takes_example_names :: "(string \<Rightarrow> ident may_panic) \<Rightarrow> bool" where
  "takes_example_names new_ident \<longleftrightarrow> list_all (\<lambda>s. new_ident s = Inr s)
    [''HealthClientPool'', ''is_alive_with_retry'', ''EchoClientPool'', ''echo_message_with_retry'']"

lemma example_tokens:
  assumes "prints_types ty" "takes_example_names new_ident"
  obtains out where "file_tokens new_ident ty \<lparr>gf_module = ''health'', gf_client_modules = repository_modules\<rparr> = Inr out"
    "drop_trailing_commas out = drop_trailing_commas health_pool_rs"
  using repository_tokens [OF assms(1) assms(2) [unfolded takes_example_names_def]] by blast

text \<open>Libraries for a concrete run: four contents of files, and whatever the builder prints.\<close>

definition sample_generator :: "(string, string, tokens) build_env" where
  "sample_generator = sample_build
     \<lparr>parse_file := (\<lambda>s. Inr (if s = ''health'' then health_rs [] [] else if s = ''wrapped'' then wrapped_rs
        else if s = ''lib'' then lib_rs else pooled_items)),
      ident_new := Inr, type_tokens := sample_printer,
      read_dir := (\<lambda>_ _. Inr (map rs_entry [''lib'', ''health_pool'', ''health'', ''wrapped'']))\<rparr>"

definition sample_sources :: fs where
  "sample_sources = [client_path generated_dir ''wrapped'' \<mapsto> ''wrapped'', client_path generated_dir ''lib'' \<mapsto> ''lib'',
     client_path generated_dir ''health_pool'' \<mapsto> ''old'']"

lemma pooled_items_only: "only_pools pooled_items"
  unfolding only_pools_def pooled_items_def plain_path_def
  by (auto intro!: exI [of _ "[]"] exI [of _ "''HealthClient''"])

lemma sample_generator_simps:
  "parse_ident sample_generator s = (if CHR ''.'' \<in> set s then Inl ''not an identifier'' else Inr s)"
  "parse_file sample_generator s = Inr (if s = ''health'' then health_rs [] [] else if s = ''wrapped'' then wrapped_rs
     else if s = ''lib'' then lib_rs else pooled_items)"
  "ident_new sample_generator = Inr" "type_tokens sample_generator = sample_printer"
  "read_dir sample_generator d fs = Inr (map rs_entry [''lib'', ''health_pool'', ''health'', ''wrapped''])"
  "parse2 sample_generator = Inr" "unparse sample_generator = concat"
  "read_error sample_generator q = None" "\<not> write_fails sample_generator q"
  by (simp_all add: sample_generator_def sample_build_def)

lemma sample_generator_reads_back: "reads_back sample_generator"
proof -
  have other: "(generated_marker @ s = ''health'') = False" "(generated_marker @ s = ''wrapped'') = False"
      "(generated_marker @ s = ''lib'') = False" for s
    by (simp_all add: generated_marker_def)
  have parsed: "parse_file sample_generator (generated_marker @ s) = Inr pooled_items" for s
    unfolding sample_generator_simps other if_False by (rule refl)
  show ?thesis
    unfolding reads_back_def using parsed pooled_items_only by blast
qed

section \<open>Property\<close>



end
