(* ===== verification/Generator_Tests.thy ===== *)
theory Generator_Tests
  imports Example_Generator Pool_Tests
begin

text \<open>
  The unit tests of the code generator: the expected text of
  \<open>soda-pool-build/src/test_cases/generator_success.rs\<close> token by token, and the tests of
  \<open>parser.rs\<close>, \<open>generator.rs\<close> and \<open>error.rs\<close>.  What syn's parser makes of the file of the
  parser's test is in \<open>Example_Generator\<close>.
\<close>

section \<open>The expected text\<close>

definition generator_success_head :: tokens where
  "generator_success_head =
     toks ''# ! [ allow ( clippy :: unit_arg , clippy :: clone_on_copy , ) ] use super :: health'' @
     toks '':: * ;''"

definition generator_success_health_client :: tokens where
  "generator_success_health_client =
     toks ''pub mod health_client { use super :: super :: health :: health_client :: * ; # ['' @
     toks ''derive ( Clone ) ] pub struct HealthClientPool { pool : std :: sync :: Arc < dyn'' @
     toks ''soda_pool :: ChannelPool + Send + Sync > , } impl HealthClientPool { pub fn new ('' @
     toks ''pool : impl soda_pool :: ChannelPool + Send + Sync +'' @
     [CHR 0x27 # ''static''] @
     toks '') -> Self { Self { pool : std :: sync :: Arc :: new ( pool ) } } pub fn'' @
     toks ''new_from_endpoint ( endpoint : soda_pool :: EndpointTemplate ) -> Self { Self { pool'' @
     toks '': std :: sync :: Arc :: new ( soda_pool :: ManagedChannelPoolBuilder :: new ('' @
     toks ''endpoint ) . build ( ) ) , } } } impl HealthClientPool { # [ deprecated ] pub async'' @
     toks ''fn is_alive ( & self , request : impl tonic :: IntoRequest < ( ) > , ) -> std ::'' @
     toks ''result :: Result < tonic :: Response < super :: IsAliveResponse > , tonic :: Status'' @
     toks ''> { # [ allow ( deprecated ) ] self . is_alive_with_retry :: < soda_pool ::'' @
     toks ''DefaultRetryPolicy > ( request ) . await } # [ deprecated ] pub async fn'' @
     toks ''is_alive_with_retry < RP : soda_pool :: RetryPolicy > ( & self , request : impl'' @
     toks ''tonic :: IntoRequest < ( ) > , ) -> std :: result :: Result < tonic :: Response <'' @
     toks ''super :: IsAliveResponse > , tonic :: Status > { let ( metadata , extensions ,'' @
     toks ''message ) = request . into_request ( ) . into_parts ( ) ; let mut tries = 0 ; loop {'' @
     toks ''tries += 1 ; let ( ip_address , channel ) = self . pool . get_channel ( ) . await .'' @
     toks ''ok_or_else ( | | { tonic :: Status :: unavailable ('' @
     [quoted ''No ready channels''] @
     toks '') } ) ? ; let request = tonic :: Request :: from_parts ( metadata . clone ( ) ,'' @
     toks ''extensions . clone ( ) , message . clone ( ) , ) ; # [ allow ( deprecated ) ] let'' @
     toks ''result = HealthClient :: new ( channel ) . is_alive ( request ) . await ; match'' @
     toks ''result { Ok ( response ) => { return Ok ( response ) ; } Err ( e ) => { let ('' @
     toks ''server_status , retry_time ) = RP :: should_retry ( & e , tries ) ; if matches ! ('' @
     toks ''server_status , soda_pool :: ServerStatus :: Dead ) { self . pool . report_broken ('' @
     toks ''ip_address ) . await ; } match retry_time { soda_pool :: RetryTime :: DoNotRetry =>'' @
     toks ''{ return Err ( e ) ; } soda_pool :: RetryTime :: Immediately => { continue ; }'' @
     toks ''soda_pool :: RetryTime :: After ( duration ) => { soda_pool :: deps :: sleep ('' @
     toks ''duration ) . await ; } } } } } } } }''"

definition generator_success_echo_client :: tokens where
  "generator_success_echo_client =
     toks ''pub mod echo_client { use super :: super :: health :: echo_client :: * ; # [ derive'' @
     toks ''( Clone ) ] pub struct EchoClientPool { pool : std :: sync :: Arc < dyn soda_pool ::'' @
     toks ''ChannelPool + Send + Sync > , } impl EchoClientPool { pub fn new ( pool : impl'' @
     toks ''soda_pool :: ChannelPool + Send + Sync +'' @
     [CHR 0x27 # ''static''] @
     toks '') -> Self { Self { pool : std :: sync :: Arc :: new ( pool ) } } pub fn'' @
     toks ''new_from_endpoint ( endpoint : soda_pool :: EndpointTemplate ) -> Self { Self { pool'' @
     toks '': std :: sync :: Arc :: new ( soda_pool :: ManagedChannelPoolBuilder :: new ('' @
     toks ''endpoint ) . build ( ) ) , } } } impl EchoClientPool { pub async fn echo_message ( &'' @
     toks ''self , request : impl tonic :: IntoRequest < super :: EchoRequest > , ) -> std ::'' @
     toks ''result :: Result < tonic :: Response < super :: EchoResponse > , tonic :: Status > {'' @
     toks ''# [ allow ( deprecated ) ] self . echo_message_with_retry :: < soda_pool ::'' @
     toks ''DefaultRetryPolicy > ( request ) . await } pub async fn echo_message_with_retry < RP'' @
     toks '': soda_pool :: RetryPolicy > ( & self , request : impl tonic :: IntoRequest < super'' @
     toks '':: EchoRequest > , ) -> std :: result :: Result < tonic :: Response < super ::'' @
     toks ''EchoResponse > , tonic :: Status > { let ( metadata , extensions , message ) ='' @
     toks ''request . into_request ( ) . into_parts ( ) ; let mut tries = 0 ; loop { tries += 1'' @
     toks ''; let ( ip_address , channel ) = self . pool . get_channel ( ) . await . ok_or_else'' @
     toks ''( | | { tonic :: Status :: unavailable ('' @
     [quoted ''No ready channels''] @
     toks '') } ) ? ; let request = tonic :: Request :: from_parts ( metadata . clone ( ) ,'' @
     toks ''extensions . clone ( ) , message . clone ( ) , ) ; # [ allow ( deprecated ) ] let'' @
     toks ''result = EchoClient :: new ( channel ) . echo_message ( request ) . await ; match'' @
     toks ''result { Ok ( response ) => { return Ok ( response ) ; } Err ( e ) => { let ('' @
     toks ''server_status , retry_time ) = RP :: should_retry ( & e , tries ) ; if matches ! ('' @
     toks ''server_status , soda_pool :: ServerStatus :: Dead ) { self . pool . report_broken ('' @
     toks ''ip_address ) . await ; } match retry_time { soda_pool :: RetryTime :: DoNotRetry =>'' @
     toks ''{ return Err ( e ) ; } soda_pool :: RetryTime :: Immediately => { continue ; }'' @
     toks ''soda_pool :: RetryTime :: After ( duration ) => { soda_pool :: deps :: sleep ('' @
     toks ''duration ) . await ; } } } } } } } }''"

definition generator_success_rs :: tokens where
  "generator_success_rs =
     generator_success_head @ generator_success_health_client @ generator_success_echo_client"

section \<open>The tests\<close>

text \<open>
  The test of the generator, with the model of the test written out.  The token streams are
  compared by their text, which the lists of tokens stand for.
\<close>

definition generator_test_ok ::
  "(string \<Rightarrow> ident may_panic) \<Rightarrow> (syn_type \<Rightarrow> tokens) \<Rightarrow> unit may_panic" where
  "generator_test_ok new_ident ty =
     bind_res (file_tokens new_ident ty
       \<lparr>gf_module = ''health'', gf_client_modules =
         [\<lparr>gmod_name = ''health_client'', gmod_clients = [\<lparr>gi_name = ''HealthClient'', gi_methods =
            [\<lparr>gm_name = ''is_alive'', gm_deprecated = True, gm_request_type = OtherType [''('', '')''],
              gm_response_type = plain_path [''super'', ''IsAliveResponse'']\<rparr>]\<rparr>]\<rparr>,
          \<lparr>gmod_name = ''echo_client'', gmod_clients = [\<lparr>gi_name = ''EchoClient'', gi_methods =
            [\<lparr>gm_name = ''echo_message'', gm_deprecated = False, gm_request_type = plain_path [''super'', ''EchoRequest''],
              gm_response_type = plain_path [''super'', ''EchoResponse'']\<rparr>]\<rparr>]\<rparr>]\<rparr>)
       (\<lambda>actual. asserts [actual = generator_success_rs])"

text \<open>The test of the parser, on the items of its file.\<close>

definition parser_test_ok :: "item list \<Rightarrow> unit may_panic" where
  "parser_test_ok syntax =
     (case parse_grpc_client_items syntax :: (unit, unit) builder_error + grpc_client_module list of
        Inl _ \<Rightarrow> Inl (Panicked ''called `Result::unwrap()` on an `Err` value'')
      | Inr actual \<Rightarrow> asserts [actual = repository_modules])"

definition test_missing_configuration :: "unit may_panic" where
  "test_missing_configuration =
     (case missing_configuration ''test_key'' :: (unit, unit) builder_error of
        MissingConfiguration key \<Rightarrow> asserts [key = ''test_key'']
      | _ \<Rightarrow> Inl (Panicked ''Expected MissingConfiguration error''))"

lemma test_missing_configuration_passes: "passes test_missing_configuration"
  by (simp add: test_missing_configuration_def missing_configuration_def)

lemma parser_test_passes: "passes (parser_test_ok (parser_success_rs health_server echo_server))"
  by (simp add: parser_test_ok_def parser_test_ok)

text \<open>The two modules are compared one by one.\<close>

lemma generated_modules:
  "module_tokens Inr sample_printer ''health'' (repository_modules ! 0) = Inr generator_success_health_client"
  "module_tokens Inr sample_printer ''health'' (repository_modules ! 1) = Inr generator_success_echo_client"
  by code_simp+

lemma generator_head:
  "generator_success_head = toks ''# ! [ allow ( clippy :: unit_arg , clippy :: clone_on_copy , ) ] use super ::'' @
    [''health''] @ toks '':: * ;''"
  by code_simp

lemma generator_test_passes:
  assumes "prints_types ty" "list_all (\<lambda>s. new_ident s = Inr s)
    [''HealthClientPool'', ''is_alive_with_retry'', ''EchoClientPool'', ''echo_message_with_retry'']"
  shows "passes (generator_test_ok new_ident ty)"
proof -
  let ?f = "\<lparr>gf_module = ''health'', gf_client_modules = repository_modules\<rparr>"
  have ms: "repository_modules = [repository_modules ! 0, repository_modules ! 1]" by (simp add: repository_modules_def)
  have "collect_results (module_tokens Inr sample_printer ''health'') repository_modules =
      Inr [generator_success_health_client, generator_success_echo_client]"
    by (subst ms) (simp add: generated_modules [unfolded One_nat_def])
  then have "file_tokens Inr sample_printer ?f = Inr generator_success_rs"
    by (simp add: file_tokens_def generator_success_rs_def generator_head)
  then show ?thesis
    unfolding generator_test_ok_def repository_modules_def [symmetric]
    by (simp add: repository_tokens_eq [OF assms])
qed

end
