(* ===== verification/Benchmark.thy ===== *)
theory Benchmark
  imports Template_Tests
begin

text \<open>
  The benchmark program \<open>perf-benchmark/benches/bench.rs\<close>: which test cases it runs and what
  it reports.  criterion decides how often a case is iterated, and the outcomes of the calls
  come from the servers: both are arguments.
\<close>

section \<open>One group of test cases\<close>

text \<open>
  \<open>try_join_all\<close> fails if one of the futures does; its argument has the results in the
  order in which the futures finish.
\<close>

definition try_join_all :: "('e + 'a) list \<Rightarrow> 'e + 'a list" where
  "try_join_all results = collect_results id results"

definition is_err :: "'e + 'a \<Rightarrow> bool" where
  "is_err r = (case r of Inl _ \<Rightarrow> True | Inr _ \<Rightarrow> False)"

text \<open>
  The loop over the test cases, with the flag \<open>prev_test_failed\<close>: \<open>iterations i\<close> has the
  results of the \<open>i\<close> calls of every iteration of case \<open>i\<close>.  The first part of the result are
  the cases that are run.
\<close>

fun run_cases :: "(nat \<Rightarrow> ('e + 'a) list list) \<Rightarrow> nat list \<Rightarrow> bool \<Rightarrow> nat list \<times> bool" where
  "run_cases iterations [] prev_test_failed = ([], prev_test_failed)"
| "run_cases iterations (i # is) prev_test_failed =
     (if prev_test_failed then ([], prev_test_failed)
      else
        let prev_test_failed = fold (\<lambda>results _. is_err (try_join_all results)) (iterations i) prev_test_failed;
            (run, prev_test_failed) = run_cases iterations is prev_test_failed
        in (i # run, prev_test_failed))"

definition test_cases :: "nat list" where
  "test_cases = [1, 2, 4, 8, 16, 32, 64]"

text \<open>A call that connects anew: \<open>connect\<close> may fail, which becomes a status.\<close>

definition reconnect_call :: "(string \<Rightarrow> 'status) \<Rightarrow> 'ce + 'client \<Rightarrow> ('client \<Rightarrow> 'status + 'a) \<Rightarrow> 'status + 'a" where
  "reconnect_call status_unknown connect is_alive =
     bind_res (map_err (\<lambda>_. status_unknown []) connect) is_alive"

section \<open>The two benchmarks\<close>

definition bench_address :: "string option \<Rightarrow> string" where
  "bench_address address_var = (case address_var of Some a \<Rightarrow> a | None \<Rightarrow> ''http://localhost:50001'')"

text \<open>
  The result: the cases that are run by group, and the lines that are printed.  \<open>wrapped\<close>
  has the results of the pooled client's calls, \<open>reconnect\<close> the connections and what a
  client makes of them.  The result of a connection in \<open>grpc_connection\<close> is thrown away.
\<close>

definition grpc_client_bench ::
  "('u, 'uri) url_lib \<Rightarrow> ('u, 'uri, 'hv, 'ep) test_lib \<Rightarrow> (string \<Rightarrow> 'ep option) \<Rightarrow> (string \<Rightarrow> 'status) \<Rightarrow>
     string option \<Rightarrow> (nat \<Rightarrow> ('status + 'a) list list) \<Rightarrow>
     (nat \<Rightarrow> (('ce + 'client) \<times> ('client \<Rightarrow> 'status + 'a)) list list) \<Rightarrow>
     ((string \<times> nat list) list \<times> string list) may_panic"
where
  "grpc_client_bench L T endpoint_from_str status_unknown address_var wrapped reconnect =
     (let address = bench_address address_var
      in bind_res (unwrap (url_parse T address)) (\<lambda>url.
         bind_res (unwrap_ok (template_new L (Inr url :: unit + 'u) :: _ + ('u, 'uri, 'hv, unit) endpoint_template)) (\<lambda>_.
         bind_res (unwrap (endpoint_from_str address)) (\<lambda>_.
         let (run, prev_test_failed) = run_cases wrapped test_cases False;
             printed = (if prev_test_failed then [''Some tests failed.''] else []);
             (run', prev_test_failed) =
               run_cases (\<lambda>i. map (map (\<lambda>(connect, is_alive). reconnect_call status_unknown connect is_alive)) (reconnect i))
                 test_cases False;
             printed = printed @ (if prev_test_failed then [''Some tests failed.''] else [])
         in Inr ([(''wrapped'', run), (''reconnect'', run')], printed)))))"

definition grpc_connection_bench :: "(string \<Rightarrow> 'ep option) \<Rightarrow> string option \<Rightarrow> string list may_panic" where
  "grpc_connection_bench endpoint_from_str address_var =
     bind_res (unwrap (endpoint_from_str (bench_address address_var))) (\<lambda>_. Inr [''connect''])"

section \<open>What is run and reported\<close>

lemma is_err_try_join_all: "is_err (try_join_all results) \<longleftrightarrow> list_ex is_err results"
proof (induction results)
  case (Cons r results)
  then show ?case
    by (cases r; cases "collect_results id results") (simp_all add: try_join_all_def is_err_def)
qed (simp add: try_join_all_def is_err_def)

text \<open>The flag after a case is the outcome of its last iteration.\<close>

definition last_fails :: "('e + 'a) list list \<Rightarrow> bool" where
  "last_fails its \<longleftrightarrow> list_ex is_err (last its)"

lemma flag_after_case:
  "its \<noteq> [] \<Longrightarrow> fold (\<lambda>results _. is_err (try_join_all results)) its b = last_fails its"
  by (induction its arbitrary: b) (auto simp: last_fails_def is_err_try_join_all)

text \<open>
  The cases are run up to the first one whose last iteration fails.  So a case with failing
  calls in any other iteration counts as a success.
\<close>

lemma run_cases_until_failure:
  assumes "\<And>i. iterations i \<noteq> []"
  shows "run_cases iterations is False =
    (takeWhile (\<lambda>i. \<not> last_fails (iterations i)) is @ take 1 (dropWhile (\<lambda>i. \<not> last_fails (iterations i)) is),
     list_ex (\<lambda>i. last_fails (iterations i)) is)"
proof (induction "is")
  case (Cons i "is")
  have "run_cases iterations js True = ([], True)" for js by (cases js) simp_all
  with Cons show ?case by (simp add: flag_after_case [OF assms])
qed simp

lemma failures_go_unnoticed:
  assumes "\<And>i. iterations i \<noteq> []" "\<And>i. \<not> last_fails (iterations i)"
  shows "run_cases iterations test_cases False = (test_cases, False)"
  using assms(2) by (simp add: run_cases_until_failure [OF assms(1)] test_cases_def)

text \<open>The pool needs a host name, so the benchmark cannot be run against an IP address.\<close>

lemma bench_refuses_ip_address:
  assumes "url_parse T address = Some u" "url_host L u = Some (Ipv4 a)"
  shows "\<exists>p. grpc_client_bench L T endpoint_from_str status_unknown (Some address) wrapped reconnect = Inl p"
  using assms by (simp add: grpc_client_bench_def bench_address_def template_new_def unwrap_ok_def)

end
